theory Spec2Isabelle
  imports Complex_Main "HOL-Library.Char_ord" "HOL-Library.List_Lexorder"
    "HOL-Library.Product_Lexorder" "HOL-Library.Sublist"
begin

section \<open>Ingestion: parsing decoded rows (handleBuildGraphIndex, src/index.ts)\<close>

text \<open>
  JavaScript strings are modelled as \<^typ>\<open>string\<close>; a field that the code turns into
  \<open>null\<close> is \<open>None\<close>. The characters the code tests for are the double quote (code 0x22),
  the comma, the newline (0x0A) and the at-sign.
\<close>

definition dquote :: char where
  "dquote = CHR 0x22"

definition newline :: char where
  "newline = CHR 0x0A"

text \<open>\<open>String.prototype.trim\<close>: white space and line terminators, on code units below 256.\<close>

definition is_js_space :: "char \<Rightarrow> bool" where
  "is_js_space c = (c \<in> {CHR 0x09, CHR 0x0A, CHR 0x0B, CHR 0x0C, CHR 0x0D, CHR 0x20, CHR 0xA0})"

definition trim :: "string \<Rightarrow> string" where
  "trim s = rev (dropWhile is_js_space (rev (dropWhile is_js_space s)))"

text \<open>
  \<open>parseCSVLine\<close>: the \<open>for\<close> loop over the characters of the line, with the variables
  \<open>result\<close>, \<open>current\<close> and \<open>inQuotes\<close>; \<open>nextChar\<close> is the head of the rest of the line.
\<close>

fun parseCSVLine_loop :: "string \<Rightarrow> string list \<Rightarrow> string \<Rightarrow> bool \<Rightarrow> string list" where
  "parseCSVLine_loop [] result current inQuotes = result @ [current]"
| "parseCSVLine_loop (c # rest) result current inQuotes =
     (if c = dquote \<and> \<not> inQuotes then parseCSVLine_loop rest result current True
      else if c = dquote \<and> inQuotes \<and> (case rest of [] \<Rightarrow> False | n # _ \<Rightarrow> n = dquote)
        then parseCSVLine_loop (tl rest) result (current @ [dquote]) inQuotes
      else if c = dquote \<and> inQuotes then parseCSVLine_loop rest result current False
      else if c = CHR '','' \<and> \<not> inQuotes then parseCSVLine_loop rest (result @ [current]) [] inQuotes
      else parseCSVLine_loop rest result (current @ [c]) inQuotes)"

definition parseCSVLine :: "string \<Rightarrow> string list" where
  "parseCSVLine line = parseCSVLine_loop line [] [] False"

text \<open>The \<open>map\<close> over the parsed fields: trim, and the empty string becomes \<open>null\<close>.\<close>

definition to_null :: "string \<Rightarrow> string option" where
  "to_null v = (let v' = trim v in if v' = [] then None else Some v')"

definition parse_parts :: "string \<Rightarrow> string option list" where
  "parse_parts line = map to_null (parseCSVLine line)"

text \<open>
  The regular expressions of \<open>processRow\<close>: after the given prefix, one or more characters
  other than the at-sign, followed by an at-sign; the match is the run before the at-sign.
\<close>

definition match_before_at :: "string \<Rightarrow> string option" where
  "match_before_at s =
     (let name = takeWhile (\<lambda>c. c \<noteq> CHR ''@'') s;
          rest = dropWhile (\<lambda>c. c \<noteq> CHR ''@'') s
      in if name \<noteq> [] \<and> rest \<noteq> [] then Some name else None)"

definition starts_with :: "string \<Rightarrow> string \<Rightarrow> bool" where
  "starts_with s p = (take (length p) s = p)"

definition calleeName_of :: "string option \<Rightarrow> string option" where
  "calleeName_of calleeId =
     (case calleeId of
        None \<Rightarrow> None
      | Some cid \<Rightarrow>
          if starts_with cid ''unresolved:''
          then match_before_at (drop (length ''unresolved:'') cid)
          else match_before_at cid)"

text \<open>\<open>parts[i]\<close> is \<open>undefined\<close> beyond the end of the array, which is falsy like \<open>null\<close>.\<close>

definition part_at :: "string option list \<Rightarrow> nat \<Rightarrow> string option" where
  "part_at parts i = (if i < length parts then parts ! i else None)"

definition processRow_calls :: "string option list \<Rightarrow> string option list" where
  "processRow_calls parts = parts @ [calleeName_of (part_at parts 1)]"

subsection \<open>The extraction table\<close>

datatype table = Functions | Function_calls | Classes | Class_methods

record extraction =
  query :: string
  target :: table
  columns :: "string list"
  required :: bool
  has_processRow :: bool

definition functions_extraction :: extraction where
  "functions_extraction =
     \<lparr>query = ''extract-functions.ql'', target = Functions,
      columns = [''codeql_id'', ''name'', ''file'', ''line'', ''num_params'', ''signature''],
      required = True, has_processRow = False\<rparr>"

definition calls_extraction :: extraction where
  "calls_extraction =
     \<lparr>query = ''extract-calls.ql'', target = Function_calls,
      columns = [''caller_codeql_id'', ''callee_codeql_id'', ''file'', ''line''],
      required = False, has_processRow = True\<rparr>"

definition classes_extraction :: extraction where
  "classes_extraction =
     \<lparr>query = ''extract-classes.ql'', target = Classes,
      columns = [''codeql_id'', ''name'', ''file'', ''line'', ''parent_codeql_id''],
      required = False, has_processRow = False\<rparr>"

definition methods_extraction :: extraction where
  "methods_extraction =
     \<lparr>query = ''extract-methods.ql'', target = Class_methods,
      columns = [''class_codeql_id'', ''method_codeql_id'', ''method_name''],
      required = False, has_processRow = False\<rparr>"

definition extractions :: "extraction list" where
  "extractions =
     [functions_extraction, calls_extraction, classes_extraction, methods_extraction]"

definition actualColumns :: "extraction \<Rightarrow> string list" where
  "actualColumns e =
     (if has_processRow e then [''database_name''] @ columns e @ [''callee_name'']
      else [''database_name''] @ columns e)"

subsection \<open>The loop over the data lines, with duplicate tracking\<close>

record ingest_state =
  seenIds :: "string set"
  skippedDuplicates :: nat
  vals :: "string option list list"

definition ingest_init :: ingest_state where
  "ingest_init = \<lparr>seenIds = {}, skippedDuplicates = 0, vals = []\<rparr>"

definition uniqueId_of :: "string \<Rightarrow> string option" where
  "uniqueId_of line = part_at (parse_parts line) 0"

definition row_of :: "bool \<Rightarrow> string \<Rightarrow> string \<Rightarrow> string option list" where
  "row_of pr database_name line =
     Some database_name #
       (if pr then processRow_calls (parse_parts line) else parse_parts line)"

definition ingest_line :: "bool \<Rightarrow> string \<Rightarrow> ingest_state \<Rightarrow> string \<Rightarrow> ingest_state" where
  "ingest_line pr database_name st line =
     (if trim line = [] then st
      else
        (case uniqueId_of line of
           Some u \<Rightarrow>
             if u \<in> seenIds st
             then st\<lparr>skippedDuplicates := skippedDuplicates st + 1\<rparr>
             else st\<lparr>seenIds := insert u (seenIds st),
                     vals := vals st @ [row_of pr database_name line]\<rparr>
         | None \<Rightarrow> st\<lparr>vals := vals st @ [row_of pr database_name line]\<rparr>))"

definition ingest_lines :: "bool \<Rightarrow> string \<Rightarrow> ingest_state \<Rightarrow> string list \<Rightarrow> ingest_state" where
  "ingest_lines pr database_name st dataLines = foldl (ingest_line pr database_name) st dataLines"

text \<open>\<open>csvContent.trim().split("\n")\<close> and \<open>lines.slice(1)\<close>.\<close>

fun split_on :: "char \<Rightarrow> string \<Rightarrow> string \<Rightarrow> string list" where
  "split_on d [] cur = [cur]"
| "split_on d (c # cs) cur = (if c = d then cur # split_on d cs [] else split_on d cs (cur @ [c]))"

definition dataLines_of :: "string \<Rightarrow> string list" where
  "dataLines_of csvContent = drop 1 (split_on newline (trim csvContent) [])"

text \<open>The warning printed after the loop when duplicates were skipped.\<close>

definition duplicate_report :: "ingest_state \<Rightarrow> nat option" where
  "duplicate_report st = (if skippedDuplicates st > 0 then Some (skippedDuplicates st) else None)"

definition ingest_csv :: "bool \<Rightarrow> string \<Rightarrow> string \<Rightarrow> ingest_state" where
  "ingest_csv pr database_name csvContent =
     ingest_lines pr database_name ingest_init (dataLines_of csvContent)"

section \<open>The relational store (scripts/setup-database.sh)\<close>

text \<open>
  One record per table row, with the columns of the schema (\<open>created_at\<close> apart). \<open>id\<close> is
  the \<open>SERIAL PRIMARY KEY\<close>; a nullable column is an \<open>option\<close>; \<open>INTEGER\<close> columns are
  \<^typ>\<open>int\<close>.
\<close>

record function_row =
  fn_id :: nat
  fn_codeql_id :: string
  fn_database_name :: string
  fn_name :: string
  fn_file :: string
  fn_line :: int
  fn_num_params :: "int option"
  fn_signature :: "string option"

record class_row =
  cl_id :: nat
  cl_codeql_id :: string
  cl_database_name :: string
  cl_name :: string
  cl_file :: string
  cl_line :: int
  cl_parent_codeql_id :: "string option"
  cl_parent_id :: "nat option"

record call_row =
  fc_id :: nat
  fc_database_name :: string
  fc_caller_codeql_id :: string
  fc_callee_codeql_id :: string
  fc_caller_id :: "nat option"
  fc_callee_id :: "nat option"
  fc_callee_name :: "string option"
  fc_file :: string
  fc_line :: int

record method_row =
  cm_id :: nat
  cm_database_name :: string
  cm_class_codeql_id :: string
  cm_method_codeql_id :: string
  cm_method_name :: "string option"
  cm_class_id :: "nat option"
  cm_method_id :: "nat option"

record variable_row =
  var_id :: nat
  var_database_name :: string
  var_name :: string
  var_file :: string
  var_line :: int
  var_scope :: "string option"
  var_type :: "string option"

text \<open>The store: the five tables in insertion order, and the next value of each sequence
  that the build draws from.\<close>

record store =
  t_functions :: "function_row list"
  t_classes :: "class_row list"
  t_function_calls :: "call_row list"
  t_class_methods :: "method_row list"
  t_variables :: "variable_row list"
  functions_seq :: nat
  classes_seq :: nat
  function_calls_seq :: nat
  class_methods_seq :: nat

definition empty_store :: store where
  "empty_store = \<lparr>t_functions = [], t_classes = [], t_function_calls = [], t_class_methods = [],
     t_variables = [], functions_seq = 1, classes_seq = 1, function_calls_seq = 1,
     class_methods_seq = 1\<rparr>"

datatype error =
    DatabaseNotFound
  | UnsupportedLanguage
  | RequiredQueryNotFound
  | ParameterCountMismatch
  | InvalidInteger
  | NotNullViolation
  | UniqueViolation
  | SqlSyntaxError
  | NegativeLimit

subsection \<open>INSERT with positional parameters\<close>

text \<open>
  A text parameter bound to an \<open>INTEGER\<close> column: an optional sign and decimal digits, in
  the range of a 32-bit signed integer.
\<close>

definition is_digit :: "char \<Rightarrow> bool" where
  "is_digit c = (CHR ''0'' \<le> c \<and> c \<le> CHR ''9'')"

definition digit_val :: "char \<Rightarrow> int" where
  "digit_val c = int (of_char c) - 48"

definition digits_val :: "string \<Rightarrow> int" where
  "digits_val ds = foldl (\<lambda>acc c. 10 * acc + digit_val c) 0 ds"

definition parse_int4 :: "string \<Rightarrow> int option" where
  "parse_int4 s =
     (let (neg, ds) = (case s of
                         [] \<Rightarrow> (False, [])
                       | c # cs \<Rightarrow> if c = CHR ''-'' then (True, cs)
                                  else if c = CHR ''+'' then (False, cs) else (False, s));
          v = (if neg then - digits_val ds else digits_val ds)
      in if ds \<noteq> [] \<and> list_all is_digit ds \<and> - 2147483648 \<le> v \<and> v \<le> 2147483647
         then Some v else None)"

text \<open>One row of parameters, in the order of \<open>actualColumns\<close>, becomes a table row.
  The columns declared \<open>NOT NULL\<close> reject \<open>null\<close>.\<close>

definition int_param :: "string option \<Rightarrow> error + int option" where
  "int_param p =
     (case p of None \<Rightarrow> Inr None
      | Some t \<Rightarrow> (case parse_int4 t of None \<Rightarrow> Inl InvalidInteger | Some v \<Rightarrow> Inr (Some v)))"

definition mk_function :: "nat \<Rightarrow> string option list \<Rightarrow> error + function_row" where
  "mk_function i ps =
     (case ps of
        [db, cid, name, file, line, np, sg] \<Rightarrow>
          (case (int_param line, int_param np) of
             (Inl e, _) \<Rightarrow> Inl e
           | (_, Inl e) \<Rightarrow> Inl e
           | (Inr l, Inr n) \<Rightarrow>
               (case (db, cid, name, file, l) of
                  (Some db', Some cid', Some name', Some file', Some l') \<Rightarrow>
                    Inr \<lparr>fn_id = i, fn_codeql_id = cid', fn_database_name = db',
                         fn_name = name', fn_file = file', fn_line = l',
                         fn_num_params = n, fn_signature = sg\<rparr>
                | _ \<Rightarrow> Inl NotNullViolation))
      | _ \<Rightarrow> Inl ParameterCountMismatch)"

definition mk_call :: "nat \<Rightarrow> string option list \<Rightarrow> error + call_row" where
  "mk_call i ps =
     (case ps of
        [db, caller, callee, file, line, cname] \<Rightarrow>
          (case int_param line of
             Inl e \<Rightarrow> Inl e
           | Inr l \<Rightarrow>
               (case (db, caller, callee, file, l) of
                  (Some db', Some caller', Some callee', Some file', Some l') \<Rightarrow>
                    Inr \<lparr>fc_id = i, fc_database_name = db', fc_caller_codeql_id = caller',
                         fc_callee_codeql_id = callee', fc_caller_id = None,
                         fc_callee_id = None, fc_callee_name = cname, fc_file = file',
                         fc_line = l'\<rparr>
                | _ \<Rightarrow> Inl NotNullViolation))
      | _ \<Rightarrow> Inl ParameterCountMismatch)"

definition mk_class :: "nat \<Rightarrow> string option list \<Rightarrow> error + class_row" where
  "mk_class i ps =
     (case ps of
        [db, cid, name, file, line, parent] \<Rightarrow>
          (case int_param line of
             Inl e \<Rightarrow> Inl e
           | Inr l \<Rightarrow>
               (case (db, cid, name, file, l) of
                  (Some db', Some cid', Some name', Some file', Some l') \<Rightarrow>
                    Inr \<lparr>cl_id = i, cl_codeql_id = cid', cl_database_name = db',
                         cl_name = name', cl_file = file', cl_line = l',
                         cl_parent_codeql_id = parent, cl_parent_id = None\<rparr>
                | _ \<Rightarrow> Inl NotNullViolation))
      | _ \<Rightarrow> Inl ParameterCountMismatch)"

definition mk_method :: "nat \<Rightarrow> string option list \<Rightarrow> error + method_row" where
  "mk_method i ps =
     (case ps of
        [db, cls, meth, mname] \<Rightarrow>
          (case (db, cls, meth) of
             (Some db', Some cls', Some meth') \<Rightarrow>
               Inr \<lparr>cm_id = i, cm_database_name = db', cm_class_codeql_id = cls',
                    cm_method_codeql_id = meth', cm_method_name = mname,
                    cm_class_id = None, cm_method_id = None\<rparr>
           | _ \<Rightarrow> Inl NotNullViolation)
      | _ \<Rightarrow> Inl ParameterCountMismatch)"

text \<open>
  One placeholder row is added to its table. \<open>codeql_id\<close> is declared \<open>UNIQUE\<close> on
  \<open>functions\<close> and on \<open>classes\<close>, over the whole table.
\<close>

definition insert_row :: "table \<Rightarrow> string option list \<Rightarrow> store \<Rightarrow> error + store" where
  "insert_row t ps s =
     (case t of
        Functions \<Rightarrow>
          (case mk_function (functions_seq s) ps of
             Inl e \<Rightarrow> Inl e
           | Inr r \<Rightarrow>
               if fn_codeql_id r \<in> set (map fn_codeql_id (t_functions s)) then Inl UniqueViolation
               else Inr (s\<lparr>t_functions := t_functions s @ [r], functions_seq := functions_seq s + 1\<rparr>))
      | Classes \<Rightarrow>
          (case mk_class (classes_seq s) ps of
             Inl e \<Rightarrow> Inl e
           | Inr r \<Rightarrow>
               if cl_codeql_id r \<in> set (map cl_codeql_id (t_classes s)) then Inl UniqueViolation
               else Inr (s\<lparr>t_classes := t_classes s @ [r], classes_seq := classes_seq s + 1\<rparr>))
      | Function_calls \<Rightarrow>
          (case mk_call (function_calls_seq s) ps of
             Inl e \<Rightarrow> Inl e
           | Inr r \<Rightarrow>
               Inr (s\<lparr>t_function_calls := t_function_calls s @ [r],
                      function_calls_seq := function_calls_seq s + 1\<rparr>))
      | Class_methods \<Rightarrow>
          (case mk_method (class_methods_seq s) ps of
             Inl e \<Rightarrow> Inl e
           | Inr r \<Rightarrow>
               Inr (s\<lparr>t_class_methods := t_class_methods s @ [r],
                      class_methods_seq := class_methods_seq s + 1\<rparr>)))"

fun insert_rows :: "table \<Rightarrow> string option list list \<Rightarrow> store \<Rightarrow> error + store" where
  "insert_rows t [] s = Inr s"
| "insert_rows t (ps # pss) s =
     (case insert_row t ps s of Inl e \<Rightarrow> Inl e | Inr s' \<Rightarrow> insert_rows t pss s')"

text \<open>
  The statement has \<open>n * ncols\<close> placeholders, numbered row by row, and receives the
  flattened batch: the parameter count must agree, and the parameters are read back
  \<open>ncols\<close> at a time, whatever rows they came from.
\<close>

fun chunks :: "nat \<Rightarrow> 'a list \<Rightarrow> nat \<Rightarrow> 'a list list" where
  "chunks ncols flat 0 = []"
| "chunks ncols flat (Suc n) = take ncols flat # chunks ncols (drop ncols flat) n"

text \<open>
  The parameters are bound before the statement runs: every text bound to an \<open>INTEGER\<close>
  column (\<open>line\<close>, and \<open>num_params\<close> of \<open>functions\<close>) is converted then, for all the rows
  of the statement.
\<close>

definition integer_parameters :: "table \<Rightarrow> string option list \<Rightarrow> string option list" where
  "integer_parameters t ps =
     (case t of
        Functions \<Rightarrow> [part_at ps 4, part_at ps 5]
      | Function_calls \<Rightarrow> [part_at ps 4]
      | Classes \<Rightarrow> [part_at ps 4]
      | Class_methods \<Rightarrow> [])"

definition binds :: "table \<Rightarrow> string option list \<Rightarrow> bool" where
  "binds t ps = list_all (\<lambda>p. \<not> isl (int_param p)) (integer_parameters t ps)"

definition insert_statement :: "table \<Rightarrow> nat \<Rightarrow> string option list list \<Rightarrow> store \<Rightarrow> error + store" where
  "insert_statement t ncols batch s =
     (let flatValues = concat batch;
          expectedParams = length batch * ncols;
          rows = chunks ncols flatValues (length batch)
      in if length flatValues \<noteq> expectedParams then Inl ParameterCountMismatch
         else if \<not> list_all (binds t) rows then Inl InvalidInteger
         else insert_rows t rows s)"

text \<open>
  A statement that fails stores none of its rows, but the values that it drew from the
  \<open>SERIAL\<close> sequence are not given back. A statement that fails when it is bound has
  drawn nothing; one that fails while it runs has drawn one value for each row that it
  reached, the rejected row included, since the id of a row is computed before its
  constraints are checked.
\<close>

fun rows_reached :: "table \<Rightarrow> string option list list \<Rightarrow> store \<Rightarrow> nat" where
  "rows_reached t [] s = 0"
| "rows_reached t (ps # pss) s =
     (case insert_row t ps s of Inl e \<Rightarrow> 1 | Inr s' \<Rightarrow> Suc (rows_reached t pss s'))"

definition draw :: "table \<Rightarrow> nat \<Rightarrow> store \<Rightarrow> store" where
  "draw t n s =
     (case t of
        Functions \<Rightarrow> s\<lparr>functions_seq := functions_seq s + n\<rparr>
      | Classes \<Rightarrow> s\<lparr>classes_seq := classes_seq s + n\<rparr>
      | Function_calls \<Rightarrow> s\<lparr>function_calls_seq := function_calls_seq s + n\<rparr>
      | Class_methods \<Rightarrow> s\<lparr>class_methods_seq := class_methods_seq s + n\<rparr>)"

definition rejected_statement :: "table \<Rightarrow> nat \<Rightarrow> string option list list \<Rightarrow> store \<Rightarrow> store" where
  "rejected_statement t ncols batch s =
     (let flatValues = concat batch;
          expectedParams = length batch * ncols;
          rows = chunks ncols flatValues (length batch)
      in if length flatValues \<noteq> expectedParams \<or> \<not> list_all (binds t) rows then s
         else draw t (rows_reached t rows s) s)"

text \<open>
  The batch loop: \<open>for (let i = 0; i < values.length; i += batchSize)\<close>. Each statement
  is committed on its own, so a failing batch leaves the earlier batches in the store.
  A batch size of zero would send a statement without any placeholder row, which the
  store rejects.
\<close>

definition maxParams :: nat where
  "maxParams = 8000"

definition batchSize :: "extraction \<Rightarrow> nat" where
  "batchSize e = maxParams div length (actualColumns e)"

function insert_batches ::
  "table \<Rightarrow> nat \<Rightarrow> nat \<Rightarrow> string option list list \<Rightarrow> store \<Rightarrow> error option \<times> store" where
  "insert_batches t ncols bs values s =
     (if values = [] then (None, s)
      else if bs = 0 then (Some SqlSyntaxError, s)
      else (case insert_statement t ncols (take bs values) s of
              Inl e \<Rightarrow> (Some e, rejected_statement t ncols (take bs values) s)
            | Inr s' \<Rightarrow> insert_batches t ncols bs (drop bs values) s'))"
  by pat_completeness auto
termination
  by (relation "measure (\<lambda>(t, ncols, bs, values, s). length values)") auto

declare insert_batches.simps [simp del]

section \<open>clearDatabase and updateForeignKeys (src/postgres.ts)\<close>

text \<open>
  A nullable foreign key points into a list of deleted ids. The schema declares
  \<open>ON DELETE CASCADE\<close> for \<open>function_calls.caller_id\<close>, \<open>function_calls.callee_id\<close>,
  \<open>class_methods.class_id\<close> and \<open>class_methods.method_id\<close>, and \<open>ON DELETE SET NULL\<close> for
  \<open>classes.parent_id\<close>.
\<close>

definition refers_to :: "nat option \<Rightarrow> nat list \<Rightarrow> bool" where
  "refers_to fk ids = (case fk of None \<Rightarrow> False | Some i \<Rightarrow> i \<in> set ids)"

definition delete_class_methods :: "string \<Rightarrow> store \<Rightarrow> store" where
  "delete_class_methods db s =
     s\<lparr>t_class_methods := filter (\<lambda>m. cm_database_name m \<noteq> db) (t_class_methods s)\<rparr>"

definition delete_function_calls :: "string \<Rightarrow> store \<Rightarrow> store" where
  "delete_function_calls db s =
     s\<lparr>t_function_calls := filter (\<lambda>c. fc_database_name c \<noteq> db) (t_function_calls s)\<rparr>"

definition delete_variables :: "string \<Rightarrow> store \<Rightarrow> store" where
  "delete_variables db s =
     s\<lparr>t_variables := filter (\<lambda>v. var_database_name v \<noteq> db) (t_variables s)\<rparr>"

definition delete_classes :: "string \<Rightarrow> store \<Rightarrow> store" where
  "delete_classes db s =
     (let dead = map cl_id (filter (\<lambda>c. cl_database_name c = db) (t_classes s))
      in s\<lparr>t_classes :=
              map (\<lambda>c. if refers_to (cl_parent_id c) dead then c\<lparr>cl_parent_id := None\<rparr> else c)
                (filter (\<lambda>c. cl_database_name c \<noteq> db) (t_classes s)),
            t_class_methods :=
              filter (\<lambda>m. \<not> refers_to (cm_class_id m) dead) (t_class_methods s)\<rparr>)"

definition delete_functions :: "string \<Rightarrow> store \<Rightarrow> store" where
  "delete_functions db s =
     (let dead = map fn_id (filter (\<lambda>f. fn_database_name f = db) (t_functions s))
      in s\<lparr>t_functions := filter (\<lambda>f. fn_database_name f \<noteq> db) (t_functions s),
            t_function_calls :=
              filter (\<lambda>c. \<not> refers_to (fc_caller_id c) dead \<and> \<not> refers_to (fc_callee_id c) dead)
                (t_function_calls s),
            t_class_methods :=
              filter (\<lambda>m. \<not> refers_to (cm_method_id m) dead) (t_class_methods s)\<rparr>)"

definition clearDatabase :: "string \<Rightarrow> store \<Rightarrow> store" where
  "clearDatabase databaseName s =
     delete_functions databaseName
       (delete_classes databaseName
         (delete_variables databaseName
           (delete_function_calls databaseName
             (delete_class_methods databaseName s))))"

text \<open>
  \<open>UPDATE \<dots> SET x_id = f.id FROM functions f WHERE x_codeql_id = f.codeql_id\<close>: the row
  joined to a natural key. The joined table is not restricted to the corpus; only the
  updated table is.
\<close>

definition function_id_of :: "function_row list \<Rightarrow> string \<Rightarrow> nat option" where
  "function_id_of fs k = map_option fn_id (find (\<lambda>f. fn_codeql_id f = k) fs)"

definition class_id_of :: "class_row list \<Rightarrow> string \<Rightarrow> nat option" where
  "class_id_of cs k = map_option cl_id (find (\<lambda>c. cl_codeql_id c = k) cs)"

definition resolve_caller :: "string \<Rightarrow> function_row list \<Rightarrow> call_row \<Rightarrow> call_row" where
  "resolve_caller db fs c =
     (if fc_database_name c = db \<and> fc_caller_id c = None
      then (case function_id_of fs (fc_caller_codeql_id c) of
              None \<Rightarrow> c | Some i \<Rightarrow> c\<lparr>fc_caller_id := Some i\<rparr>)
      else c)"

definition resolve_callee :: "string \<Rightarrow> function_row list \<Rightarrow> call_row \<Rightarrow> call_row" where
  "resolve_callee db fs c =
     (if fc_database_name c = db \<and> fc_callee_id c = None
      then (case function_id_of fs (fc_callee_codeql_id c) of
              None \<Rightarrow> c | Some i \<Rightarrow> c\<lparr>fc_callee_id := Some i\<rparr>)
      else c)"

definition resolve_parent :: "string \<Rightarrow> class_row list \<Rightarrow> class_row \<Rightarrow> class_row" where
  "resolve_parent db cs c =
     (if cl_database_name c = db \<and> cl_parent_id c = None
      then (case cl_parent_codeql_id c of
              None \<Rightarrow> c
            | Some k \<Rightarrow> (case class_id_of cs k of
                           None \<Rightarrow> c | Some i \<Rightarrow> c\<lparr>cl_parent_id := Some i\<rparr>))
      else c)"

definition resolve_method_class :: "string \<Rightarrow> class_row list \<Rightarrow> method_row \<Rightarrow> method_row" where
  "resolve_method_class db cs m =
     (if cm_database_name m = db \<and> cm_class_id m = None
      then (case class_id_of cs (cm_class_codeql_id m) of
              None \<Rightarrow> m | Some i \<Rightarrow> m\<lparr>cm_class_id := Some i\<rparr>)
      else m)"

definition resolve_method_function :: "string \<Rightarrow> function_row list \<Rightarrow> method_row \<Rightarrow> method_row" where
  "resolve_method_function db fs m =
     (if cm_database_name m = db \<and> cm_method_id m = None
      then (case function_id_of fs (cm_method_codeql_id m) of
              None \<Rightarrow> m | Some i \<Rightarrow> m\<lparr>cm_method_id := Some i\<rparr>)
      else m)"

text \<open>\<open>UNIQUE(class_id, method_id)\<close> on \<open>class_methods\<close>; a pair with a \<open>NULL\<close> never
  conflicts.\<close>

definition cm_unique_ok :: "method_row list \<Rightarrow> bool" where
  "cm_unique_ok ms =
     distinct (map (\<lambda>m. (cm_class_id m, cm_method_id m))
                 (filter (\<lambda>m. cm_class_id m \<noteq> None \<and> cm_method_id m \<noteq> None) ms))"

text \<open>
  The five statements of \<open>updateForeignKeys\<close>, each committed on its own; a statement
  that would break the uniqueness constraint is rolled back and its error ends the pass.
\<close>

definition update_caller_ids :: "string \<Rightarrow> store \<Rightarrow> store" where
  "update_caller_ids db s =
     s\<lparr>t_function_calls := map (resolve_caller db (t_functions s)) (t_function_calls s)\<rparr>"

definition update_callee_ids :: "string \<Rightarrow> store \<Rightarrow> store" where
  "update_callee_ids db s =
     s\<lparr>t_function_calls := map (resolve_callee db (t_functions s)) (t_function_calls s)\<rparr>"

definition update_parent_ids :: "string \<Rightarrow> store \<Rightarrow> store" where
  "update_parent_ids db s =
     s\<lparr>t_classes := map (resolve_parent db (t_classes s)) (t_classes s)\<rparr>"

definition update_method_class_ids :: "string \<Rightarrow> store \<Rightarrow> error + store" where
  "update_method_class_ids db s =
     (let ms = map (resolve_method_class db (t_classes s)) (t_class_methods s)
      in if cm_unique_ok ms then Inr (s\<lparr>t_class_methods := ms\<rparr>) else Inl UniqueViolation)"

definition update_method_function_ids :: "string \<Rightarrow> store \<Rightarrow> error + store" where
  "update_method_function_ids db s =
     (let ms = map (resolve_method_function db (t_functions s)) (t_class_methods s)
      in if cm_unique_ok ms then Inr (s\<lparr>t_class_methods := ms\<rparr>) else Inl UniqueViolation)"

definition updateForeignKeys :: "string \<Rightarrow> store \<Rightarrow> error option \<times> store" where
  "updateForeignKeys databaseName s =
     (let s3 = update_parent_ids databaseName
                 (update_callee_ids databaseName (update_caller_ids databaseName s))
      in case update_method_class_ids databaseName s3 of
           Inl e \<Rightarrow> (Some e, s3)
         | Inr s4 \<Rightarrow>
             (case update_method_function_ids databaseName s4 of
                Inl e \<Rightarrow> (Some e, s4)
              | Inr s5 \<Rightarrow> (None, s5)))"

section \<open>handleBuildGraphIndex (src/index.ts)\<close>

text \<open>
  The surroundings of a build: the registered databases with their language, and for a
  query directory and a query file the decoded CSV that the analysis tool returns, or
  \<open>None\<close> when the query file does not exist.
\<close>

record build_env =
  databases :: "string \<Rightarrow> string option"
  query_output :: "string \<Rightarrow> string \<Rightarrow> string option"

definition languageDir_of :: "string \<Rightarrow> string option" where
  "languageDir_of language =
     (if language = ''javascript'' \<or> language = ''typescript'' then Some ''javascript''
      else if language = ''python'' then Some ''python''
      else if language = ''java'' then Some ''java''
      else if language = ''cpp'' \<or> language = ''c'' then Some ''cpp''
      else if language = ''go'' then Some ''go''
      else if language = ''csharp'' then Some ''csharp''
      else if language = ''ruby'' then Some ''ruby''
      else None)"

type_synonym stats = "table \<Rightarrow> nat option"

fun run_extractions ::
  "(string \<Rightarrow> string option) \<Rightarrow> string \<Rightarrow> extraction list \<Rightarrow> stats \<Rightarrow> store \<Rightarrow>
     error option \<times> stats \<times> store" where
  "run_extractions out database_name [] stats s = (None, stats, s)"
| "run_extractions out database_name (e # es) stats s =
     (case out (query e) of
        None \<Rightarrow>
          if required e then (Some RequiredQueryNotFound, stats, s)
          else run_extractions out database_name es (stats(target e := Some 0)) s
      | Some csvContent \<Rightarrow>
          (let values = vals (ingest_csv (has_processRow e) database_name csvContent)
           in case insert_batches (target e) (length (actualColumns e)) (batchSize e) values s of
                (Some err, s') \<Rightarrow> (Some err, stats, s')
              | (None, s') \<Rightarrow>
                  run_extractions out database_name es
                    (stats(target e := Some (length values))) s'))"

definition handleBuildGraphIndex :: "build_env \<Rightarrow> string \<Rightarrow> store \<Rightarrow> (error + stats) \<times> store" where
  "handleBuildGraphIndex env database_name s =
     (case databases env database_name of
        None \<Rightarrow> (Inl DatabaseNotFound, s)
      | Some language \<Rightarrow>
          (let s1 = clearDatabase database_name s
           in case languageDir_of language of
                None \<Rightarrow> (Inl UnsupportedLanguage, s1)
              | Some languageDir \<Rightarrow>
                  (case run_extractions (query_output env languageDir) database_name
                          extractions (\<lambda>t. None) s1 of
                     (Some e, stats, s2) \<Rightarrow> (Inl e, s2)
                   | (None, stats, s2) \<Rightarrow>
                       (case updateForeignKeys database_name s2 of
                          (Some e, s3) \<Rightarrow> (Inl e, s3)
                        | (None, s3) \<Rightarrow> (Inr stats, s3)))))"

section \<open>The query engine (src/index.ts)\<close>

subsection \<open>Numeric arguments\<close>

text \<open>
  A numeric argument of a tool (\<open>type: "number"\<close> in its schema; when it is omitted the
  handler takes its default) is a JavaScript number, here a rational. The driver sends
  it as its decimal text, and the store converts the text to the integer type that the
  query gives the parameter: a number with a fraction, and an integer outside the range
  of that type, are rejected with an error. The parameter compared with \<open>cc.depth\<close> is a
  32-bit integer, the parameter of \<open>LIMIT\<close> a 64-bit integer. The 32-bit integers are
  sent digit for digit. The driver's text of the number \<open>-9223372036854775808\<close>, the least
  64-bit integer, is \<open>-9223372036854776000\<close>, which is below the 64-bit range: that
  number is rejected as well.
\<close>

definition is_int4 :: "rat \<Rightarrow> bool" where
  "is_int4 x = (of_int \<lfloor>x\<rfloor> = x \<and> - 2147483648 \<le> \<lfloor>x\<rfloor> \<and> \<lfloor>x\<rfloor> \<le> 2147483647)"


subsection \<open>handleFindFunctionFast\<close>



subsection \<open>handleFindCallers\<close>

record caller_hit =
  caller_name :: string
  caller_file :: string
  call_line :: int
  call_resolved :: bool

text \<open>
  The join of one call edge: the inner join with its caller, the left join with its
  callee (a single row without callee when none matches), and the \<open>WHERE\<close> clause.
\<close>

definition callers_join ::
  "store \<Rightarrow> string \<Rightarrow> string \<Rightarrow> call_row \<Rightarrow> caller_hit list" where
  "callers_join s function_name database_name fc =
     concat (map (\<lambda>caller.
       map (\<lambda>callee. \<lparr>caller_name = fn_name caller, caller_file = fn_file caller,
                       call_line = fc_line fc, call_resolved = (fc_callee_id fc \<noteq> None)\<rparr>)
         (filter (\<lambda>callee.
              ((case callee of None \<Rightarrow> False | Some g \<Rightarrow> fn_name g = function_name)
                 \<or> fc_callee_name fc = Some function_name)
              \<and> fc_database_name fc = database_name)
            (case filter (\<lambda>g. Some (fn_id g) = fc_callee_id fc) (t_functions s) of
               [] \<Rightarrow> [None]
             | gs \<Rightarrow> map Some gs)))
       (filter (\<lambda>f. Some (fn_id f) = fc_caller_id fc) (t_functions s)))"

definition handleFindCallers :: "string \<Rightarrow> string \<Rightarrow> store \<Rightarrow> caller_hit list" where
  "handleFindCallers database_name function_name s =
     take 200
       (sort_key (\<lambda>h. (caller_file h, call_line h))
          (concat (map (callers_join s function_name database_name) (t_function_calls s))))"

subsection \<open>handleFindCallChain\<close>

record chain_row =
  cc_id :: nat
  cc_name :: string
  cc_file :: string
  cc_path :: "string list"
  cc_depth :: nat

text \<open>The non-recursive term of \<open>call_chain\<close>.\<close>

definition chain_base :: "store \<Rightarrow> string \<Rightarrow> string \<Rightarrow> chain_row list" where
  "chain_base s database_name from_function =
     map (\<lambda>f. \<lparr>cc_id = fn_id f, cc_name = fn_name f, cc_file = fn_file f,
                cc_path = [fn_name f], cc_depth = 0\<rparr>)
       (filter (\<lambda>f. fn_name f = from_function \<and> fn_database_name f = database_name)
          (t_functions s))"

text \<open>
  The recursive term, applied to one row of the working table: the join with the call
  edges of that function, the join with the callee by resolved id or by name (a row
  without callee fails the \<open>WHERE\<close> clause), the depth bound and the test that the
  callee's name is not on the path yet.
\<close>

definition chain_extend :: "store \<Rightarrow> string \<Rightarrow> int \<Rightarrow> chain_row \<Rightarrow> chain_row list" where
  "chain_extend s database_name max_depth cc =
     concat (map (\<lambda>fc.
       map (\<lambda>callee. \<lparr>cc_id = fn_id callee, cc_name = fn_name callee,
                       cc_file = fn_file callee, cc_path = cc_path cc @ [fn_name callee],
                       cc_depth = cc_depth cc + 1\<rparr>)
         (filter (\<lambda>callee.
              (Some (fn_id callee) = fc_callee_id fc \<or> Some (fn_name callee) = fc_callee_name fc)
              \<and> fn_database_name callee = database_name
              \<and> int (cc_depth cc) < max_depth
              \<and> fn_name callee \<notin> set (cc_path cc))
            (t_functions s)))
       (filter (\<lambda>fc. fc_caller_id fc = Some (cc_id cc)) (t_function_calls s)))"

definition chain_step :: "store \<Rightarrow> string \<Rightarrow> int \<Rightarrow> chain_row list \<Rightarrow> chain_row list" where
  "chain_step s database_name max_depth working =
     concat (map (chain_extend s database_name max_depth) working)"

text \<open>
  \<open>WITH RECURSIVE \<dots> UNION ALL\<close>: the working table is added to the result and replaced
  by the recursive term applied to it, until it is empty.
\<close>

definition depth_room :: "int \<Rightarrow> chain_row list \<Rightarrow> nat" where
  "depth_room max_depth working =
     (if working = [] then 0
      else Suc (Max (set (map (\<lambda>r. nat (max_depth - int (cc_depth r))) working))))"

function call_chain :: "store \<Rightarrow> string \<Rightarrow> int \<Rightarrow> chain_row list \<Rightarrow> chain_row list" where
  "call_chain s database_name max_depth working =
     (if working = [] then []
      else working @ call_chain s database_name max_depth
                       (chain_step s database_name max_depth working))"
  by pat_completeness auto
termination
proof (relation "measure (\<lambda>(s, database_name, max_depth, working). depth_room max_depth working)")
  show "wf (measure (\<lambda>(s, database_name, max_depth, working). depth_room max_depth working))"
    by simp
next
  fix s :: store and database_name :: string and max_depth :: int and working :: "chain_row list"
  assume ne: "working \<noteq> []"
  let ?room = "\<lambda>r. nat (max_depth - int (cc_depth r))"
  let ?next = "chain_step s database_name max_depth working"
  have "depth_room max_depth ?next < depth_room max_depth working"
  proof (cases "?next = []")
    case True
    then show ?thesis using ne by (simp add: depth_room_def)
  next
    case False
    have "Max (set (map ?room ?next)) < Max (set (map ?room working))"
    proof -
      have "Max (set (map ?room ?next)) \<in> set (map ?room ?next)"
        using False by (intro Max_in) auto
      then obtain r' where r': "r' \<in> set ?next" and m: "Max (set (map ?room ?next)) = ?room r'"
        by auto
      from r' obtain r where r: "r \<in> set working"
        and lt: "int (cc_depth r) < max_depth" and d: "cc_depth r' = cc_depth r + 1"
        by (auto simp: chain_step_def chain_extend_def)
      have "?room r' < ?room r" using lt d by simp
      also have "?room r \<le> Max (set (map ?room working))"
        using r by (intro Max_ge) auto
      finally show ?thesis using m by simp
    qed
    then show ?thesis using ne False by (simp add: depth_room_def)
  qed
  then show "((s, database_name, max_depth, ?next), (s, database_name, max_depth, working))
      \<in> measure (\<lambda>(s, database_name, max_depth, working). depth_room max_depth working)"
    by simp
qed

declare call_chain.simps [simp del]

text \<open>The query, with its fourth parameter bound to an integer:
  \<open>SELECT path, depth, file \<dots> WHERE name = $2 ORDER BY depth LIMIT 1\<close>.\<close>

definition call_chain_query ::
  "string \<Rightarrow> string \<Rightarrow> string \<Rightarrow> int \<Rightarrow> store \<Rightarrow> (string list \<times> nat) option" where
  "call_chain_query database_name from_function to_function max_depth s =
     (case sort_key cc_depth
             (filter (\<lambda>r. cc_name r = to_function)
                (call_chain s database_name max_depth
                   (chain_base s database_name from_function))) of
        [] \<Rightarrow> None
      | row # _ \<Rightarrow> Some (cc_path row, cc_depth row))"

text \<open>
  \<open>handleFindCallChain\<close>: the store rejects a \<open>max_depth\<close> that is not a 32-bit integer,
  and the error is thrown to the caller; otherwise the answer is the first row of the
  query (\<open>Some\<close>) or that no call chain was found (\<open>None\<close>).
\<close>

definition handleFindCallChain ::
  "string \<Rightarrow> string \<Rightarrow> string \<Rightarrow> rat \<Rightarrow> store \<Rightarrow> error + (string list \<times> nat) option" where
  "handleFindCallChain database_name from_function to_function max_depth s =
     (if \<not> is_int4 max_depth then Inl InvalidInteger
      else Inr (call_chain_query database_name from_function to_function \<lfloor>max_depth\<rfloor> s))"

subsection \<open>handleQueryGraphStats\<close>

record hot_spot =
  hs_name :: string
  hs_file :: string
  call_count :: nat
  unique_callers :: nat

text \<open>
  One group per function of the corpus (\<open>id\<close> is the primary key): the call edges joined
  by \<open>fc.callee_id = f.id\<close>, their count and the count of their distinct non-null
  callers.
\<close>

definition hot_spot_of :: "store \<Rightarrow> function_row \<Rightarrow> hot_spot" where
  "hot_spot_of s f =
     (let edges = filter (\<lambda>fc. fc_callee_id fc = Some (fn_id f)) (t_function_calls s)
      in \<lparr>hs_name = fn_name f, hs_file = fn_file f, call_count = length edges,
          unique_callers =
            length (remdups (filter (\<lambda>c. c \<noteq> None) (map fc_caller_id edges)))\<rparr>)"

definition hot_spots :: "string \<Rightarrow> store \<Rightarrow> hot_spot list" where
  "hot_spots database_name s =
     take 10
       (rev (sort_key call_count
          (filter (\<lambda>h. call_count h > 1)
             (map (hot_spot_of s)
                (filter (\<lambda>f. fn_database_name f = database_name) (t_functions s))))))"

record database_stats =
  n_functions :: nat
  n_classes :: nat
  n_calls :: nat
  n_methods :: nat
  n_variables :: nat

definition getDatabaseStats :: "string \<Rightarrow> store \<Rightarrow> database_stats" where
  "getDatabaseStats databaseName s =
     \<lparr>n_functions = length (filter (\<lambda>r. fn_database_name r = databaseName) (t_functions s)),
      n_classes = length (filter (\<lambda>r. cl_database_name r = databaseName) (t_classes s)),
      n_calls = length (filter (\<lambda>r. fc_database_name r = databaseName) (t_function_calls s)),
      n_methods = length (filter (\<lambda>r. cm_database_name r = databaseName) (t_class_methods s)),
      n_variables = length (filter (\<lambda>r. var_database_name r = databaseName) (t_variables s))\<rparr>"

definition handleQueryGraphStats :: "string \<Rightarrow> store \<Rightarrow> database_stats \<times> hot_spot list" where
  "handleQueryGraphStats database_name s =
     (getDatabaseStats database_name s, hot_spots database_name s)"

text \<open>The first three statements of \<open>updateForeignKeys\<close>, which no constraint can reject.\<close>

definition update_first_three :: "string \<Rightarrow> store \<Rightarrow> store" where
  "update_first_three db s = update_parent_ids db (update_callee_ids db (update_caller_ids db s))"

section \<open>Example corpora\<close>

text \<open>The corpus \<open>sample\<close> with the functions A, B and C, as decoded rows and as stored rows.\<close>

definition sample_functions_csv :: string where
  "sample_functions_csv =
     ''codeql_id,name,file,line,num_params,signature'' @ [newline] @
     ''A@f.js:1,A,f.js,1,0,function A'' @ [newline] @
     ''B@f.js:5,B,f.js,5,1,function B'' @ [newline] @
     ''C@f.js:9,C,f.js,9,2,function C'' @ [newline]"

definition functions_only_env :: build_env where
  "functions_only_env =
     \<lparr>databases = (\<lambda>n. if n = ''sample'' then Some ''javascript'' else None),
      query_output = (\<lambda>dir q.
        if dir = ''javascript'' \<and> q = ''extract-functions.ql'' then Some sample_functions_csv
        else None)\<rparr>"

definition functions_only_store :: store where
  "functions_only_store = empty_store\<lparr>t_functions :=
        [\<lparr>fn_id = 1, fn_codeql_id = ''A@f.js:1'', fn_database_name = ''sample'', fn_name = ''A'',
          fn_file = ''f.js'', fn_line = 1, fn_num_params = Some 0, fn_signature = Some ''function A''\<rparr>,
         \<lparr>fn_id = 2, fn_codeql_id = ''B@f.js:5'', fn_database_name = ''sample'', fn_name = ''B'',
          fn_file = ''f.js'', fn_line = 5, fn_num_params = Some 1, fn_signature = Some ''function B''\<rparr>,
         \<lparr>fn_id = 3, fn_codeql_id = ''C@f.js:9'', fn_database_name = ''sample'', fn_name = ''C'',
          fn_file = ''f.js'', fn_line = 9, fn_num_params = Some 2, fn_signature = Some ''function C''\<rparr>],
        functions_seq := 4\<rparr>"

definition no_queries_env :: build_env where
  "no_queries_env =
     \<lparr>databases = (\<lambda>n. if n = ''sample'' then Some ''javascript'' else None),
      query_output = (\<lambda>dir q. None)\<rparr>"

section \<open>importCSVFallback (src/postgres.ts)\<close>

text \<open>
  The fallback importer, which the build does not call. The header line is skipped when
  it contains a comma and does not start with a digit; a line is split at every comma;
  a value is trimmed, loses one pair of enclosing double quotes (the pattern's dot
  matches no line terminator) and becomes \<open>null\<close> when it is empty or the word null.
  Only a line with as many values as columns is sent to the store.
\<close>

definition strip_quotes :: "string \<Rightarrow> string" where
  "strip_quotes v =
     (if 2 \<le> length v \<and> hd v = dquote \<and> last v = dquote
         \<and> list_all (\<lambda>c. c \<noteq> newline \<and> c \<noteq> CHR 0x0D) (butlast (tl v))
      then butlast (tl v) else v)"

definition fallback_value :: "string \<Rightarrow> string option" where
  "fallback_value v =
     (let v' = strip_quotes (trim v) in if v' = [] \<or> v' = ''null'' then None else Some v')"

definition fallback_dataLines :: "string \<Rightarrow> string list" where
  "fallback_dataLines csvContent =
     (let lines = split_on newline (trim csvContent) []
      in case lines of
           [] \<Rightarrow> []
         | first # rest \<Rightarrow>
             if CHR '','' \<in> set first \<and> \<not> (case first of [] \<Rightarrow> False | c # _ \<Rightarrow> is_digit c)
             then rest else lines)"

definition importCSVFallback_rows :: "string list \<Rightarrow> string \<Rightarrow> string option list list" where
  "importCSVFallback_rows cols csvContent =
     filter (\<lambda>values. length values = length cols)
       (map (\<lambda>line. map fallback_value (split_on (CHR '','') line []))
          (filter (\<lambda>line. trim line \<noteq> []) (fallback_dataLines csvContent)))"

text \<open>A functions file whose second data line has four fields instead of six.\<close>

definition malformed_functions_csv :: string where
  "malformed_functions_csv =
     ''codeql_id,name,file,line,num_params,signature'' @ [newline] @
     ''A@f.js:1,A,f.js,1,0,function A'' @ [newline] @
     ''B@f.js:5,B,f.js,5'' @ [newline]"

definition malformed_env :: build_env where
  "malformed_env =
     \<lparr>databases = (\<lambda>n. if n = ''sample'' then Some ''javascript'' else None),
      query_output = (\<lambda>dir q.
        if dir = ''javascript'' \<and> q = ''extract-functions.ql'' then Some malformed_functions_csv
        else None)\<rparr>"

text \<open>The declared uniqueness of \<open>codeql_id\<close> in \<open>functions\<close> and in \<open>classes\<close>, as a
  property of a store.\<close>

definition keys_unique :: "store \<Rightarrow> bool" where
  "keys_unique s =
     (distinct (map fn_codeql_id (t_functions s)) \<and> distinct (map cl_codeql_id (t_classes s)))"

text \<open>A second corpus, \<open>other\<close>, whose functions file has a row with the natural key that
  the function A of the corpus \<open>sample\<close> has.\<close>

definition other_functions_csv :: string where
  "other_functions_csv =
     ''codeql_id,name,file,line,num_params,signature'' @ [newline] @
     ''A@f.js:1,A,f.js,1,0,function A'' @ [newline]"

definition other_env :: build_env where
  "other_env =
     \<lparr>databases = (\<lambda>n. if n = ''other'' then Some ''javascript'' else None),
      query_output = (\<lambda>dir q.
        if dir = ''javascript'' \<and> q = ''extract-functions.ql'' then Some other_functions_csv
        else None)\<rparr>"

section \<open>Rows of other corpora\<close>

text \<open>
  The ids that \<open>clearDatabase\<close> deletes from \<open>functions\<close> and \<open>classes\<close>, and the
  condition that no row of another corpus holds a resolved id among them.
\<close>

definition dead_function_ids :: "string \<Rightarrow> store \<Rightarrow> nat list" where
  "dead_function_ids db s = map fn_id (filter (\<lambda>f. fn_database_name f = db) (t_functions s))"

definition dead_class_ids :: "string \<Rightarrow> store \<Rightarrow> nat list" where
  "dead_class_ids db s = map cl_id (filter (\<lambda>c. cl_database_name c = db) (t_classes s))"

definition no_references_into :: "string \<Rightarrow> store \<Rightarrow> bool" where
  "no_references_into db s =
     (list_all (\<lambda>c. fc_database_name c = db \<or>
                  (\<not> refers_to (fc_caller_id c) (dead_function_ids db s) \<and>
                   \<not> refers_to (fc_callee_id c) (dead_function_ids db s)))
        (t_function_calls s)
      \<and> list_all (\<lambda>m. cm_database_name m = db \<or>
                  (\<not> refers_to (cm_class_id m) (dead_class_ids db s) \<and>
                   \<not> refers_to (cm_method_id m) (dead_function_ids db s)))
        (t_class_methods s)
      \<and> list_all (\<lambda>c. cl_database_name c = db \<or> \<not> refers_to (cl_parent_id c) (dead_class_ids db s))
        (t_classes s))"

text \<open>The rows of the other corpora, table by table, and what it means that a later store
  still has them, unchanged and in their order, possibly followed by new rows.\<close>

definition other_functions :: "string \<Rightarrow> store \<Rightarrow> function_row list" where
  "other_functions db s = filter (\<lambda>r. fn_database_name r \<noteq> db) (t_functions s)"

definition other_classes :: "string \<Rightarrow> store \<Rightarrow> class_row list" where
  "other_classes db s = filter (\<lambda>r. cl_database_name r \<noteq> db) (t_classes s)"

definition other_calls :: "string \<Rightarrow> store \<Rightarrow> call_row list" where
  "other_calls db s = filter (\<lambda>r. fc_database_name r \<noteq> db) (t_function_calls s)"

definition other_methods :: "string \<Rightarrow> store \<Rightarrow> method_row list" where
  "other_methods db s = filter (\<lambda>r. cm_database_name r \<noteq> db) (t_class_methods s)"

definition other_variables :: "string \<Rightarrow> store \<Rightarrow> variable_row list" where
  "other_variables db s = filter (\<lambda>r. var_database_name r \<noteq> db) (t_variables s)"

definition others_kept :: "string \<Rightarrow> store \<Rightarrow> store \<Rightarrow> bool" where
  "others_kept db s s' =
     (prefix (other_functions db s) (other_functions db s')
      \<and> prefix (other_classes db s) (other_classes db s')
      \<and> prefix (other_calls db s) (other_calls db s')
      \<and> prefix (other_methods db s) (other_methods db s')
      \<and> other_variables db s' = other_variables db s)"

text \<open>
  The corpus \<open>other\<close> with one function X and one call from X whose callee reference is
  the natural key of the function A of the corpus \<open>sample\<close>; and the store after
  \<open>sample\<close> and then \<open>other\<close> were built.
\<close>

definition caller_functions_csv :: string where
  "caller_functions_csv =
     ''codeql_id,name,file,line,num_params,signature'' @ [newline] @
     ''X@g.js:1,X,g.js,1,0,function X'' @ [newline]"

definition caller_calls_csv :: string where
  "caller_calls_csv =
     ''caller_codeql_id,callee_codeql_id,file,line'' @ [newline] @
     ''X@g.js:1,A@f.js:1,g.js,2'' @ [newline]"

definition caller_env :: build_env where
  "caller_env =
     \<lparr>databases = (\<lambda>n. if n = ''other'' then Some ''javascript'' else None),
      query_output = (\<lambda>dir q.
        if dir = ''javascript'' \<and> q = ''extract-functions.ql'' then Some caller_functions_csv
        else if dir = ''javascript'' \<and> q = ''extract-calls.ql'' then Some caller_calls_csv
        else None)\<rparr>"

definition function_X :: function_row where
  "function_X = \<lparr>fn_id = 4, fn_codeql_id = ''X@g.js:1'', fn_database_name = ''other'',
     fn_name = ''X'', fn_file = ''g.js'', fn_line = 1, fn_num_params = Some 0,
     fn_signature = Some ''function X''\<rparr>"

definition call_X_A :: call_row where
  "call_X_A = \<lparr>fc_id = 1, fc_database_name = ''other'', fc_caller_codeql_id = ''X@g.js:1'',
     fc_callee_codeql_id = ''A@f.js:1'', fc_caller_id = Some 4, fc_callee_id = Some 1,
     fc_callee_name = Some ''A'', fc_file = ''g.js'', fc_line = 2\<rparr>"

definition cross_corpus_store :: store where
  "cross_corpus_store =
     functions_only_store\<lparr>t_functions := t_functions functions_only_store @ [function_X],
        t_function_calls := [call_X_A], functions_seq := 5, function_calls_seq := 2\<rparr>"

text \<open>The same two corpora when the call of X goes to X itself.\<close>

definition call_X_X :: call_row where
  "call_X_X = \<lparr>fc_id = 1, fc_database_name = ''other'', fc_caller_codeql_id = ''X@g.js:1'',
     fc_callee_codeql_id = ''X@g.js:1'', fc_caller_id = Some 4, fc_callee_id = Some 4,
     fc_callee_name = Some ''X'', fc_file = ''g.js'', fc_line = 2\<rparr>"

definition separate_corpora_store :: store where
  "separate_corpora_store = cross_corpus_store\<lparr>t_function_calls := [call_X_X]\<rparr>"

text \<open>
  The corpus \<open>sample\<close> with two calls of B, from A and from C, that the extraction could
  not bind to a function: the store that the build leaves, and the store that it would
  leave if both callees had been resolved to B.
\<close>

definition unresolved_calls_csv :: string where
  "unresolved_calls_csv =
     ''caller_codeql_id,callee_codeql_id,file,line'' @ [newline] @
     ''A@f.js:1,unresolved:B@f.js:2,f.js,2'' @ [newline] @
     ''C@f.js:9,unresolved:B@f.js:10,f.js,10'' @ [newline]"

definition unresolved_env :: build_env where
  "unresolved_env =
     \<lparr>databases = (\<lambda>n. if n = ''sample'' then Some ''javascript'' else None),
      query_output = (\<lambda>dir q.
        if dir = ''javascript'' \<and> q = ''extract-functions.ql'' then Some sample_functions_csv
        else if dir = ''javascript'' \<and> q = ''extract-calls.ql'' then Some unresolved_calls_csv
        else None)\<rparr>"

definition call_A_B :: call_row where
  "call_A_B = \<lparr>fc_id = 1, fc_database_name = ''sample'', fc_caller_codeql_id = ''A@f.js:1'',
     fc_callee_codeql_id = ''unresolved:B@f.js:2'', fc_caller_id = Some 1, fc_callee_id = None,
     fc_callee_name = Some ''B'', fc_file = ''f.js'', fc_line = 2\<rparr>"

definition call_C_B :: call_row where
  "call_C_B = \<lparr>fc_id = 2, fc_database_name = ''sample'', fc_caller_codeql_id = ''C@f.js:9'',
     fc_callee_codeql_id = ''unresolved:B@f.js:10'', fc_caller_id = Some 3, fc_callee_id = None,
     fc_callee_name = Some ''B'', fc_file = ''f.js'', fc_line = 10\<rparr>"

definition unresolved_calls_store :: store where
  "unresolved_calls_store =
     functions_only_store\<lparr>t_function_calls := [call_A_B, call_C_B], function_calls_seq := 3\<rparr>"

definition resolved_calls_store :: store where
  "resolved_calls_store =
     functions_only_store\<lparr>t_function_calls :=
        [call_A_B\<lparr>fc_callee_id := Some 2\<rparr>, call_C_B\<lparr>fc_callee_id := Some 2\<rparr>],
        function_calls_seq := 3\<rparr>"

section \<open>Trigram similarity of the store\<close>










section \<open>Call chains\<close>

text \<open>
  A call edge from the function \<open>f\<close> to the function \<open>g\<close> of the corpus: some call row has
  \<open>f\<close> as its resolved caller and \<open>g\<close> as its resolved callee or as the function named by
  its callee name. A call chain from a name is a list of functions that starts with a
  function of the corpus of that name, goes along call edges, and has no function name
  twice; its depth is the number of its edges.
\<close>

definition call_edge :: "store \<Rightarrow> string \<Rightarrow> function_row \<Rightarrow> function_row \<Rightarrow> bool" where
  "call_edge s db f g =
     (g \<in> set (t_functions s) \<and> fn_database_name g = db \<and>
      list_ex (\<lambda>fc. fc_caller_id fc = Some (fn_id f) \<and>
                  (fc_callee_id fc = Some (fn_id g) \<or> fc_callee_name fc = Some (fn_name g)))
        (t_function_calls s))"

fun linked :: "store \<Rightarrow> string \<Rightarrow> function_row list \<Rightarrow> bool" where
  "linked s db (f # g # fs) = (call_edge s db f g \<and> linked s db (g # fs))"
| "linked s db fs = True"

definition is_call_chain :: "store \<Rightarrow> string \<Rightarrow> string \<Rightarrow> function_row list \<Rightarrow> bool" where
  "is_call_chain s db from_function fs =
     ((case fs of [] \<Rightarrow> False
       | f # _ \<Rightarrow> f \<in> set (t_functions s) \<and> fn_name f = from_function \<and> fn_database_name f = db)
      \<and> linked s db fs \<and> distinct (map fn_name fs))"

definition chain_depth :: "function_row list \<Rightarrow> nat" where
  "chain_depth fs = length fs - 1"

text \<open>The row of \<open>call_chain\<close> that stands for a chain, and the chains of one depth within
  the bound.\<close>

definition row_of_chain :: "function_row list \<Rightarrow> chain_row" where
  "row_of_chain fs =
     \<lparr>cc_id = fn_id (last fs), cc_name = fn_name (last fs), cc_file = fn_file (last fs),
      cc_path = map fn_name fs, cc_depth = chain_depth fs\<rparr>"

definition chains_of_depth :: "store \<Rightarrow> string \<Rightarrow> string \<Rightarrow> int \<Rightarrow> nat \<Rightarrow> function_row list set" where
  "chains_of_depth s db from maxd n =
     {fs. is_call_chain s db from fs \<and> chain_depth fs = n \<and> int n \<le> max 0 maxd}"

text \<open>The corpus \<open>sample\<close> with the functions A, B and C and the calls from A to B and
  from B to C, both resolved by the build.\<close>

definition chain_calls_csv :: string where
  "chain_calls_csv =
     ''caller_codeql_id,callee_codeql_id,file,line'' @ [newline] @
     ''A@f.js:1,B@f.js:5,f.js,2'' @ [newline] @
     ''B@f.js:5,C@f.js:9,f.js,6'' @ [newline]"

definition chain_env :: build_env where
  "chain_env =
     \<lparr>databases = (\<lambda>n. if n = ''sample'' then Some ''javascript'' else None),
      query_output = (\<lambda>dir q.
        if dir = ''javascript'' \<and> q = ''extract-functions.ql'' then Some sample_functions_csv
        else if dir = ''javascript'' \<and> q = ''extract-calls.ql'' then Some chain_calls_csv
        else None)\<rparr>"

definition call_A_to_B :: call_row where
  "call_A_to_B = \<lparr>fc_id = 1, fc_database_name = ''sample'', fc_caller_codeql_id = ''A@f.js:1'',
     fc_callee_codeql_id = ''B@f.js:5'', fc_caller_id = Some 1, fc_callee_id = Some 2,
     fc_callee_name = Some ''B'', fc_file = ''f.js'', fc_line = 2\<rparr>"

definition call_B_to_C :: call_row where
  "call_B_to_C = \<lparr>fc_id = 2, fc_database_name = ''sample'', fc_caller_codeql_id = ''B@f.js:5'',
     fc_callee_codeql_id = ''C@f.js:9'', fc_caller_id = Some 2, fc_callee_id = Some 3,
     fc_callee_name = Some ''C'', fc_file = ''f.js'', fc_line = 6\<rparr>"

definition chain_store :: store where
  "chain_store =
     functions_only_store\<lparr>t_function_calls := [call_A_to_B, call_B_to_C],
        function_calls_seq := 3\<rparr>"

section \<open>Natural keys of the whole store\<close>

text \<open>The natural keys that a table holds under the uniqueness constraint, whatever the
  corpus tags of its rows.\<close>

definition stored_keys :: "table \<Rightarrow> store \<Rightarrow> string set" where
  "stored_keys t s =
     (case t of
        Functions \<Rightarrow> set (map fn_codeql_id (t_functions s))
      | Classes \<Rightarrow> set (map cl_codeql_id (t_classes s))
      | _ \<Rightarrow> {})"

text \<open>
  A store in which the corpus \<open>sample\<close> has its three functions and a class K, and a
  corpus \<open>other\<close> whose classes file has a row with the natural key of K.
\<close>

definition class_K :: class_row where
  "class_K = \<lparr>cl_id = 1, cl_codeql_id = ''K@f.js:20'', cl_database_name = ''sample'',
     cl_name = ''K'', cl_file = ''f.js'', cl_line = 20, cl_parent_codeql_id = None,
     cl_parent_id = None\<rparr>"

definition sample_class_store :: store where
  "sample_class_store = functions_only_store\<lparr>t_classes := [class_K], classes_seq := 2\<rparr>"

definition other_classes_csv :: string where
  "other_classes_csv =
     ''codeql_id,name,file,line,parent_codeql_id'' @ [newline] @
     ''K@f.js:20,K,f.js,20,'' @ [newline]"

definition other_classes_env :: build_env where
  "other_classes_env =
     \<lparr>databases = (\<lambda>n. if n = ''other'' then Some ''javascript'' else None),
      query_output = (\<lambda>dir q.
        if dir = ''javascript'' \<and> q = ''extract-functions.ql'' then Some caller_functions_csv
        else if dir = ''javascript'' \<and> q = ''extract-classes.ql'' then Some other_classes_csv
        else None)\<rparr>"

section \<open>Properties of the ingestion loop\<close>

lemma ingest_lines_append:
  "ingest_lines pr db st (xs @ ys) = ingest_lines pr db (ingest_lines pr db st xs) ys"
  by (simp add: ingest_lines_def)

lemma ingest_lines_Cons:
  "ingest_lines pr db st (x # xs) = ingest_lines pr db (ingest_line pr db st x) xs"
  by (simp add: ingest_lines_def)

lemma ingest_lines_Nil: "ingest_lines pr db st [] = st"
  by (simp add: ingest_lines_def)

lemma ingest_line_seen:
  "trim line \<noteq> [] \<Longrightarrow> uniqueId_of line = Some u \<Longrightarrow> u \<in> seenIds st \<Longrightarrow>
   ingest_line pr db st line = st\<lparr>skippedDuplicates := skippedDuplicates st + 1\<rparr>"
  by (simp add: ingest_line_def)

lemma ingest_line_records_key:
  "trim line \<noteq> [] \<Longrightarrow> uniqueId_of line = Some u \<Longrightarrow> u \<in> seenIds (ingest_line pr db st line)"
  by (simp add: ingest_line_def)

lemma seenIds_ingest_line_mono: "seenIds st \<subseteq> seenIds (ingest_line pr db st line)"
  by (auto simp: ingest_line_def split: option.splits)

lemma seenIds_ingest_lines_mono: "seenIds st \<subseteq> seenIds (ingest_lines pr db st ls)"
proof (induction ls arbitrary: st)
  case Nil
  show ?case by (simp add: ingest_lines_Nil)
next
  case (Cons l ls)
  have "seenIds st \<subseteq> seenIds (ingest_line pr db st l)"
    by (rule seenIds_ingest_line_mono)
  also have "\<dots> \<subseteq> seenIds (ingest_lines pr db (ingest_line pr db st l) ls)"
    by (rule Cons.IH)
  finally show ?case by (simp add: ingest_lines_Cons)
qed

text \<open>The counter of skipped rows does not influence what later lines do.\<close>

lemma ingest_line_skipped_shift:
  "ingest_line pr db (st\<lparr>skippedDuplicates := skippedDuplicates st + k\<rparr>) l =
   (ingest_line pr db st l)\<lparr>skippedDuplicates := skippedDuplicates (ingest_line pr db st l) + k\<rparr>"
  by (simp add: ingest_line_def split: option.splits)

lemma ingest_lines_skipped_shift:
  "ingest_lines pr db (st\<lparr>skippedDuplicates := skippedDuplicates st + k\<rparr>) ls =
   (ingest_lines pr db st ls)\<lparr>skippedDuplicates := skippedDuplicates (ingest_lines pr db st ls) + k\<rparr>"
proof (induction ls arbitrary: st)
  case Nil
  show ?case by (simp add: ingest_lines_Nil)
next
  case (Cons l ls)
  show ?case
    by (simp only: ingest_lines_Cons ingest_line_skipped_shift Cons.IH)
qed

text \<open>A later line with the key of an earlier line only moves the counter.\<close>

lemma ingest_repeated_key:
  assumes l1: "trim l1 \<noteq> []" "uniqueId_of l1 = Some u"
      and l2: "trim l2 \<noteq> []" "uniqueId_of l2 = Some u"
  shows "ingest_lines pr db st (pre @ l1 # mid @ l2 # post) =
         (ingest_lines pr db st (pre @ l1 # mid @ post))
           \<lparr>skippedDuplicates := skippedDuplicates (ingest_lines pr db st (pre @ l1 # mid @ post)) + 1\<rparr>"
proof -
  define s0 where "s0 = ingest_lines pr db st pre"
  define s1 where "s1 = ingest_line pr db s0 l1"
  define s2 where "s2 = ingest_lines pr db s1 mid"
  have "u \<in> seenIds s1"
    unfolding s1_def using l1 by (rule ingest_line_records_key)
  moreover have "seenIds s1 \<subseteq> seenIds s2"
    unfolding s2_def by (rule seenIds_ingest_lines_mono)
  ultimately have seen: "u \<in> seenIds s2" by blast
  have step: "ingest_line pr db s2 l2 = s2\<lparr>skippedDuplicates := skippedDuplicates s2 + 1\<rparr>"
    using l2 seen by (rule ingest_line_seen)
  have "ingest_lines pr db st (pre @ l1 # mid @ l2 # post) =
        ingest_lines pr db (ingest_line pr db s2 l2) post"
    by (simp add: ingest_lines_append ingest_lines_Cons s0_def s1_def s2_def)
  also have "\<dots> = (ingest_lines pr db s2 post)
      \<lparr>skippedDuplicates := skippedDuplicates (ingest_lines pr db s2 post) + 1\<rparr>"
    by (simp only: step ingest_lines_skipped_shift)
  also have "ingest_lines pr db s2 post = ingest_lines pr db st (pre @ l1 # mid @ post)"
    by (simp add: ingest_lines_append ingest_lines_Cons s0_def s1_def s2_def)
  finally show ?thesis .
qed

text \<open>
  Claim C5. Within one ingestion run, a row whose tracked natural key (the first parsed
  column, when it is not empty) was already seen in the run is not added to the values to
  insert; it adds one to the counter of skipped duplicates, and that counter is reported.
  In particular a call-edge line that occurs a second time in a run, anywhere after its
  first occurrence, leaves the rows to insert as they are without it and makes the counter
  exactly one larger.
\<close>

theorem duplicate_rows_dropped_and_counted:
  assumes "trim line \<noteq> []" and "uniqueId_of line = Some u" and "u \<in> seenIds st"
  shows "vals (ingest_line pr db st line) = vals st
       \<and> skippedDuplicates (ingest_line pr db st line) = skippedDuplicates st + 1
       \<and> duplicate_report (ingest_line pr db st line) = Some (skippedDuplicates st + 1)
       \<and> vals (ingest_lines True db ingest_init (pre @ line # mid @ line # post)) =
           vals (ingest_lines True db ingest_init (pre @ line # mid @ post))
       \<and> skippedDuplicates (ingest_lines True db ingest_init (pre @ line # mid @ line # post)) =
           skippedDuplicates (ingest_lines True db ingest_init (pre @ line # mid @ post)) + 1"
proof -
  have "ingest_line pr db st line = st\<lparr>skippedDuplicates := skippedDuplicates st + 1\<rparr>"
    using assms by (rule ingest_line_seen)
  moreover have "ingest_lines True db ingest_init (pre @ line # mid @ line # post) =
     (ingest_lines True db ingest_init (pre @ line # mid @ post))
       \<lparr>skippedDuplicates :=
          skippedDuplicates (ingest_lines True db ingest_init (pre @ line # mid @ post)) + 1\<rparr>"
    using assms(1,2) assms(1,2) by (rule ingest_repeated_key)
  ultimately show ?thesis
    by (simp add: duplicate_report_def)
qed

text \<open>The same call edge twice in the run of the corpus \<open>sample\<close>: one row to insert, one
  skipped duplicate.\<close>

theorem duplicate_rows_dropped_and_counted_witness:
  "vals (ingest_lines True ''sample'' ingest_init
           [''a@f.js:1:0,unresolved:b@f.js:2,f.js,2'', ''a@f.js:1:0,unresolved:b@f.js:2,f.js,2'']) =
     [[Some ''sample'', Some ''a@f.js:1:0'', Some ''unresolved:b@f.js:2'', Some ''f.js'',
       Some ''2'', Some ''b'']]
   \<and> skippedDuplicates (ingest_lines True ''sample'' ingest_init
           [''a@f.js:1:0,unresolved:b@f.js:2,f.js,2'', ''a@f.js:1:0,unresolved:b@f.js:2,f.js,2'']) = 1
   \<and> duplicate_report (ingest_lines True ''sample'' ingest_init
           [''a@f.js:1:0,unresolved:b@f.js:2,f.js,2'', ''a@f.js:1:0,unresolved:b@f.js:2,f.js,2'']) = Some 1"
proof -
  let ?l = "''a@f.js:1:0,unresolved:b@f.js:2,f.js,2''"
  let ?st = "ingest_lines True ''sample'' ingest_init [?l]"
  have h1: "trim ?l \<noteq> []" by code_simp
  have h2: "uniqueId_of ?l = Some ''a@f.js:1:0''" by code_simp
  have once: "?st =
     \<lparr>seenIds = {''a@f.js:1:0''}, skippedDuplicates = 0,
      vals = [[Some ''sample'', Some ''a@f.js:1:0'', Some ''unresolved:b@f.js:2'', Some ''f.js'',
               Some ''2'', Some ''b'']]\<rparr>"
    by code_simp
  have h3: "''a@f.js:1:0'' \<in> seenIds ?st" by (simp add: once)
  have twice: "ingest_lines True ''sample'' ingest_init [?l, ?l] = ingest_line True ''sample'' ?st ?l"
    by (simp add: ingest_lines_def)
  from duplicate_rows_dropped_and_counted [OF h1 h2 h3, of True "''sample''" "[]" "[]" "[]"]
  show ?thesis by (simp add: once twice)
qed



section \<open>Properties of the reference resolver\<close>

lemma class_id_of_resolve_parent:
  "class_id_of (map (resolve_parent db cs') cs) k = class_id_of cs k"
  unfolding class_id_of_def
  by (induction cs) (auto simp: resolve_parent_def split: option.splits)

lemma resolve_caller_idem:
  "resolve_caller db fs (resolve_caller db fs c) = resolve_caller db fs c"
  by (simp add: resolve_caller_def split: option.splits)

lemma resolve_callee_idem:
  "resolve_callee db fs (resolve_callee db fs c) = resolve_callee db fs c"
  by (simp add: resolve_callee_def split: option.splits)

lemma resolve_caller_callee_stable:
  "resolve_caller db fs (resolve_callee db fs (resolve_caller db fs c)) =
   resolve_callee db fs (resolve_caller db fs c)"
  by (simp add: resolve_caller_def resolve_callee_def split: option.splits)

lemma resolve_callee_caller_stable:
  "resolve_callee db fs (resolve_callee db fs (resolve_caller db fs c)) =
   resolve_callee db fs (resolve_caller db fs c)"
  by (simp add: resolve_callee_idem)

lemma resolve_parent_idem:
  "resolve_parent db cs (resolve_parent db cs c) = resolve_parent db cs c"
  by (simp add: resolve_parent_def split: option.splits)

lemma resolve_parent_table_irrelevant:
  "resolve_parent db (map (resolve_parent db cs) cs) c = resolve_parent db cs c"
  by (simp add: resolve_parent_def class_id_of_resolve_parent cong: option.case_cong)

lemma resolve_method_class_idem:
  "resolve_method_class db cs (resolve_method_class db cs m) = resolve_method_class db cs m"
  by (simp add: resolve_method_class_def split: option.splits)

lemma resolve_method_function_idem:
  "resolve_method_function db fs (resolve_method_function db fs m) = resolve_method_function db fs m"
  by (simp add: resolve_method_function_def split: option.splits)

lemma resolve_method_class_function_stable:
  "resolve_method_class db cs (resolve_method_function db fs (resolve_method_class db cs m)) =
   resolve_method_function db fs (resolve_method_class db cs m)"
  by (simp add: resolve_method_class_def resolve_method_function_def split: option.splits)

lemma map_resolve_calls_stable:
  "map (resolve_caller db fs) (map (resolve_callee db fs) (map (resolve_caller db fs) cs)) =
   map (resolve_callee db fs) (map (resolve_caller db fs) cs)"
  by (simp add: resolve_caller_callee_stable)

lemma map_resolve_callee_idem:
  "map (resolve_callee db fs) (map (resolve_callee db fs) cs) = map (resolve_callee db fs) cs"
  by (simp add: resolve_callee_idem)

lemma map_resolve_parent_stable:
  "map (resolve_parent db (map (resolve_parent db cs) cs)) (map (resolve_parent db cs) cs) =
   map (resolve_parent db cs) cs"
  by (simp add: resolve_parent_table_irrelevant resolve_parent_idem)

lemma update_first_three_eq:
  "update_first_three db s =
     s\<lparr>t_function_calls :=
          map (resolve_callee db (t_functions s)) (map (resolve_caller db (t_functions s)) (t_function_calls s)),
       t_classes := map (resolve_parent db (t_classes s)) (t_classes s)\<rparr>"
  by (simp add: update_first_three_def update_parent_ids_def update_callee_ids_def
      update_caller_ids_def)


lemma update_first_three_idem:
  "update_first_three db (update_first_three db s) = update_first_three db s"
  by (simp add: update_first_three_eq map_resolve_calls_stable [simplified]
      map_resolve_callee_idem [simplified] map_resolve_parent_stable [simplified]
      resolve_caller_callee_stable resolve_callee_idem resolve_parent_table_irrelevant resolve_parent_idem)

lemma update_first_three_fields:
  "t_functions (update_first_three db s) = t_functions s"
  "t_class_methods (update_first_three db s) = t_class_methods s"
  by (simp_all add: update_first_three_eq)

lemma update_first_three_methods_irrelevant:
  "update_first_three db (s\<lparr>t_class_methods := ms\<rparr>) = (update_first_three db s)\<lparr>t_class_methods := ms\<rparr>"
  by (simp add: update_first_three_eq)

lemma class_id_of_first_three:
  "class_id_of (t_classes (update_first_three db s)) k = class_id_of (t_classes s) k"
  by (simp add: update_first_three_eq class_id_of_resolve_parent)

text \<open>What the two statements on class_methods compute, before the constraint is checked.\<close>

lemma update_method_class_ids_cases:
  "update_method_class_ids db s =
     (if cm_unique_ok (map (resolve_method_class db (t_classes s)) (t_class_methods s))
      then Inr (s\<lparr>t_class_methods := map (resolve_method_class db (t_classes s)) (t_class_methods s)\<rparr>)
      else Inl UniqueViolation)"
  by (simp add: update_method_class_ids_def Let_def)

lemma update_method_function_ids_cases:
  "update_method_function_ids db s =
     (if cm_unique_ok (map (resolve_method_function db (t_functions s)) (t_class_methods s))
      then Inr (s\<lparr>t_class_methods := map (resolve_method_function db (t_functions s)) (t_class_methods s)\<rparr>)
      else Inl UniqueViolation)"
  by (simp add: update_method_function_ids_def Let_def)

lemma updateForeignKeys_eq:
  "updateForeignKeys db s =
     (case update_method_class_ids db (update_first_three db s) of
        Inl e \<Rightarrow> (Some e, update_first_three db s)
      | Inr s4 \<Rightarrow> (case update_method_function_ids db s4 of
                     Inl e \<Rightarrow> (Some e, s4)
                   | Inr s5 \<Rightarrow> (None, s5)))"
  by (simp add: updateForeignKeys_def update_first_three_def Let_def cong: sum.case_cong)

lemma updateForeignKeys_idem:
  "updateForeignKeys db (snd (updateForeignKeys db s)) = updateForeignKeys db s"
proof -
  define s3 where "s3 = update_first_three db s"
  define ms4 where "ms4 = map (resolve_method_class db (t_classes s3)) (t_class_methods s3)"
  define s4 where "s4 = s3\<lparr>t_class_methods := ms4\<rparr>"
  define ms5 where "ms5 = map (resolve_method_function db (t_functions s4)) (t_class_methods s4)"
  define s5 where "s5 = s4\<lparr>t_class_methods := ms5\<rparr>"
  have s3_idem: "update_first_three db s3 = s3"
    by (simp add: s3_def update_first_three_idem)
  have s4_first: "update_first_three db s4 = s4"
    by (simp add: s4_def update_first_three_methods_irrelevant s3_idem)
  have s5_first: "update_first_three db s5 = s5"
    by (simp add: s5_def update_first_three_methods_irrelevant s4_first)
  have ms4_again: "map (resolve_method_class db (t_classes s4)) (t_class_methods s4) = ms4"
    by (simp add: s4_def ms4_def resolve_method_class_idem)
  have ms5_class: "map (resolve_method_class db (t_classes s5)) (t_class_methods s5) = ms5"
    by (simp add: s5_def ms5_def s4_def ms4_def resolve_method_class_function_stable)
  have ms5_again: "map (resolve_method_function db (t_functions s5)) (t_class_methods s5) = ms5"
    by (simp add: s5_def ms5_def resolve_method_function_idem)
  have s4_self: "s4\<lparr>t_class_methods := ms4\<rparr> = s4" by (simp add: s4_def)
  have s5_self: "s5\<lparr>t_class_methods := ms5\<rparr> = s5" by (simp add: s5_def)
  have first: "updateForeignKeys db s =
      (if cm_unique_ok ms4
       then (if cm_unique_ok ms5 then (None, s5) else (Some UniqueViolation, s4))
       else (Some UniqueViolation, s3))"
    by (simp add: updateForeignKeys_eq update_method_class_ids_cases
        update_method_function_ids_cases s3_def [symmetric] ms4_def [symmetric]
        s4_def [symmetric] ms5_def [symmetric] s5_def [symmetric])
  have on_s3: "updateForeignKeys db s3 =
      (if cm_unique_ok ms4
       then (if cm_unique_ok ms5 then (None, s5) else (Some UniqueViolation, s4))
       else (Some UniqueViolation, s3))"
    by (simp add: updateForeignKeys_eq update_method_class_ids_cases
        update_method_function_ids_cases s3_idem ms4_def [symmetric]
        s4_def [symmetric] ms5_def [symmetric] s5_def [symmetric])
  have on_s4: "cm_unique_ok ms4 \<Longrightarrow> updateForeignKeys db s4 =
      (if cm_unique_ok ms5 then (None, s5) else (Some UniqueViolation, s4))"
    by (simp add: updateForeignKeys_eq update_method_class_ids_cases
        update_method_function_ids_cases s4_first ms4_again s4_self
        ms5_def [symmetric] s5_def [symmetric])
  have on_s5: "cm_unique_ok ms4 \<Longrightarrow> cm_unique_ok ms5 \<Longrightarrow> updateForeignKeys db s5 = (None, s5)"
    by (simp add: updateForeignKeys_eq update_method_class_ids_cases
        update_method_function_ids_cases s5_first ms5_class ms5_again s5_self)
  show ?thesis
    by (simp add: first on_s3 on_s4 on_s5)
qed

text \<open>
  Claim C3. The reference-resolution pass is idempotent. Running it on the store that a
  first run left gives the same store and the same outcome, so a second run after a run
  without error changes no row and raises no error. Each of its updates leaves a row
  alone whose target id is already set.
\<close>

theorem resolution_pass_idempotent:
  "updateForeignKeys db (snd (updateForeignKeys db s)) = updateForeignKeys db s
   \<and> resolve_caller db fs (c\<lparr>fc_caller_id := Some i\<rparr>) = c\<lparr>fc_caller_id := Some i\<rparr>
   \<and> resolve_callee db fs (c\<lparr>fc_callee_id := Some i\<rparr>) = c\<lparr>fc_callee_id := Some i\<rparr>
   \<and> resolve_parent db cs (k\<lparr>cl_parent_id := Some i\<rparr>) = k\<lparr>cl_parent_id := Some i\<rparr>
   \<and> resolve_method_class db cs (m\<lparr>cm_class_id := Some i\<rparr>) = m\<lparr>cm_class_id := Some i\<rparr>
   \<and> resolve_method_function db fs (m\<lparr>cm_method_id := Some i\<rparr>) = m\<lparr>cm_method_id := Some i\<rparr>"
  by (simp add: updateForeignKeys_idem resolve_caller_def resolve_callee_def resolve_parent_def
      resolve_method_class_def resolve_method_function_def)

section \<open>Properties of the build\<close>

lemma insert_batches_Nil: "insert_batches t n bs [] s = (None, s)"
  by (subst insert_batches.simps) simp

lemma insert_batches_single:
  "values \<noteq> [] \<Longrightarrow> length values \<le> bs \<Longrightarrow>
   insert_batches t n bs values s =
     (case insert_statement t n values s of
        Inl e \<Rightarrow> (Some e, rejected_statement t n values s)
      | Inr s' \<Rightarrow> (None, s'))"
proof -
  assume ne: "values \<noteq> []" and le: "length values \<le> bs"
  then have "0 < bs" by (cases "values") auto
  with ne le show ?thesis
    by (subst insert_batches.simps) (auto simp: insert_batches_Nil split: sum.splits)
qed

lemma extraction_simps:
  "query functions_extraction = ''extract-functions.ql''" "target functions_extraction = Functions"
  "required functions_extraction" "\<not> has_processRow functions_extraction"
  "length (actualColumns functions_extraction) = 7" "batchSize functions_extraction = 1142"
  "query calls_extraction = ''extract-calls.ql''" "target calls_extraction = Function_calls"
  "\<not> required calls_extraction" "has_processRow calls_extraction"
  "length (actualColumns calls_extraction) = 6" "batchSize calls_extraction = 1333"
  "query classes_extraction = ''extract-classes.ql''" "target classes_extraction = Classes"
  "\<not> required classes_extraction" "\<not> has_processRow classes_extraction"
  "length (actualColumns classes_extraction) = 6" "batchSize classes_extraction = 1333"
  "query methods_extraction = ''extract-methods.ql''" "target methods_extraction = Class_methods"
  "\<not> required methods_extraction" "\<not> has_processRow methods_extraction"
  "length (actualColumns methods_extraction) = 4" "batchSize methods_extraction = 2000"
  by (simp_all add: functions_extraction_def calls_extraction_def classes_extraction_def
      methods_extraction_def batchSize_def maxParams_def actualColumns_def)

lemma ingest_sample_functions:
  "vals (ingest_csv False ''sample'' sample_functions_csv) =
  [[Some ''sample'', Some ''A@f.js:1'', Some ''A'', Some ''f.js'', Some ''1'', Some ''0'', Some ''function A''],
   [Some ''sample'', Some ''B@f.js:5'', Some ''B'', Some ''f.js'', Some ''5'', Some ''1'', Some ''function B''],
   [Some ''sample'', Some ''C@f.js:9'', Some ''C'', Some ''f.js'', Some ''9'', Some ''2'', Some ''function C'']]"
  by code_simp

lemma parse_small:
  "parse_int4 ''0'' = Some 0" "parse_int4 ''1'' = Some 1" "parse_int4 ''2'' = Some 2"
  "parse_int4 ''5'' = Some 5" "parse_int4 ''9'' = Some 9"
  by code_simp+

lemma insert_sample_functions:
  "insert_statement Functions 7 
  [[Some ''sample'', Some ''A@f.js:1'', Some ''A'', Some ''f.js'', Some ''1'', Some ''0'', Some ''function A''],
   [Some ''sample'', Some ''B@f.js:5'', Some ''B'', Some ''f.js'', Some ''5'', Some ''1'', Some ''function B''],
   [Some ''sample'', Some ''C@f.js:9'', Some ''C'', Some ''f.js'', Some ''9'', Some ''2'', Some ''function C'']]
   empty_store = Inr (empty_store\<lparr>t_functions :=
        [\<lparr>fn_id = 1, fn_codeql_id = ''A@f.js:1'', fn_database_name = ''sample'', fn_name = ''A'',
          fn_file = ''f.js'', fn_line = 1, fn_num_params = Some 0, fn_signature = Some ''function A''\<rparr>,
         \<lparr>fn_id = 2, fn_codeql_id = ''B@f.js:5'', fn_database_name = ''sample'', fn_name = ''B'',
          fn_file = ''f.js'', fn_line = 5, fn_num_params = Some 1, fn_signature = Some ''function B''\<rparr>,
         \<lparr>fn_id = 3, fn_codeql_id = ''C@f.js:9'', fn_database_name = ''sample'', fn_name = ''C'',
          fn_file = ''f.js'', fn_line = 9, fn_num_params = Some 2, fn_signature = Some ''function C''\<rparr>],
        functions_seq := 4\<rparr>)"
  by (simp add: insert_statement_def binds_def integer_parameters_def part_at_def insert_row_def mk_function_def int_param_def parse_small
      empty_store_def eval_nat_numeral)

lemma clearDatabase_empty: "clearDatabase db empty_store = empty_store"
  by (simp add: clearDatabase_def delete_functions_def delete_classes_def delete_variables_def
      delete_function_calls_def delete_class_methods_def empty_store_def)

lemma updateForeignKeys_functions_only:
  "updateForeignKeys ''sample'' functions_only_store = (None, functions_only_store)"
  by (simp add: updateForeignKeys_def update_parent_ids_def update_callee_ids_def
      update_caller_ids_def update_method_class_ids_def update_method_function_ids_def
      cm_unique_ok_def functions_only_store_def empty_store_def)

lemma build_functions_only:
  "handleBuildGraphIndex functions_only_env ''sample'' empty_store =
     (Inr ((\<lambda>t. None)(Functions := Some 3, Function_calls := Some 0, Classes := Some 0,
             Class_methods := Some 0)), functions_only_store)"
proof -
  have out: "query_output functions_only_env ''javascript'' =
      (\<lambda>q. if q = ''extract-functions.ql'' then Some sample_functions_csv else None)"
    by (simp add: functions_only_env_def)
  have run: "run_extractions (query_output functions_only_env ''javascript'') ''sample'' extractions
          (\<lambda>t. None) empty_store =
        (None, (\<lambda>t. None)(Functions := Some 3, Function_calls := Some 0, Classes := Some 0,
             Class_methods := Some 0), functions_only_store)"
    by (simp add: out extractions_def extraction_simps ingest_sample_functions
        insert_batches_single insert_sample_functions functions_only_store_def
        numeral_3_eq_3)
  have db: "databases functions_only_env ''sample'' = Some ''javascript''"
    by (simp add: functions_only_env_def)
  show ?thesis
    by (simp add: handleBuildGraphIndex_def db languageDir_of_def clearDatabase_empty run
        updateForeignKeys_functions_only)
qed

lemma run_extractions_keeps_other_stats:
  "run_extractions out db es stats s = (None, stats', s') \<Longrightarrow> t \<notin> target ` set es \<Longrightarrow>
   stats' t = stats t"
proof (induction es arbitrary: stats s)
  case Nil
  then show ?case by simp
next
  case (Cons e es)
  show ?case
  proof (cases "out (query e)")
    case None
    with Cons.prems have nr: "\<not> required e"
      and rest: "run_extractions out db es (stats(target e := Some 0)) s = (None, stats', s')"
      by (auto split: if_splits)
    have "stats' t = (stats(target e := Some 0)) t"
      using Cons.IH [OF rest] Cons.prems(2) by simp
    then show ?thesis using Cons.prems(2) by simp
  next
    case (Some csv)
    let ?vs = "vals (ingest_csv (has_processRow e) db csv)"
    obtain err s1 where ib: "insert_batches (target e) (length (actualColumns e)) (batchSize e) ?vs s = (err, s1)"
      by (cases "insert_batches (target e) (length (actualColumns e)) (batchSize e) ?vs s")
    with Cons.prems(1) Some have "err = None"
      by (cases err) (simp_all add: Let_def)
    with Cons.prems(1) Some ib
    have rest: "run_extractions out db es (stats(target e := Some (length ?vs))) s1 = (None, stats', s')"
      by (simp add: Let_def)
    have "stats' t = (stats(target e := Some (length ?vs))) t"
      using Cons.IH [OF rest] Cons.prems(2) by simp
    then show ?thesis using Cons.prems(2) by simp
  qed
qed

lemma run_extractions_missing_is_zero:
  "run_extractions out db es stats s = (None, stats', s') \<Longrightarrow> distinct (map target es) \<Longrightarrow>
   e \<in> set es \<Longrightarrow> out (query e) = None \<Longrightarrow> stats' (target e) = Some 0"
proof (induction es arbitrary: stats s)
  case Nil
  then show ?case by simp
next
  case (Cons x es)
  show ?case
  proof (cases "e = x")
    case True
    with Cons.prems have rest: "run_extractions out db es (stats(target e := Some 0)) s = (None, stats', s')"
      by (auto split: if_splits)
    have "target e \<notin> target ` set es" using Cons.prems(2) True by auto
    from run_extractions_keeps_other_stats [OF rest this] show ?thesis by simp
  next
    case False
    with Cons.prems have e: "e \<in> set es" and d: "distinct (map target es)" by auto
    show ?thesis
    proof (cases "out (query x)")
      case None
      with Cons.prems(1) have rest: "run_extractions out db es (stats(target x := Some 0)) s = (None, stats', s')"
        by (auto split: if_splits)
      from Cons.IH [OF rest d e Cons.prems(4)] show ?thesis .
    next
      case (Some csv)
      let ?vs = "vals (ingest_csv (has_processRow x) db csv)"
      obtain err s1 where ib: "insert_batches (target x) (length (actualColumns x)) (batchSize x) ?vs s = (err, s1)"
        by (cases "insert_batches (target x) (length (actualColumns x)) (batchSize x) ?vs s")
      with Cons.prems(1) Some have "err = None"
        by (cases err) (simp_all add: Let_def)
      with Cons.prems(1) Some ib
      have rest: "run_extractions out db es (stats(target x := Some (length ?vs))) s1 = (None, stats', s')"
        by (simp add: Let_def)
      from Cons.IH [OF rest d e Cons.prems(4)] show ?thesis .
    qed
  qed
qed

lemma distinct_extraction_targets: "distinct (map target extractions)"
  by (simp add: extractions_def extraction_simps)

lemma build_required_missing:
  assumes "databases env db = Some language" and "languageDir_of language = Some dir"
      and "query_output env dir ''extract-functions.ql'' = None"
  shows "handleBuildGraphIndex env db s = (Inl RequiredQueryNotFound, clearDatabase db s)"
  using assms by (simp add: handleBuildGraphIndex_def extractions_def extraction_simps Let_def)

lemma build_stats_of_missing:
  assumes "databases env db = Some language" and "languageDir_of language = Some dir"
      and "fst (handleBuildGraphIndex env db s) = Inr stats"
      and "e \<in> set extractions" and "query_output env dir (query e) = None"
  shows "stats (target e) = Some 0"
proof -
  let ?run = "run_extractions (query_output env dir) db extractions (\<lambda>t. None) (clearDatabase db s)"
  obtain err st s2 where run: "?run = (err, st, s2)" by (cases ?run)
  with assms(1-3) have "err = None"
    by (cases err) (simp_all add: handleBuildGraphIndex_def Let_def)
  with assms(1-3) run have "st = stats"
    by (auto simp: handleBuildGraphIndex_def Let_def split: prod.splits option.splits)
  with run \<open>err = None\<close> have "?run = (None, stats, s2)" by simp
  from run_extractions_missing_is_zero [OF this distinct_extraction_targets assms(4,5)] show ?thesis .
qed

text \<open>
  Claim C8. Of the four fact types only \<open>functions\<close> is required. When the query file
  of the required fact type does not exist for the corpus's language, the build fails.
  When the query file of an optional fact type (calls, classes, method memberships) does
  not exist, the extraction loop goes on with the next fact type, the store untouched and
  the statistic of that fact type set to zero, and a build that completes reports zero for
  it.
\<close>

theorem missing_extraction_policy:
  assumes "databases env db = Some language" and "languageDir_of language = Some dir"
  shows "map (\<lambda>e. (target e, required e)) extractions =
           [(Functions, True), (Function_calls, False), (Classes, False), (Class_methods, False)]
       \<and> (query_output env dir (query functions_extraction) = None \<longrightarrow>
            fst (handleBuildGraphIndex env db s) = Inl RequiredQueryNotFound)
       \<and> (\<forall>e \<in> set extractions. \<not> required e \<and> query_output env dir (query e) = None \<longrightarrow>
            (\<forall>es stats st.
               run_extractions (query_output env dir) db (e # es) stats st =
               run_extractions (query_output env dir) db es (stats(target e := Some 0)) st)
            \<and> (\<forall>stats. fst (handleBuildGraphIndex env db s) = Inr stats \<longrightarrow>
                   stats (target e) = Some 0))"
proof -
  have "query_output env dir (query functions_extraction) = None \<Longrightarrow>
          fst (handleBuildGraphIndex env db s) = Inl RequiredQueryNotFound"
    using build_required_missing [OF assms] by (simp add: extraction_simps)
  moreover have "\<And>e stats. e \<in> set extractions \<Longrightarrow> query_output env dir (query e) = None \<Longrightarrow>
      fst (handleBuildGraphIndex env db s) = Inr stats \<Longrightarrow> stats (target e) = Some 0"
    using build_stats_of_missing [OF assms] by blast
  ultimately show ?thesis
    by (simp add: extractions_def extraction_simps)
qed

text \<open>No query file at all: the build fails. Only the functions query: the build
  completes with three functions and zero for the other fact types.\<close>

theorem missing_extraction_policy_witness:
  "fst (handleBuildGraphIndex no_queries_env ''sample'' empty_store) = Inl RequiredQueryNotFound
   \<and> (case fst (handleBuildGraphIndex functions_only_env ''sample'' empty_store) of
        Inl e \<Rightarrow> False
      | Inr stats \<Rightarrow> map stats [Functions, Function_calls, Classes, Class_methods] =
                       [Some 3, Some 0, Some 0, Some 0])"
proof -
  have d1: "databases no_queries_env ''sample'' = Some ''javascript''"
    by (simp add: no_queries_env_def)
  have d2: "databases functions_only_env ''sample'' = Some ''javascript''"
    by (simp add: functions_only_env_def)
  have l: "languageDir_of ''javascript'' = Some ''javascript''"
    by (simp add: languageDir_of_def)
  have none: "query_output no_queries_env ''javascript'' (query functions_extraction) = None"
    by (simp add: no_queries_env_def)
  have missing: "query_output functions_only_env ''javascript'' (query calls_extraction) = None"
    "query_output functions_only_env ''javascript'' (query classes_extraction) = None"
    "query_output functions_only_env ''javascript'' (query methods_extraction) = None"
    by (simp_all add: functions_only_env_def extraction_simps)
  have built: "fst (handleBuildGraphIndex functions_only_env ''sample'' empty_store) =
      Inr ((\<lambda>t. None)(Functions := Some 3, Function_calls := Some 0, Classes := Some 0,
             Class_methods := Some 0))"
    by (simp add: build_functions_only)
  from missing_extraction_policy [OF d1 l, of empty_store] none
  have first: "fst (handleBuildGraphIndex no_queries_env ''sample'' empty_store) = Inl RequiredQueryNotFound"
    by blast
  from missing_extraction_policy [OF d2 l, of empty_store] missing built
  have "((\<lambda>t. None)(Functions := Some (3::nat), Function_calls := Some 0, Classes := Some 0,
             Class_methods := Some 0)) (target calls_extraction) = Some 0"
    by (simp add: extractions_def extraction_simps)
  with first built show ?thesis by simp
qed

lemma ingest_malformed:
  "vals (ingest_csv False ''sample'' malformed_functions_csv) =
  [[Some ''sample'', Some ''A@f.js:1'', Some ''A'', Some ''f.js'', Some ''1'', Some ''0'', Some ''function A''],
   [Some ''sample'', Some ''B@f.js:5'', Some ''B'', Some ''f.js'', Some ''5'']]"
  by code_simp

text \<open>
  Claim C9, at a failing input. The build does not compare the number of parsed fields
  with the number of columns: it only prints a warning when the flattened batch has not
  the expected number of parameters, and sends the statement all the same. With the
  functions file above the store rejects the statement, the build fails, and the
  well-formed row of the same batch is not stored either. The fallback importer, on the
  same file, drops the malformed line and keeps the well-formed one.
\<close>

theorem malformed_row_fails_the_build:
  "handleBuildGraphIndex malformed_env ''sample'' empty_store = (Inl ParameterCountMismatch, empty_store)
   \<and> importCSVFallback_rows (columns functions_extraction) malformed_functions_csv =
     [[Some ''A@f.js:1'', Some ''A'', Some ''f.js'', Some ''1'', Some ''0'', Some ''function A'']]"
proof -
  have out: "query_output malformed_env ''javascript'' =
      (\<lambda>q. if q = ''extract-functions.ql'' then Some malformed_functions_csv else None)"
    by (simp add: malformed_env_def)
  have stmt: "insert_statement Functions 7
      [[Some ''sample'', Some ''A@f.js:1'', Some ''A'', Some ''f.js'', Some ''1'', Some ''0'', Some ''function A''],
       [Some ''sample'', Some ''B@f.js:5'', Some ''B'', Some ''f.js'', Some ''5'']] empty_store =
      Inl ParameterCountMismatch"
    by (simp add: insert_statement_def)
  have rej: "rejected_statement Functions 7
      [[Some ''sample'', Some ''A@f.js:1'', Some ''A'', Some ''f.js'', Some ''1'', Some ''0'', Some ''function A''],
       [Some ''sample'', Some ''B@f.js:5'', Some ''B'', Some ''f.js'', Some ''5'']] empty_store =
      empty_store"
    by (simp add: rejected_statement_def)
  have run: "run_extractions (query_output malformed_env ''javascript'') ''sample'' extractions
          (\<lambda>t. None) empty_store = (Some ParameterCountMismatch, (\<lambda>t. None), empty_store)"
    by (simp add: out extractions_def extraction_simps ingest_malformed insert_batches_single stmt rej)
  have db: "databases malformed_env ''sample'' = Some ''javascript''"
    by (simp add: malformed_env_def)
  have "handleBuildGraphIndex malformed_env ''sample'' empty_store = (Inl ParameterCountMismatch, empty_store)"
    by (simp add: handleBuildGraphIndex_def db languageDir_of_def clearDatabase_empty run)
  moreover have "importCSVFallback_rows (columns functions_extraction) malformed_functions_csv =
     [[Some ''A@f.js:1'', Some ''A'', Some ''f.js'', Some ''1'', Some ''0'', Some ''function A'']]"
    by code_simp
  ultimately show ?thesis by simp
qed

section \<open>Natural keys across corpora\<close>

lemma mk_function_Inr:
  "mk_function i ps = Inr r \<Longrightarrow>
     length ps = 7 \<and> ps ! 0 = Some (fn_database_name r) \<and> ps ! 1 = Some (fn_codeql_id r) \<and> fn_id r = i"
  unfolding mk_function_def
  by (auto split: list.splits option.splits sum.splits)

lemma mk_class_Inr:
  "mk_class i ps = Inr r \<Longrightarrow>
     length ps = 6 \<and> ps ! 0 = Some (cl_database_name r) \<and> ps ! 1 = Some (cl_codeql_id r) \<and> cl_id r = i
     \<and> cl_parent_id r = None"
  unfolding mk_class_def
  by (auto split: list.splits option.splits sum.splits)

lemma mk_call_Inr:
  "mk_call i ps = Inr r \<Longrightarrow>
     length ps = 6 \<and> ps ! 0 = Some (fc_database_name r) \<and> fc_id r = i
     \<and> fc_caller_id r = None \<and> fc_callee_id r = None"
  unfolding mk_call_def
  by (auto split: list.splits option.splits sum.splits)

lemma mk_method_Inr:
  "mk_method i ps = Inr r \<Longrightarrow>
     length ps = 4 \<and> ps ! 0 = Some (cm_database_name r) \<and> cm_id r = i
     \<and> cm_class_id r = None \<and> cm_method_id r = None"
  unfolding mk_method_def
  by (auto split: list.splits option.splits sum.splits)

lemma insert_row_cases:
  assumes "insert_row t ps s = Inr s'"
  shows "(\<exists>r. t = Functions \<and> mk_function (functions_seq s) ps = Inr r
              \<and> fn_codeql_id r \<notin> set (map fn_codeql_id (t_functions s))
              \<and> s' = s\<lparr>t_functions := t_functions s @ [r], functions_seq := functions_seq s + 1\<rparr>)
       \<or> (\<exists>r. t = Classes \<and> mk_class (classes_seq s) ps = Inr r
              \<and> cl_codeql_id r \<notin> set (map cl_codeql_id (t_classes s))
              \<and> s' = s\<lparr>t_classes := t_classes s @ [r], classes_seq := classes_seq s + 1\<rparr>)
       \<or> (\<exists>r. t = Function_calls \<and> mk_call (function_calls_seq s) ps = Inr r
              \<and> s' = s\<lparr>t_function_calls := t_function_calls s @ [r],
                       function_calls_seq := function_calls_seq s + 1\<rparr>)
       \<or> (\<exists>r. t = Class_methods \<and> mk_method (class_methods_seq s) ps = Inr r
              \<and> s' = s\<lparr>t_class_methods := t_class_methods s @ [r],
                       class_methods_seq := class_methods_seq s + 1\<rparr>)"
  using assms unfolding insert_row_def
  by (cases t) (auto split: sum.splits if_splits)

lemma insert_row_keys_unique:
  "insert_row t ps s = Inr s' \<Longrightarrow> keys_unique s \<Longrightarrow> keys_unique s'"
  by (drule insert_row_cases) (auto simp: keys_unique_def)

lemma insert_rows_keys_unique:
  "insert_rows t pss s = Inr s' \<Longrightarrow> keys_unique s \<Longrightarrow> keys_unique s'"
proof (induction pss arbitrary: s)
  case Nil
  then show ?case by simp
next
  case (Cons ps pss)
  then show ?case
    by (auto split: sum.splits dest: insert_row_keys_unique)
qed

lemma insert_statement_keys_unique:
  "insert_statement t n batch s = Inr s' \<Longrightarrow> keys_unique s \<Longrightarrow> keys_unique s'"
  by (auto simp: insert_statement_def Let_def split: if_splits dest: insert_rows_keys_unique)

lemma draw_tables:
  "t_functions (draw t n s) = t_functions s" "t_classes (draw t n s) = t_classes s"
  "t_function_calls (draw t n s) = t_function_calls s"
  "t_class_methods (draw t n s) = t_class_methods s" "t_variables (draw t n s) = t_variables s"
  by (cases t; simp add: draw_def)+

lemma rejected_statement_tables:
  "t_functions (rejected_statement t n batch s) = t_functions s"
  "t_classes (rejected_statement t n batch s) = t_classes s"
  "t_function_calls (rejected_statement t n batch s) = t_function_calls s"
  "t_class_methods (rejected_statement t n batch s) = t_class_methods s"
  "t_variables (rejected_statement t n batch s) = t_variables s"
  by (simp_all add: rejected_statement_def Let_def draw_tables)

lemma rejected_statement_keys_unique:
  "keys_unique (rejected_statement t n batch s) = keys_unique s"
  by (simp add: keys_unique_def rejected_statement_tables)

lemma insert_batches_keys_unique:
  "keys_unique s \<Longrightarrow> keys_unique (snd (insert_batches t n bs values s))"
proof (induction t n bs "values" s rule: insert_batches.induct)
  case (1 t ncols bs "values" s)
  show ?case
  proof (cases "values = [] \<or> bs = 0")
    case True
    then show ?thesis using "1.prems" by (subst insert_batches.simps) auto
  next
    case False
    show ?thesis
    proof (cases "insert_statement t ncols (take bs values) s")
      case (Inl e)
      then show ?thesis using False "1.prems"
        by (subst insert_batches.simps) (simp add: rejected_statement_keys_unique)
    next
      case (Inr s')
      have "keys_unique s'" using Inr "1.prems" by (rule insert_statement_keys_unique)
      with "1.IH" [of s'] False Inr have "keys_unique (snd (insert_batches t ncols bs (drop bs values) s'))"
        by simp
      then show ?thesis using False Inr by (subst insert_batches.simps) simp
    qed
  qed
qed

lemma run_extractions_keys_unique:
  "keys_unique s \<Longrightarrow> keys_unique (snd (snd (run_extractions out db es stats s)))"
proof (induction es arbitrary: stats s)
  case Nil
  then show ?case by simp
next
  case (Cons e es)
  show ?case
  proof (cases "out (query e)")
    case None
    then show ?thesis using Cons by simp
  next
    case (Some csv)
    let ?ib = "insert_batches (target e) (length (actualColumns e)) (batchSize e)
                 (vals (ingest_csv (has_processRow e) db csv)) s"
    have ku: "keys_unique (snd ?ib)" using Cons.prems by (rule insert_batches_keys_unique)
    obtain err s1 where ib: "?ib = (err, s1)" by (cases ?ib)
    with ku have "keys_unique s1" by simp
    then show ?thesis using Some ib Cons.IH [of s1]
      by (cases err) (simp_all add: Let_def)
  qed
qed

lemma clearDatabase_keys_unique: "keys_unique s \<Longrightarrow> keys_unique (clearDatabase db s)"
proof -
  have cl: "map cl_codeql_id (map (\<lambda>c. if refers_to (cl_parent_id c) dead then c\<lparr>cl_parent_id := None\<rparr> else c) cs)
     = map cl_codeql_id cs" for dead cs
    by (induction cs) auto
  assume "keys_unique s"
  then show ?thesis
    by (simp add: keys_unique_def clearDatabase_def delete_functions_def delete_classes_def
        delete_variables_def delete_function_calls_def delete_class_methods_def Let_def
        distinct_map_filter cl del: map_map)
qed

lemma map_codeql_resolve_parent:
  "map cl_codeql_id (map (resolve_parent db cs') cs) = map cl_codeql_id cs"
  by (induction cs) (auto simp: resolve_parent_def split: option.splits)

lemma updateForeignKeys_tables:
  "t_functions (snd (updateForeignKeys db s)) = t_functions s"
  "map cl_codeql_id (t_classes (snd (updateForeignKeys db s))) = map cl_codeql_id (t_classes s)"
  by (auto simp: updateForeignKeys_def Let_def update_method_class_ids_def
      update_method_function_ids_def update_parent_ids_def update_callee_ids_def
      update_caller_ids_def map_codeql_resolve_parent split: sum.splits simp del: map_map)

lemma updateForeignKeys_keys_unique:
  "keys_unique s \<Longrightarrow> keys_unique (snd (updateForeignKeys db s))"
  by (simp add: keys_unique_def updateForeignKeys_tables)

lemma build_keys_unique:
  assumes "keys_unique s"
  shows "keys_unique (snd (handleBuildGraphIndex env db s))"
proof (cases "databases env db")
  case None
  then show ?thesis using assms by (simp add: handleBuildGraphIndex_def)
next
  case (Some language)
  have c: "keys_unique (clearDatabase db s)" using assms by (rule clearDatabase_keys_unique)
  show ?thesis
  proof (cases "languageDir_of language")
    case None
    then show ?thesis using Some c by (simp add: handleBuildGraphIndex_def)
  next
    case (Some dir)
    let ?run = "run_extractions (query_output env dir) db extractions (\<lambda>t. None) (clearDatabase db s)"
    obtain err st s2 where run: "?run = (err, st, s2)" by (cases ?run)
    have "keys_unique (snd (snd ?run))" using c by (rule run_extractions_keys_unique)
    with run have s2: "keys_unique s2" by simp
    then have "keys_unique (snd (updateForeignKeys db s2))" by (rule updateForeignKeys_keys_unique)
    then show ?thesis using \<open>databases env db = Some language\<close> Some run s2
      by (cases err; cases "updateForeignKeys db s2"; cases "fst (updateForeignKeys db s2)")
         (auto simp: handleBuildGraphIndex_def Let_def)
  qed
qed

lemma clearDatabase_other_corpus:
  "clearDatabase ''other'' functions_only_store = functions_only_store"
  by (simp add: clearDatabase_def delete_functions_def delete_classes_def delete_variables_def
      delete_function_calls_def delete_class_methods_def functions_only_store_def empty_store_def)

lemma ingest_other_functions:
  "vals (ingest_csv False ''other'' other_functions_csv) =
     [[Some ''other'', Some ''A@f.js:1'', Some ''A'', Some ''f.js'', Some ''1'', Some ''0'',
       Some ''function A'']]"
  by code_simp

text \<open>
  Claim C1, as stated, fails: after the corpus \<open>sample\<close> has stored its function A, the
  build of the corpus \<open>other\<close>, whose functions file has a row with the same natural key,
  is rejected by the store and stores nothing; only the sequence of \<open>functions\<close> has
  moved, by the id that the rejected row drew.
\<close>

theorem second_corpus_same_key_rejected:
  "handleBuildGraphIndex other_env ''other''
     (snd (handleBuildGraphIndex functions_only_env ''sample'' empty_store)) =
   (Inl UniqueViolation, functions_only_store\<lparr>functions_seq := 5\<rparr>)"
proof -
  have out: "query_output other_env ''javascript'' =
      (\<lambda>q. if q = ''extract-functions.ql'' then Some other_functions_csv else None)"
    by (simp add: other_env_def)
  have stmt: "insert_statement Functions 7
      [[Some ''other'', Some ''A@f.js:1'', Some ''A'', Some ''f.js'', Some ''1'', Some ''0'',
        Some ''function A'']] functions_only_store = Inl UniqueViolation"
    by (simp add: insert_statement_def binds_def integer_parameters_def part_at_def insert_row_def mk_function_def int_param_def parse_small
        functions_only_store_def empty_store_def eval_nat_numeral)
  have rej: "rejected_statement Functions 7
      [[Some ''other'', Some ''A@f.js:1'', Some ''A'', Some ''f.js'', Some ''1'', Some ''0'',
        Some ''function A'']] functions_only_store = functions_only_store\<lparr>functions_seq := 5\<rparr>"
    by (simp add: rejected_statement_def binds_def integer_parameters_def part_at_def draw_def
        insert_row_def mk_function_def int_param_def parse_small
        functions_only_store_def empty_store_def eval_nat_numeral)
  have run: "run_extractions (query_output other_env ''javascript'') ''other'' extractions
          (\<lambda>t. None) functions_only_store =
        (Some UniqueViolation, (\<lambda>t. None), functions_only_store\<lparr>functions_seq := 5\<rparr>)"
    by (simp add: out extractions_def extraction_simps ingest_other_functions
        insert_batches_single stmt rej)
  have db: "databases other_env ''other'' = Some ''javascript''"
    by (simp add: other_env_def)
  have "handleBuildGraphIndex other_env ''other'' functions_only_store =
      (Inl UniqueViolation, functions_only_store\<lparr>functions_seq := 5\<rparr>)"
    by (simp add: handleBuildGraphIndex_def db languageDir_of_def clearDatabase_other_corpus run)
  then show ?thesis
    by (simp only: build_functions_only snd_conv)
qed

lemma chunks_concat:
  "list_all (\<lambda>ps. length ps = n) batch \<Longrightarrow> chunks n (concat batch) (length batch) = batch"
  by (induction batch) auto

lemma insert_row_stored_keys:
  assumes "insert_row t ps s = Inr s'"
  shows "stored_keys t' s \<subseteq> stored_keys t' s'"
    and "part_at ps 1 = Some k \<Longrightarrow> k \<notin> stored_keys t s"
proof -
  from insert_row_cases [OF assms] show "stored_keys t' s \<subseteq> stored_keys t' s'"
    by (cases t') (auto simp: stored_keys_def)
  assume k: "part_at ps 1 = Some k"
  from insert_row_cases [OF assms] k show "k \<notin> stored_keys t s"
    by (auto simp: stored_keys_def part_at_def dest!: mk_function_Inr mk_class_Inr)
qed

lemma insert_rows_stored_keys:
  "insert_rows t pss s = Inr s' \<Longrightarrow>
     stored_keys t' s \<subseteq> stored_keys t' s'
     \<and> (\<forall>ps \<in> set pss. \<forall>k. part_at ps 1 = Some k \<longrightarrow> k \<notin> stored_keys t s)"
proof (induction pss arbitrary: s)
  case Nil
  then show ?case by simp
next
  case (Cons ps pss)
  from Cons.prems obtain s1 where a: "insert_row t ps s = Inr s1" and b: "insert_rows t pss s1 = Inr s'"
    by (auto split: sum.splits)
  note r = insert_row_stored_keys [OF a]
  from Cons.IH [OF b] have m: "stored_keys t' s1 \<subseteq> stored_keys t' s'"
    and f: "\<forall>ps \<in> set pss. \<forall>k. part_at ps 1 = Some k \<longrightarrow> k \<notin> stored_keys t s1"
    by blast+
  have "stored_keys t' s \<subseteq> stored_keys t' s'" using r(1) [of t'] m by blast
  moreover have "\<forall>q \<in> set (ps # pss). \<forall>k. part_at q 1 = Some k \<longrightarrow> k \<notin> stored_keys t s"
    using r(2) f r(1) [of t] by auto
  ultimately show ?case by blast
qed

lemma insert_statement_stored_keys:
  assumes "insert_statement t n batch s = Inr s'"
  shows "stored_keys t' s \<subseteq> stored_keys t' s'"
    and "list_all (\<lambda>ps. length ps = n) batch \<Longrightarrow> ps \<in> set batch \<Longrightarrow> part_at ps 1 = Some k \<Longrightarrow>
         k \<notin> stored_keys t s"
proof -
  from assms have r: "insert_rows t (chunks n (concat batch) (length batch)) s = Inr s'"
    by (auto simp: insert_statement_def Let_def split: if_splits)
  from insert_rows_stored_keys [OF r] show "stored_keys t' s \<subseteq> stored_keys t' s'" by blast
  assume "list_all (\<lambda>ps. length ps = n) batch" "ps \<in> set batch" "part_at ps 1 = Some k"
  with insert_rows_stored_keys [OF r, of t] show "k \<notin> stored_keys t s"
    by (simp add: chunks_concat)
qed

lemma rejected_statement_stored_keys:
  "stored_keys t' (rejected_statement t n batch s) = stored_keys t' s"
  by (cases t') (simp_all add: stored_keys_def rejected_statement_tables)

lemma insert_batches_stored_keys:
  "stored_keys t' s \<subseteq> stored_keys t' (snd (insert_batches t n bs rows s))"
proof (induction t n bs rows s rule: insert_batches.induct)
  case (1 t ncols bs rows s)
  show ?case
  proof (cases "rows = [] \<or> bs = 0")
    case True
    then show ?thesis by (subst insert_batches.simps) auto
  next
    case False
    show ?thesis
    proof (cases "insert_statement t ncols (take bs rows) s")
      case (Inl e)
      then show ?thesis using False
        by (subst insert_batches.simps) (simp add: rejected_statement_stored_keys)
    next
      case (Inr s')
      from insert_statement_stored_keys(1) [OF Inr]
      have a: "stored_keys t' s \<subseteq> stored_keys t' s'" .
      from "1.IH" [of s'] False Inr
      have "stored_keys t' s' \<subseteq> stored_keys t' (snd (insert_batches t ncols bs (drop bs rows) s'))"
        by simp
      with a have "stored_keys t' s \<subseteq> stored_keys t' (snd (insert_batches t ncols bs (drop bs rows) s'))"
        by blast
      then show ?thesis using False Inr by (subst insert_batches.simps) simp
    qed
  qed
qed

lemma insert_batches_rejects_stored_key:
  "list_all (\<lambda>ps. length ps = n) rows \<Longrightarrow> ps \<in> set rows \<Longrightarrow> part_at ps 1 = Some k \<Longrightarrow>
   k \<in> stored_keys t s \<Longrightarrow> fst (insert_batches t n bs rows s) \<noteq> None"
proof (induction t n bs rows s rule: insert_batches.induct)
  case (1 t ncols bs rows s)
  from "1.prems"(2) have ne: "rows \<noteq> []" by auto
  show ?case
  proof (cases "bs = 0")
    case True
    then show ?thesis using ne by (subst insert_batches.simps) simp
  next
    case False
    show ?thesis
    proof (cases "insert_statement t ncols (take bs rows) s")
      case (Inl e)
      then show ?thesis using False ne by (subst insert_batches.simps) simp
    next
      case (Inr s')
      have all_take: "list_all (\<lambda>ps. length ps = ncols) (take bs rows)"
        using "1.prems"(1) by (auto simp: list_all_iff dest: in_set_takeD)
      have "ps \<notin> set (take bs rows)"
        using insert_statement_stored_keys(2) [OF Inr all_take _ "1.prems"(3)] "1.prems"(4)
        by blast
      moreover have "set rows = set (take bs rows) \<union> set (drop bs rows)"
        by (metis append_take_drop_id set_append)
      ultimately have in_drop: "ps \<in> set (drop bs rows)" using "1.prems"(2) by blast
      have all_drop: "list_all (\<lambda>ps. length ps = ncols) (drop bs rows)"
        using "1.prems"(1) by (auto simp: list_all_iff dest: in_set_dropD)
      have k': "k \<in> stored_keys t s'"
        using insert_statement_stored_keys(1) [OF Inr, of t] "1.prems"(4) by blast
      from "1.IH" [OF ne False Inr all_drop in_drop "1.prems"(3) k']
      have "fst (insert_batches t ncols bs (drop bs rows) s') \<noteq> None" .
      then show ?thesis using False ne Inr by (subst insert_batches.simps) simp
    qed
  qed
qed

lemma run_extractions_rejects_stored_key:
  "e \<in> set es \<Longrightarrow> out (query e) = Some csv \<Longrightarrow>
   list_all (\<lambda>ps. length ps = length (actualColumns e)) (vals (ingest_csv (has_processRow e) db csv)) \<Longrightarrow>
   ps \<in> set (vals (ingest_csv (has_processRow e) db csv)) \<Longrightarrow> part_at ps 1 = Some k \<Longrightarrow>
   k \<in> stored_keys (target e) s \<Longrightarrow>
   fst (run_extractions out db es stats s) \<noteq> None"
proof (induction es arbitrary: stats s)
  case Nil
  then show ?case by simp
next
  case (Cons x es)
  show ?case
  proof (cases "out (query x)")
    case None
    with Cons.prems(2) have "x \<noteq> e" by auto
    with Cons.prems(1) have e: "e \<in> set es" by simp
    from Cons.IH [OF e Cons.prems(2-6)] None show ?thesis by simp
  next
    case (Some csv')
    let ?vs = "vals (ingest_csv (has_processRow x) db csv')"
    let ?ib = "insert_batches (target x) (length (actualColumns x)) (batchSize x) ?vs s"
    obtain err s1 where ib: "?ib = (err, s1)" by (cases ?ib)
    show ?thesis
    proof (cases err)
      case (Some a)
      with ib \<open>out (query x) = Some csv'\<close> show ?thesis by (simp add: Let_def)
    next
      case None
      have "x \<noteq> e"
      proof
        assume xe: "x = e"
        with \<open>out (query x) = Some csv'\<close> Cons.prems(2) have "csv' = csv" by simp
        with xe insert_batches_rejects_stored_key [OF Cons.prems(3-6), of "batchSize e"] ib None
        show False by simp
      qed
      with Cons.prems(1) have e: "e \<in> set es" by simp
      have "stored_keys (target e) s \<subseteq> stored_keys (target e) (snd ?ib)"
        by (rule insert_batches_stored_keys)
      with ib Cons.prems(6) have k: "k \<in> stored_keys (target e) s1" by auto
      from Cons.IH [OF e Cons.prems(2-5) k]
      have "fst (run_extractions out db es (stats(target x := Some (length ?vs))) s1) \<noteq> None" .
      with ib None \<open>out (query x) = Some csv'\<close> show ?thesis by (simp add: Let_def)
    qed
  qed
qed

lemma build_rejects_stored_key:
  assumes "databases env db = Some language" and "languageDir_of language = Some dir"
    and "e \<in> set extractions" and "query_output env dir (query e) = Some csv"
    and "list_all (\<lambda>ps. length ps = length (actualColumns e)) (vals (ingest_csv (has_processRow e) db csv))"
    and "ps \<in> set (vals (ingest_csv (has_processRow e) db csv))" and "part_at ps 1 = Some k"
    and "k \<in> stored_keys (target e) (clearDatabase db s)"
  shows "isl (fst (handleBuildGraphIndex env db s))"
proof -
  let ?run = "run_extractions (query_output env dir) db extractions (\<lambda>t. None) (clearDatabase db s)"
  have "fst ?run \<noteq> None"
    using assms(3-8) by (rule run_extractions_rejects_stored_key)
  then obtain err st s2 where "?run = (Some err, st, s2)" by (cases ?run) auto
  with assms(1,2) show ?thesis by (simp add: handleBuildGraphIndex_def)
qed

lemma clearDatabase_keeps_other_keys:
  "f \<in> set (t_functions s) \<Longrightarrow> fn_database_name f \<noteq> db \<Longrightarrow>
     fn_codeql_id f \<in> stored_keys Functions (clearDatabase db s)"
  "c \<in> set (t_classes s) \<Longrightarrow> cl_database_name c \<noteq> db \<Longrightarrow>
     cl_codeql_id c \<in> stored_keys Classes (clearDatabase db s)"
proof -
  show "f \<in> set (t_functions s) \<Longrightarrow> fn_database_name f \<noteq> db \<Longrightarrow>
     fn_codeql_id f \<in> stored_keys Functions (clearDatabase db s)"
    by (simp add: stored_keys_def clearDatabase_def delete_functions_def delete_classes_def
        delete_variables_def delete_function_calls_def delete_class_methods_def Let_def)
  have cl: "map cl_codeql_id (map (\<lambda>c. if refers_to (cl_parent_id c) dead then c\<lparr>cl_parent_id := None\<rparr> else c) cs)
     = map cl_codeql_id cs" for dead cs
    by (induction cs) auto
  assume "c \<in> set (t_classes s)" "cl_database_name c \<noteq> db"
  then have "cl_codeql_id c \<in> set (map cl_codeql_id (filter (\<lambda>c. cl_database_name c \<noteq> db) (t_classes s)))"
    by auto
  then show "cl_codeql_id c \<in> stored_keys Classes (clearDatabase db s)"
    by (simp add: stored_keys_def clearDatabase_def delete_functions_def delete_classes_def
        delete_variables_def delete_function_calls_def delete_class_methods_def Let_def cl
        del: map_map set_map)
qed

lemma insert_function_rejected_iff:
  "isl (insert_row Functions [tag, Some k, name, path, line, num_params, signature] s) \<longleftrightarrow>
      isl (mk_function (functions_seq s) [tag, Some k, name, path, line, num_params, signature])
      \<or> k \<in> set (map fn_codeql_id (t_functions s))"
proof (cases "mk_function (functions_seq s) [tag, Some k, name, path, line, num_params, signature]")
  case (Inl e)
  then show ?thesis by (simp add: insert_row_def)
next
  case (Inr r)
  from mk_function_Inr [OF Inr] have "fn_codeql_id r = k" by simp
  with Inr show ?thesis by (simp add: insert_row_def)
qed

lemma insert_class_rejected_iff:
  "isl (insert_row Classes [tag, Some k, name, path, line, parent] s) \<longleftrightarrow>
      isl (mk_class (classes_seq s) [tag, Some k, name, path, line, parent])
      \<or> k \<in> set (map cl_codeql_id (t_classes s))"
proof (cases "mk_class (classes_seq s) [tag, Some k, name, path, line, parent]")
  case (Inl e)
  then show ?thesis by (simp add: insert_row_def)
next
  case (Inr r)
  from mk_class_Inr [OF Inr] have "cl_codeql_id r = k" by simp
  with Inr show ?thesis by (simp add: insert_row_def)
qed

lemma ingest_other_classes:
  "vals (ingest_csv False ''other'' other_classes_csv) =
     [[Some ''other'', Some ''K@f.js:20'', Some ''K'', Some ''f.js'', Some ''20'', None]]"
  by code_simp

text \<open>
  Claim C1, amended. The natural keys of functions and of classes are unique in the
  whole store, not per corpus. A function row or a class row is rejected exactly when it
  is ill-formed or its \<open>codeql_id\<close> is already stored in its table, under whichever
  corpus tag. A build, completed or failed, keeps every \<open>codeql_id\<close> of \<open>functions\<close> and
  of \<open>classes\<close> unique over all corpora. And the build of a corpus fails when its
  functions output, every data line of which has the six fields, has a line with the
  natural key of a stored function of another corpus; likewise when its classes output,
  with five fields in every data line, has a line with the natural key of a stored class
  of another corpus.
\<close>

theorem natural_keys_unique_in_whole_store:
  "(isl (insert_row Functions [tag, Some k, name, path, line, num_params, signature] s) \<longleftrightarrow>
      isl (mk_function (functions_seq s) [tag, Some k, name, path, line, num_params, signature])
      \<or> k \<in> set (map fn_codeql_id (t_functions s)))
   \<and> (isl (insert_row Classes [tag, Some k, name, path, line, parent] s) \<longleftrightarrow>
      isl (mk_class (classes_seq s) [tag, Some k, name, path, line, parent])
      \<or> k \<in> set (map cl_codeql_id (t_classes s)))
   \<and> (keys_unique s \<longrightarrow> keys_unique (snd (handleBuildGraphIndex env db s)))
   \<and> (databases env db = Some language \<and> languageDir_of language = Some dir
       \<and> query_output env dir ''extract-functions.ql'' = Some functions_csv
       \<and> list_all (\<lambda>ps. length ps = 7) (vals (ingest_csv False db functions_csv))
       \<and> (\<exists>ps \<in> set (vals (ingest_csv False db functions_csv)). \<exists>f \<in> set (t_functions s).
             fn_database_name f \<noteq> db \<and> part_at ps 1 = Some (fn_codeql_id f))
       \<longrightarrow> isl (fst (handleBuildGraphIndex env db s)))
   \<and> (databases env db = Some language \<and> languageDir_of language = Some dir
       \<and> query_output env dir ''extract-classes.ql'' = Some classes_csv
       \<and> list_all (\<lambda>ps. length ps = 6) (vals (ingest_csv False db classes_csv))
       \<and> (\<exists>ps \<in> set (vals (ingest_csv False db classes_csv)). \<exists>c \<in> set (t_classes s).
             cl_database_name c \<noteq> db \<and> part_at ps 1 = Some (cl_codeql_id c))
       \<longrightarrow> isl (fst (handleBuildGraphIndex env db s)))"
proof -
  have fns: "isl (fst (handleBuildGraphIndex env db s))"
    if "databases env db = Some language" "languageDir_of language = Some dir"
      and out: "query_output env dir ''extract-functions.ql'' = Some functions_csv"
      and len: "list_all (\<lambda>ps. length ps = 7) (vals (ingest_csv False db functions_csv))"
      and ex: "\<exists>ps \<in> set (vals (ingest_csv False db functions_csv)). \<exists>f \<in> set (t_functions s).
             fn_database_name f \<noteq> db \<and> part_at ps 1 = Some (fn_codeql_id f)"
  proof -
    from ex obtain ps f where ps: "ps \<in> set (vals (ingest_csv False db functions_csv))"
      and f: "f \<in> set (t_functions s)" "fn_database_name f \<noteq> db"
      and k: "part_at ps 1 = Some (fn_codeql_id f)" by blast
    have e: "functions_extraction \<in> set extractions" by (simp add: extractions_def)
    have stored: "fn_codeql_id f \<in> stored_keys (target functions_extraction) (clearDatabase db s)"
      using clearDatabase_keeps_other_keys(1) [OF f] by (simp add: extraction_simps)
    have out': "query_output env dir (query functions_extraction) = Some functions_csv"
      using out by (simp add: extraction_simps)
    have len': "list_all (\<lambda>ps. length ps = length (actualColumns functions_extraction))
        (vals (ingest_csv (has_processRow functions_extraction) db functions_csv))"
      using len by (simp add: extraction_simps)
    have ps': "ps \<in> set (vals (ingest_csv (has_processRow functions_extraction) db functions_csv))"
      using ps by (simp add: extraction_simps)
    show ?thesis
      by (rule build_rejects_stored_key [OF that(1,2) e out' len' ps' k stored])
  qed
  have cls: "isl (fst (handleBuildGraphIndex env db s))"
    if "databases env db = Some language" "languageDir_of language = Some dir"
      and out: "query_output env dir ''extract-classes.ql'' = Some classes_csv"
      and len: "list_all (\<lambda>ps. length ps = 6) (vals (ingest_csv False db classes_csv))"
      and ex: "\<exists>ps \<in> set (vals (ingest_csv False db classes_csv)). \<exists>c \<in> set (t_classes s).
             cl_database_name c \<noteq> db \<and> part_at ps 1 = Some (cl_codeql_id c)"
  proof -
    from ex obtain ps c where ps: "ps \<in> set (vals (ingest_csv False db classes_csv))"
      and c: "c \<in> set (t_classes s)" "cl_database_name c \<noteq> db"
      and k: "part_at ps 1 = Some (cl_codeql_id c)" by blast
    have e: "classes_extraction \<in> set extractions" by (simp add: extractions_def)
    have stored: "cl_codeql_id c \<in> stored_keys (target classes_extraction) (clearDatabase db s)"
      using clearDatabase_keeps_other_keys(2) [OF c] by (simp add: extraction_simps)
    have out': "query_output env dir (query classes_extraction) = Some classes_csv"
      using out by (simp add: extraction_simps)
    have len': "list_all (\<lambda>ps. length ps = length (actualColumns classes_extraction))
        (vals (ingest_csv (has_processRow classes_extraction) db classes_csv))"
      using len by (simp add: extraction_simps)
    have ps': "ps \<in> set (vals (ingest_csv (has_processRow classes_extraction) db classes_csv))"
      using ps by (simp add: extraction_simps)
    show ?thesis
      by (rule build_rejects_stored_key [OF that(1,2) e out' len' ps' k stored])
  qed
  have ku: "keys_unique s \<longrightarrow> keys_unique (snd (handleBuildGraphIndex env db s))"
    by (simp add: build_keys_unique)
  have fns': "databases env db = Some language \<and> languageDir_of language = Some dir
       \<and> query_output env dir ''extract-functions.ql'' = Some functions_csv
       \<and> list_all (\<lambda>ps. length ps = 7) (vals (ingest_csv False db functions_csv))
       \<and> (\<exists>ps \<in> set (vals (ingest_csv False db functions_csv)). \<exists>f \<in> set (t_functions s).
             fn_database_name f \<noteq> db \<and> part_at ps 1 = Some (fn_codeql_id f))
       \<longrightarrow> isl (fst (handleBuildGraphIndex env db s))"
    using fns by blast
  have cls': "databases env db = Some language \<and> languageDir_of language = Some dir
       \<and> query_output env dir ''extract-classes.ql'' = Some classes_csv
       \<and> list_all (\<lambda>ps. length ps = 6) (vals (ingest_csv False db classes_csv))
       \<and> (\<exists>ps \<in> set (vals (ingest_csv False db classes_csv)). \<exists>c \<in> set (t_classes s).
             cl_database_name c \<noteq> db \<and> part_at ps 1 = Some (cl_codeql_id c))
       \<longrightarrow> isl (fst (handleBuildGraphIndex env db s))"
    using cls by blast
  show ?thesis
    by (intro conjI insert_function_rejected_iff insert_class_rejected_iff ku fns' cls')
qed

text \<open>In the store above, the corpus \<open>other\<close> brings the key of the function A, and then
  the key of the class K.\<close>

theorem natural_keys_unique_in_whole_store_witness:
  "isl (insert_row Functions
          [Some ''other'', Some ''A@f.js:1'', Some ''A'', Some ''f.js'', Some ''1'', Some ''0'',
           Some ''function A''] sample_class_store)
   \<and> isl (insert_row Classes
          [Some ''other'', Some ''K@f.js:20'', Some ''K'', Some ''f.js'', Some ''20'', None]
          sample_class_store)
   \<and> keys_unique sample_class_store
   \<and> keys_unique (snd (handleBuildGraphIndex other_env ''other'' sample_class_store))
   \<and> isl (fst (handleBuildGraphIndex other_env ''other'' sample_class_store))
   \<and> isl (fst (handleBuildGraphIndex other_classes_env ''other'' sample_class_store))"
proof -
  note thm1 = natural_keys_unique_in_whole_store
    [where k = "''A@f.js:1''" and s = sample_class_store and tag = "Some ''other''"
       and name = "Some ''A''" and path = "Some ''f.js''" and line = "Some ''1''"
       and num_params = "Some ''0''" and signature = "Some ''function A''" and parent = None
       and env = other_env and db = "''other''" and language = "''javascript''"
       and dir = "''javascript''" and functions_csv = other_functions_csv
       and classes_csv = other_classes_csv]
  note thm2 = natural_keys_unique_in_whole_store
    [where k = "''K@f.js:20''" and s = sample_class_store and tag = "Some ''other''"
       and name = "Some ''K''" and path = "Some ''f.js''" and line = "Some ''20''"
       and num_params = None and signature = None and parent = None
       and env = other_classes_env and db = "''other''" and language = "''javascript''"
       and dir = "''javascript''" and functions_csv = caller_functions_csv
       and classes_csv = other_classes_csv]
  have fkey: "''A@f.js:1'' \<in> set (map fn_codeql_id (t_functions sample_class_store))"
    by (simp add: sample_class_store_def functions_only_store_def)
  have ckey: "''K@f.js:20'' \<in> set (map cl_codeql_id (t_classes sample_class_store))"
    by (simp add: sample_class_store_def class_K_def)
  have ku: "keys_unique sample_class_store"
    by (simp add: keys_unique_def sample_class_store_def functions_only_store_def empty_store_def
        class_K_def)
  have a: "isl (insert_row Functions
          [Some ''other'', Some ''A@f.js:1'', Some ''A'', Some ''f.js'', Some ''1'', Some ''0'',
           Some ''function A''] sample_class_store)"
    using thm1 [THEN conjunct1] fkey by (simp only: simp_thms)
  have b: "isl (insert_row Classes
          [Some ''other'', Some ''K@f.js:20'', Some ''K'', Some ''f.js'', Some ''20'', None]
          sample_class_store)"
    using thm2 [THEN conjunct2, THEN conjunct1] ckey by (simp only: simp_thms)
  have c: "keys_unique (snd (handleBuildGraphIndex other_env ''other'' sample_class_store))"
    using thm1 [THEN conjunct2, THEN conjunct2, THEN conjunct1] ku by (simp only: simp_thms)
  have d1: "databases other_env ''other'' = Some ''javascript''"
    "languageDir_of ''javascript'' = Some ''javascript''"
    "query_output other_env ''javascript'' ''extract-functions.ql'' = Some other_functions_csv"
    by (simp_all add: other_env_def languageDir_of_def)
  have d2: "list_all (\<lambda>ps. length ps = 7) (vals (ingest_csv False ''other'' other_functions_csv))"
    by (simp add: ingest_other_functions)
  have d3: "\<exists>ps \<in> set (vals (ingest_csv False ''other'' other_functions_csv)).
      \<exists>f \<in> set (t_functions sample_class_store).
         fn_database_name f \<noteq> ''other'' \<and> part_at ps 1 = Some (fn_codeql_id f)"
    by (simp add: ingest_other_functions sample_class_store_def functions_only_store_def part_at_def)
  have d: "isl (fst (handleBuildGraphIndex other_env ''other'' sample_class_store))"
    using thm1 [THEN conjunct2, THEN conjunct2, THEN conjunct2, THEN conjunct1] d1 d2 d3
    by (simp only: simp_thms)
  have e1: "databases other_classes_env ''other'' = Some ''javascript''"
    "query_output other_classes_env ''javascript'' ''extract-classes.ql'' = Some other_classes_csv"
    by (simp_all add: other_classes_env_def)
  have e2: "list_all (\<lambda>ps. length ps = 6) (vals (ingest_csv False ''other'' other_classes_csv))"
    by (simp add: ingest_other_classes)
  have e3: "\<exists>ps \<in> set (vals (ingest_csv False ''other'' other_classes_csv)).
      \<exists>c \<in> set (t_classes sample_class_store).
         cl_database_name c \<noteq> ''other'' \<and> part_at ps 1 = Some (cl_codeql_id c)"
    by (simp add: ingest_other_classes sample_class_store_def class_K_def part_at_def)
  have e: "isl (fst (handleBuildGraphIndex other_classes_env ''other'' sample_class_store))"
    using thm2 [THEN conjunct2, THEN conjunct2, THEN conjunct2, THEN conjunct2] e1 d1(2) e2 e3
    by (simp only: simp_thms)
  from a b ku c d e show ?thesis by (intro conjI)
qed

section \<open>Rebuilding one corpus and the rows of the others\<close>

lemmas other_defs = other_functions_def other_classes_def other_calls_def other_methods_def
  other_variables_def

lemma others_kept_refl: "others_kept db s s"
  by (simp add: others_kept_def)

lemma others_kept_trans: "others_kept db s s' \<Longrightarrow> others_kept db s' s'' \<Longrightarrow> others_kept db s s''"
  by (auto simp: others_kept_def intro: prefix_order.trans)

lemma filter_filter_absorb:
  "(\<And>x. x \<in> set xs \<Longrightarrow> Q x \<Longrightarrow> P x) \<Longrightarrow> filter Q (filter P xs) = filter Q xs"
  by (induction xs) auto

lemma filter_map_unchanged:
  "(\<And>x. x \<in> set xs \<Longrightarrow> Q (f x) = Q x) \<Longrightarrow> (\<And>x. x \<in> set xs \<Longrightarrow> Q x \<Longrightarrow> f x = x) \<Longrightarrow>
   filter Q (map f xs) = filter Q xs"
  by (induction xs) auto

lemma clearDatabase_functions:
  "t_functions (clearDatabase db s) = filter (\<lambda>f. fn_database_name f \<noteq> db) (t_functions s)"
  by (simp add: clearDatabase_def delete_functions_def delete_classes_def delete_variables_def
      delete_function_calls_def delete_class_methods_def Let_def)

lemma clearDatabase_variables:
  "t_variables (clearDatabase db s) = filter (\<lambda>v. var_database_name v \<noteq> db) (t_variables s)"
  by (simp add: clearDatabase_def delete_functions_def delete_classes_def delete_variables_def
      delete_function_calls_def delete_class_methods_def Let_def)

lemma clearDatabase_calls:
  "t_function_calls (clearDatabase db s) =
     filter (\<lambda>c. \<not> refers_to (fc_caller_id c) (dead_function_ids db s)
                \<and> \<not> refers_to (fc_callee_id c) (dead_function_ids db s))
       (filter (\<lambda>c. fc_database_name c \<noteq> db) (t_function_calls s))"
  by (simp add: clearDatabase_def delete_functions_def delete_classes_def delete_variables_def
      delete_function_calls_def delete_class_methods_def Let_def dead_function_ids_def)

lemma clearDatabase_methods:
  "t_class_methods (clearDatabase db s) =
     filter (\<lambda>m. \<not> refers_to (cm_method_id m) (dead_function_ids db s))
       (filter (\<lambda>m. \<not> refers_to (cm_class_id m) (dead_class_ids db s))
          (filter (\<lambda>m. cm_database_name m \<noteq> db) (t_class_methods s)))"
  by (simp add: clearDatabase_def delete_functions_def delete_classes_def delete_variables_def
      delete_function_calls_def delete_class_methods_def Let_def dead_function_ids_def
      dead_class_ids_def)

lemma clearDatabase_classes:
  "t_classes (clearDatabase db s) =
     map (\<lambda>c. if refers_to (cl_parent_id c) (dead_class_ids db s) then c\<lparr>cl_parent_id := None\<rparr> else c)
       (filter (\<lambda>c. cl_database_name c \<noteq> db) (t_classes s))"
  by (simp add: clearDatabase_def delete_functions_def delete_classes_def delete_variables_def
      delete_function_calls_def delete_class_methods_def Let_def dead_class_ids_def)

lemma clearDatabase_other_functions:
  "other_functions db (clearDatabase db s) = other_functions db s"
  by (simp add: other_functions_def clearDatabase_functions)

lemma clearDatabase_other_variables:
  "other_variables db (clearDatabase db s) = other_variables db s"
  by (simp add: other_variables_def clearDatabase_variables)

lemma clearDatabase_other_calls:
  assumes "no_references_into db s"
  shows "other_calls db (clearDatabase db s) = other_calls db s"
proof -
  have ok: "\<not> refers_to (fc_caller_id c) (dead_function_ids db s)
            \<and> \<not> refers_to (fc_callee_id c) (dead_function_ids db s)"
    if "c \<in> set (t_function_calls s)" "fc_database_name c \<noteq> db" for c
    using assms that by (auto simp: no_references_into_def list_all_iff)
  have "filter (\<lambda>c. \<not> refers_to (fc_caller_id c) (dead_function_ids db s)
                \<and> \<not> refers_to (fc_callee_id c) (dead_function_ids db s))
          (filter (\<lambda>c. fc_database_name c \<noteq> db) (t_function_calls s))
        = filter (\<lambda>c. fc_database_name c \<noteq> db) (t_function_calls s)"
    using ok by (intro filter_True) auto
  then show ?thesis
    by (simp add: other_calls_def clearDatabase_calls)
qed

lemma clearDatabase_other_methods:
  assumes "no_references_into db s"
  shows "other_methods db (clearDatabase db s) = other_methods db s"
proof -
  have ok: "\<not> refers_to (cm_class_id m) (dead_class_ids db s)
            \<and> \<not> refers_to (cm_method_id m) (dead_function_ids db s)"
    if "m \<in> set (t_class_methods s)" "cm_database_name m \<noteq> db" for m
    using assms that by (auto simp: no_references_into_def list_all_iff)
  have "filter (\<lambda>x. cm_database_name x \<noteq> db \<and>
           \<not> refers_to (cm_class_id x) (dead_class_ids db s) \<and>
           \<not> refers_to (cm_method_id x) (dead_function_ids db s) \<and>
           cm_database_name x \<noteq> db) (t_class_methods s)
        = filter (\<lambda>r. cm_database_name r \<noteq> db) (t_class_methods s)"
    using ok by (intro filter_cong) auto
  then show ?thesis
    by (simp add: other_methods_def clearDatabase_methods)
qed

lemma clearDatabase_other_classes:
  assumes "no_references_into db s"
  shows "other_classes db (clearDatabase db s) = other_classes db s"
proof -
  let ?null = "\<lambda>c. if refers_to (cl_parent_id c) (dead_class_ids db s) then c\<lparr>cl_parent_id := None\<rparr> else c"
  have ok: "\<not> refers_to (cl_parent_id c) (dead_class_ids db s)"
    if "c \<in> set (t_classes s)" "cl_database_name c \<noteq> db" for c
    using assms that by (auto simp: no_references_into_def list_all_iff)
  have "map ?null (filter (\<lambda>c. cl_database_name c \<noteq> db) (t_classes s))
        = filter (\<lambda>c. cl_database_name c \<noteq> db) (t_classes s)"
    using ok by (intro map_idI) auto
  then show ?thesis
    by (simp add: other_classes_def clearDatabase_classes)
qed

lemma clearDatabase_others_kept:
  "no_references_into db s \<Longrightarrow> others_kept db s (clearDatabase db s)"
  by (simp add: others_kept_def clearDatabase_other_functions clearDatabase_other_variables
      clearDatabase_other_calls clearDatabase_other_methods clearDatabase_other_classes)

lemma insert_row_others_kept:
  "insert_row t ps s = Inr s' \<Longrightarrow> others_kept db s s'"
  by (drule insert_row_cases) (auto simp: others_kept_def other_defs)

lemma insert_rows_others_kept:
  "insert_rows t pss s = Inr s' \<Longrightarrow> others_kept db s s'"
proof (induction pss arbitrary: s)
  case Nil
  then show ?case by (simp add: others_kept_refl)
next
  case (Cons ps pss)
  then show ?case
    by (auto split: sum.splits intro: others_kept_trans dest: insert_row_others_kept)
qed

lemma insert_statement_others_kept:
  "insert_statement t n batch s = Inr s' \<Longrightarrow> others_kept db s s'"
  by (auto simp: insert_statement_def Let_def split: if_splits dest: insert_rows_others_kept)

lemma rejected_statement_others_kept:
  "others_kept db s (rejected_statement t n batch s)"
  by (simp add: others_kept_def other_defs rejected_statement_tables)

lemma insert_batches_others_kept:
  "others_kept db s (snd (insert_batches t n bs values s))"
proof (induction t n bs "values" s rule: insert_batches.induct)
  case (1 t ncols bs "values" s)
  show ?case
  proof (cases "values = [] \<or> bs = 0")
    case True
    then show ?thesis by (subst insert_batches.simps) (auto simp: others_kept_refl)
  next
    case False
    show ?thesis
    proof (cases "insert_statement t ncols (take bs values) s")
      case (Inl e)
      then show ?thesis using False
        by (subst insert_batches.simps) (simp add: rejected_statement_others_kept)
    next
      case (Inr s')
      have a: "others_kept db s s'" using Inr by (rule insert_statement_others_kept)
      from "1.IH" [of s'] False Inr
      have "others_kept db s' (snd (insert_batches t ncols bs (drop bs values) s'))" by simp
      with a have "others_kept db s (snd (insert_batches t ncols bs (drop bs values) s'))"
        by (rule others_kept_trans)
      then show ?thesis using False Inr by (subst insert_batches.simps) simp
    qed
  qed
qed

lemma run_extractions_others_kept:
  "others_kept db' s (snd (snd (run_extractions out db es stats s)))"
proof (induction es arbitrary: stats s)
  case Nil
  show ?case by (simp add: others_kept_refl)
next
  case (Cons e es)
  show ?case
  proof (cases "out (query e)")
    case None
    then show ?thesis using Cons by (simp add: others_kept_refl)
  next
    case (Some csv)
    let ?ib = "insert_batches (target e) (length (actualColumns e)) (batchSize e)
                 (vals (ingest_csv (has_processRow e) db csv)) s"
    have k: "others_kept db' s (snd ?ib)" by (rule insert_batches_others_kept)
    obtain err s1 where ib: "?ib = (err, s1)" by (cases ?ib)
    with k have k1: "others_kept db' s s1" by simp
    show ?thesis
    proof (cases err)
      case None
      have "others_kept db' s1 (snd (snd (run_extractions out db es
               (stats(target e := Some (length (vals (ingest_csv (has_processRow e) db csv))))) s1)))"
        by (rule Cons.IH)
      with k1 show ?thesis using Some ib None
        by (auto simp: Let_def intro: others_kept_trans)
    next
      case (Some a)
      then show ?thesis using \<open>out (query e) = Some csv\<close> ib k1 by (simp add: Let_def)
    qed
  qed
qed

lemma resolve_keeps_tags:
  "fc_database_name (resolve_caller db fs c) = fc_database_name c"
  "fc_database_name (resolve_callee db fs c) = fc_database_name c"
  "cl_database_name (resolve_parent db cs k) = cl_database_name k"
  "cm_database_name (resolve_method_class db cs m) = cm_database_name m"
  "cm_database_name (resolve_method_function db fs m) = cm_database_name m"
  by (simp_all add: resolve_caller_def resolve_callee_def resolve_parent_def
      resolve_method_class_def resolve_method_function_def split: option.splits)

lemma resolve_skips_others:
  "fc_database_name c \<noteq> db \<Longrightarrow> resolve_caller db fs c = c"
  "fc_database_name c \<noteq> db \<Longrightarrow> resolve_callee db fs c = c"
  "cl_database_name k \<noteq> db \<Longrightarrow> resolve_parent db cs k = k"
  "cm_database_name m \<noteq> db \<Longrightarrow> resolve_method_class db cs m = m"
  "cm_database_name m \<noteq> db \<Longrightarrow> resolve_method_function db fs m = m"
  by (simp_all add: resolve_caller_def resolve_callee_def resolve_parent_def
      resolve_method_class_def resolve_method_function_def)

lemma update_first_three_others:
  "other_functions db (update_first_three db s) = other_functions db s"
  "other_variables db (update_first_three db s) = other_variables db s"
  "other_methods db (update_first_three db s) = other_methods db s"
  "other_calls db (update_first_three db s) = other_calls db s"
  "other_classes db (update_first_three db s) = other_classes db s"
  by (simp_all add: other_defs update_first_three_eq filter_map_unchanged resolve_keeps_tags
      resolve_skips_others del: map_map)

lemma update_method_class_ids_others:
  "update_method_class_ids db s = Inr s' \<Longrightarrow>
     other_functions db s' = other_functions db s \<and> other_variables db s' = other_variables db s
     \<and> other_methods db s' = other_methods db s \<and> other_calls db s' = other_calls db s
     \<and> other_classes db s' = other_classes db s"
  by (auto simp: update_method_class_ids_cases other_defs filter_map_unchanged resolve_keeps_tags
      resolve_skips_others split: if_splits)

lemma update_method_function_ids_others:
  "update_method_function_ids db s = Inr s' \<Longrightarrow>
     other_functions db s' = other_functions db s \<and> other_variables db s' = other_variables db s
     \<and> other_methods db s' = other_methods db s \<and> other_calls db s' = other_calls db s
     \<and> other_classes db s' = other_classes db s"
  by (auto simp: update_method_function_ids_cases other_defs filter_map_unchanged resolve_keeps_tags
      resolve_skips_others split: if_splits)

lemma updateForeignKeys_others_kept:
  "others_kept db s (snd (updateForeignKeys db s))"
proof -
  let ?s3 = "update_first_three db s"
  have k3: "others_kept db s ?s3"
    by (simp add: others_kept_def update_first_three_others)
  show ?thesis
  proof (cases "update_method_class_ids db ?s3")
    case (Inl e)
    then show ?thesis using k3 by (simp add: updateForeignKeys_eq)
  next
    case (Inr s4)
    from update_method_class_ids_others [OF Inr] have k4: "others_kept db ?s3 s4"
      by (simp add: others_kept_def)
    show ?thesis
    proof (cases "update_method_function_ids db s4")
      case (Inl e)
      then show ?thesis using Inr k3 k4
        by (auto simp: updateForeignKeys_eq intro: others_kept_trans)
    next
      case (Inr s5)
      from update_method_function_ids_others [OF Inr] have "others_kept db s4 s5"
        by (simp add: others_kept_def)
      then show ?thesis using Inr \<open>update_method_class_ids db ?s3 = Inr s4\<close> k3 k4
        by (auto simp: updateForeignKeys_eq intro: others_kept_trans)
    qed
  qed
qed

lemma build_after_clear:
  "others_kept db (clearDatabase db s) (snd (handleBuildGraphIndex env db s)) \<or>
   snd (handleBuildGraphIndex env db s) = s"
proof (cases "databases env db")
  case None
  then show ?thesis by (simp add: handleBuildGraphIndex_def)
next
  case (Some language)
  show ?thesis
  proof (cases "languageDir_of language")
    case None
    then show ?thesis using Some by (simp add: handleBuildGraphIndex_def others_kept_refl)
  next
    case (Some dir)
    let ?run = "run_extractions (query_output env dir) db extractions (\<lambda>t. None) (clearDatabase db s)"
    obtain err st s2 where run: "?run = (err, st, s2)" by (cases ?run)
    have "others_kept db (clearDatabase db s) (snd (snd ?run))" by (rule run_extractions_others_kept)
    with run have s2: "others_kept db (clearDatabase db s) s2" by simp
    have "others_kept db s2 (snd (updateForeignKeys db s2))" by (rule updateForeignKeys_others_kept)
    with s2 have s3: "others_kept db (clearDatabase db s) (snd (updateForeignKeys db s2))"
      by (rule others_kept_trans)
    show ?thesis using \<open>databases env db = Some language\<close> Some run s2 s3
      by (cases err; cases "updateForeignKeys db s2"; cases "fst (updateForeignKeys db s2)")
         (auto simp: handleBuildGraphIndex_def Let_def)
  qed
qed

lemma build_others_kept:
  assumes "no_references_into db s"
  shows "others_kept db s (snd (handleBuildGraphIndex env db s))"
  using build_after_clear [of db s env] clearDatabase_others_kept [OF assms]
  by (auto intro: others_kept_trans others_kept_refl)

lemma build_functions_variables_kept:
  "prefix (other_functions db s) (other_functions db (snd (handleBuildGraphIndex env db s)))
   \<and> other_variables db (snd (handleBuildGraphIndex env db s)) = other_variables db s"
  using build_after_clear [of db s env]
  by (auto simp: others_kept_def clearDatabase_other_functions clearDatabase_other_variables)

lemma clearDatabase_removes_corpus:
  "filter (\<lambda>r. fn_database_name r = db) (t_functions (clearDatabase db s)) = []
   \<and> filter (\<lambda>r. cl_database_name r = db) (t_classes (clearDatabase db s)) = []
   \<and> filter (\<lambda>r. fc_database_name r = db) (t_function_calls (clearDatabase db s)) = []
   \<and> filter (\<lambda>r. cm_database_name r = db) (t_class_methods (clearDatabase db s)) = []
   \<and> filter (\<lambda>r. var_database_name r = db) (t_variables (clearDatabase db s)) = []"
  by (auto simp: clearDatabase_functions clearDatabase_classes clearDatabase_calls
      clearDatabase_methods clearDatabase_variables filter_empty_conv)

lemma ingest_caller:
  "vals (ingest_csv False ''other'' caller_functions_csv) =
     [[Some ''other'', Some ''X@g.js:1'', Some ''X'', Some ''g.js'', Some ''1'', Some ''0'',
       Some ''function X'']]"
  "vals (ingest_csv True ''other'' caller_calls_csv) =
     [[Some ''other'', Some ''X@g.js:1'', Some ''A@f.js:1'', Some ''g.js'', Some ''2'', Some ''A'']]"
  by code_simp+

lemma build_caller:
  "handleBuildGraphIndex caller_env ''other'' functions_only_store =
     (Inr ((\<lambda>t. None)(Functions := Some 1, Function_calls := Some 1, Classes := Some 0,
             Class_methods := Some 0)), cross_corpus_store)"
proof -
  have out: "query_output caller_env ''javascript'' =
      (\<lambda>q. if q = ''extract-functions.ql'' then Some caller_functions_csv
           else if q = ''extract-calls.ql'' then Some caller_calls_csv else None)"
    by (simp add: caller_env_def cong: if_cong)
  let ?s1 = "functions_only_store\<lparr>t_functions := t_functions functions_only_store @ [function_X],
        functions_seq := 5\<rparr>"
  let ?s2 = "?s1\<lparr>t_function_calls := [call_X_A\<lparr>fc_caller_id := None, fc_callee_id := None\<rparr>],
        function_calls_seq := 2\<rparr>"
  have f: "insert_statement Functions 7
      [[Some ''other'', Some ''X@g.js:1'', Some ''X'', Some ''g.js'', Some ''1'', Some ''0'',
        Some ''function X'']] functions_only_store = Inr ?s1"
    by (simp add: insert_statement_def binds_def integer_parameters_def part_at_def insert_row_def mk_function_def int_param_def parse_small
        functions_only_store_def empty_store_def function_X_def eval_nat_numeral)
  have c: "insert_statement Function_calls 6
      [[Some ''other'', Some ''X@g.js:1'', Some ''A@f.js:1'', Some ''g.js'', Some ''2'', Some ''A'']]
      ?s1 = Inr ?s2"
    by (simp add: insert_statement_def binds_def integer_parameters_def part_at_def insert_row_def mk_call_def int_param_def parse_small
        functions_only_store_def empty_store_def call_X_A_def eval_nat_numeral)
  have run: "run_extractions (query_output caller_env ''javascript'') ''other'' extractions
          (\<lambda>t. None) functions_only_store =
        (None, (\<lambda>t. None)(Functions := Some 1, Function_calls := Some 1, Classes := Some 0,
             Class_methods := Some 0), ?s2)"
    by (simp add: out extractions_def extraction_simps ingest_caller insert_batches_single f c)
  have fk: "updateForeignKeys ''other'' ?s2 = (None, cross_corpus_store)"
    by (simp add: updateForeignKeys_def update_parent_ids_def update_callee_ids_def
        update_caller_ids_def update_method_class_ids_def update_method_function_ids_def
        cm_unique_ok_def functions_only_store_def empty_store_def cross_corpus_store_def
        resolve_caller_def resolve_callee_def function_id_of_def call_X_A_def function_X_def)
  have db: "databases caller_env ''other'' = Some ''javascript''"
    by (simp add: caller_env_def)
  show ?thesis
    by (simp add: handleBuildGraphIndex_def db languageDir_of_def clearDatabase_other_corpus run fk)
qed

lemma clear_sample_cross:
  "clearDatabase ''sample'' cross_corpus_store =
     empty_store\<lparr>t_functions := [function_X], functions_seq := 5, function_calls_seq := 2\<rparr>"
  by (simp add: clearDatabase_def delete_functions_def delete_classes_def delete_variables_def
      delete_function_calls_def delete_class_methods_def functions_only_store_def empty_store_def
      cross_corpus_store_def function_X_def call_X_A_def refers_to_def)

lemma rebuild_sample_cross:
  "snd (handleBuildGraphIndex functions_only_env ''sample'' cross_corpus_store) =
     empty_store\<lparr>t_functions :=
        [function_X,
         \<lparr>fn_id = 5, fn_codeql_id = ''A@f.js:1'', fn_database_name = ''sample'', fn_name = ''A'',
          fn_file = ''f.js'', fn_line = 1, fn_num_params = Some 0, fn_signature = Some ''function A''\<rparr>,
         \<lparr>fn_id = 6, fn_codeql_id = ''B@f.js:5'', fn_database_name = ''sample'', fn_name = ''B'',
          fn_file = ''f.js'', fn_line = 5, fn_num_params = Some 1, fn_signature = Some ''function B''\<rparr>,
         \<lparr>fn_id = 7, fn_codeql_id = ''C@f.js:9'', fn_database_name = ''sample'', fn_name = ''C'',
          fn_file = ''f.js'', fn_line = 9, fn_num_params = Some 2, fn_signature = Some ''function C''\<rparr>],
        functions_seq := 8, function_calls_seq := 2\<rparr>"
  (is "_ = ?s1")
proof -
  have out: "query_output functions_only_env ''javascript'' =
      (\<lambda>q. if q = ''extract-functions.ql'' then Some sample_functions_csv else None)"
    by (simp add: functions_only_env_def)
  let ?s0 = "empty_store\<lparr>t_functions := [function_X], functions_seq := 5, function_calls_seq := 2\<rparr>"
  have f: "insert_statement Functions 7
      [[Some ''sample'', Some ''A@f.js:1'', Some ''A'', Some ''f.js'', Some ''1'', Some ''0'', Some ''function A''],
       [Some ''sample'', Some ''B@f.js:5'', Some ''B'', Some ''f.js'', Some ''5'', Some ''1'', Some ''function B''],
       [Some ''sample'', Some ''C@f.js:9'', Some ''C'', Some ''f.js'', Some ''9'', Some ''2'', Some ''function C'']]
      ?s0 = Inr ?s1"
    by (simp add: insert_statement_def binds_def integer_parameters_def part_at_def insert_row_def mk_function_def int_param_def parse_small
        empty_store_def function_X_def eval_nat_numeral)
  have run: "run_extractions (query_output functions_only_env ''javascript'') ''sample'' extractions
          (\<lambda>t. None) ?s0 =
        (None, (\<lambda>t. None)(Functions := Some 3, Function_calls := Some 0, Classes := Some 0,
             Class_methods := Some 0), ?s1)"
    by (simp add: out extractions_def extraction_simps ingest_sample_functions
        insert_batches_single f numeral_3_eq_3)
  have fk: "updateForeignKeys ''sample'' ?s1 = (None, ?s1)"
    by (simp add: updateForeignKeys_def update_parent_ids_def update_callee_ids_def
        update_caller_ids_def update_method_class_ids_def update_method_function_ids_def
        cm_unique_ok_def empty_store_def)
  have db: "databases functions_only_env ''sample'' = Some ''javascript''"
    by (simp add: functions_only_env_def)
  show ?thesis
    by (simp add: handleBuildGraphIndex_def db languageDir_of_def clear_sample_cross run fk)
qed

text \<open>
  Claim C7, as stated, fails. The build of \<open>other\<close> after \<open>sample\<close> resolves the callee
  of the call of X to the function A of \<open>sample\<close>, since the resolver joins with the
  functions of every corpus. Rebuilding \<open>sample\<close> then deletes its functions, and the
  deletion cascades to that call edge, a row tagged \<open>other\<close>.
\<close>

theorem rebuild_deletes_edge_of_other_corpus:
  "snd (handleBuildGraphIndex caller_env ''other''
          (snd (handleBuildGraphIndex functions_only_env ''sample'' empty_store))) = cross_corpus_store
   \<and> other_calls ''sample'' cross_corpus_store = [call_X_A]
   \<and> other_calls ''sample''
        (snd (handleBuildGraphIndex functions_only_env ''sample'' cross_corpus_store)) = []"
proof -
  have "snd (handleBuildGraphIndex caller_env ''other'' functions_only_store) = cross_corpus_store"
    by (simp add: build_caller)
  then have a: "snd (handleBuildGraphIndex caller_env ''other''
          (snd (handleBuildGraphIndex functions_only_env ''sample'' empty_store))) = cross_corpus_store"
    by (simp only: build_functions_only snd_conv)
  have b: "other_calls ''sample'' cross_corpus_store = [call_X_A]"
    by (simp add: other_calls_def cross_corpus_store_def call_X_A_def)
  have c: "other_calls ''sample''
        (snd (handleBuildGraphIndex functions_only_env ''sample'' cross_corpus_store)) = []"
    by (simp add: rebuild_sample_cross other_calls_def empty_store_def)
  from a b c show ?thesis by simp
qed

text \<open>
  Claim C7, amended. \<open>clearDatabase\<close> deletes every row tagged with the rebuilt corpus.
  The function rows and the variable rows of the other corpora are the same after the
  rebuild, even when both corpora have a function of the same name. The class, call-edge
  and method-membership rows of the other corpora are the same after the rebuild when
  none of them holds a resolved id of a function or class of the rebuilt corpus; a row
  that does is deleted, or loses its parent id, by the cascade of the deletion.
\<close>

theorem rebuild_keeps_rows_of_other_corpora:
  "filter (\<lambda>r. fn_database_name r = db) (t_functions (clearDatabase db s)) = []
   \<and> filter (\<lambda>r. cl_database_name r = db) (t_classes (clearDatabase db s)) = []
   \<and> filter (\<lambda>r. fc_database_name r = db) (t_function_calls (clearDatabase db s)) = []
   \<and> filter (\<lambda>r. cm_database_name r = db) (t_class_methods (clearDatabase db s)) = []
   \<and> filter (\<lambda>r. var_database_name r = db) (t_variables (clearDatabase db s)) = []
   \<and> prefix (other_functions db s) (other_functions db (snd (handleBuildGraphIndex env db s)))
   \<and> other_variables db (snd (handleBuildGraphIndex env db s)) = other_variables db s
   \<and> (no_references_into db s \<longrightarrow>
        prefix (other_classes db s) (other_classes db (snd (handleBuildGraphIndex env db s)))
        \<and> prefix (other_calls db s) (other_calls db (snd (handleBuildGraphIndex env db s)))
        \<and> prefix (other_methods db s) (other_methods db (snd (handleBuildGraphIndex env db s))))"
proof -
  have "no_references_into db s \<Longrightarrow>
        prefix (other_classes db s) (other_classes db (snd (handleBuildGraphIndex env db s)))
        \<and> prefix (other_calls db s) (other_calls db (snd (handleBuildGraphIndex env db s)))
        \<and> prefix (other_methods db s) (other_methods db (snd (handleBuildGraphIndex env db s)))"
    using build_others_kept [of db s env] by (simp add: others_kept_def)
  with clearDatabase_removes_corpus [of db s] build_functions_variables_kept [of db s env]
  show ?thesis by blast
qed

text \<open>Two corpora that share no natural key: rebuilding \<open>sample\<close> keeps the function X
  and the call edge of \<open>other\<close>.\<close>

theorem rebuild_keeps_rows_of_other_corpora_witness:
  "no_references_into ''sample'' separate_corpora_store
   \<and> other_calls ''sample'' separate_corpora_store = [call_X_X]
   \<and> other_functions ''sample'' separate_corpora_store = [function_X]
   \<and> prefix [call_X_X]
        (other_calls ''sample''
           (snd (handleBuildGraphIndex functions_only_env ''sample'' separate_corpora_store)))
   \<and> prefix [function_X]
        (other_functions ''sample''
           (snd (handleBuildGraphIndex functions_only_env ''sample'' separate_corpora_store)))"
proof -
  have h: "no_references_into ''sample'' separate_corpora_store"
    by (simp add: no_references_into_def separate_corpora_store_def cross_corpus_store_def
        functions_only_store_def empty_store_def call_X_X_def function_X_def refers_to_def
        dead_function_ids_def dead_class_ids_def)
  have c: "other_calls ''sample'' separate_corpora_store = [call_X_X]"
    by (simp add: other_calls_def separate_corpora_store_def call_X_X_def)
  have f: "other_functions ''sample'' separate_corpora_store = [function_X]"
    by (simp add: other_functions_def separate_corpora_store_def cross_corpus_store_def
        functions_only_store_def empty_store_def function_X_def)
  from rebuild_keeps_rows_of_other_corpora
         [of "''sample''" separate_corpora_store functions_only_env] h c f
  show ?thesis by simp
qed

section \<open>Unresolved call edges in the queries\<close>

lemma ingest_unresolved:
  "vals (ingest_csv True ''sample'' unresolved_calls_csv) =
     [[Some ''sample'', Some ''A@f.js:1'', Some ''unresolved:B@f.js:2'', Some ''f.js'', Some ''2'', Some ''B''],
      [Some ''sample'', Some ''C@f.js:9'', Some ''unresolved:B@f.js:10'', Some ''f.js'', Some ''10'', Some ''B'']]"
  by code_simp

lemma parse_ten: "parse_int4 ''10'' = Some 10" by code_simp

lemma build_unresolved:
  "snd (handleBuildGraphIndex unresolved_env ''sample'' empty_store) = unresolved_calls_store"
proof -
  have out: "query_output unresolved_env ''javascript'' =
      (\<lambda>q. if q = ''extract-functions.ql'' then Some sample_functions_csv
           else if q = ''extract-calls.ql'' then Some unresolved_calls_csv else None)"
    by (simp add: unresolved_env_def cong: if_cong)
  let ?s2 = "functions_only_store\<lparr>t_function_calls :=
        [call_A_B\<lparr>fc_caller_id := None\<rparr>, call_C_B\<lparr>fc_caller_id := None\<rparr>],
        function_calls_seq := 3\<rparr>"
  have c: "insert_statement Function_calls 6
     [[Some ''sample'', Some ''A@f.js:1'', Some ''unresolved:B@f.js:2'', Some ''f.js'', Some ''2'', Some ''B''],
      [Some ''sample'', Some ''C@f.js:9'', Some ''unresolved:B@f.js:10'', Some ''f.js'', Some ''10'', Some ''B'']]
      functions_only_store = Inr ?s2"
    by (simp add: insert_statement_def binds_def integer_parameters_def part_at_def insert_row_def mk_call_def int_param_def parse_small parse_ten
        functions_only_store_def empty_store_def call_A_B_def call_C_B_def eval_nat_numeral)
  have f: "insert_statement Functions 7
      [[Some ''sample'', Some ''A@f.js:1'', Some ''A'', Some ''f.js'', Some ''1'', Some ''0'', Some ''function A''],
       [Some ''sample'', Some ''B@f.js:5'', Some ''B'', Some ''f.js'', Some ''5'', Some ''1'', Some ''function B''],
       [Some ''sample'', Some ''C@f.js:9'', Some ''C'', Some ''f.js'', Some ''9'', Some ''2'', Some ''function C'']]
      empty_store = Inr functions_only_store"
    by (simp add: insert_sample_functions functions_only_store_def)
  have run: "run_extractions (query_output unresolved_env ''javascript'') ''sample'' extractions
          (\<lambda>t. None) empty_store =
        (None, (\<lambda>t. None)(Functions := Some 3, Function_calls := Some 2, Classes := Some 0,
             Class_methods := Some 0), ?s2)"
    by (simp add: out extractions_def extraction_simps ingest_sample_functions ingest_unresolved
        insert_batches_single f c numeral_3_eq_3 numeral_2_eq_2)
  have fk: "updateForeignKeys ''sample'' ?s2 = (None, unresolved_calls_store)"
    by (simp add: updateForeignKeys_def update_parent_ids_def update_callee_ids_def
        update_caller_ids_def update_method_class_ids_def update_method_function_ids_def
        cm_unique_ok_def functions_only_store_def empty_store_def unresolved_calls_store_def
        resolve_caller_def resolve_callee_def function_id_of_def call_A_B_def call_C_B_def)
  have db: "databases unresolved_env ''sample'' = Some ''javascript''"
    by (simp add: unresolved_env_def)
  show ?thesis
    by (simp add: handleBuildGraphIndex_def db languageDir_of_def clearDatabase_empty run fk)
qed

text \<open>
  Claim C4, at a failing input. The two unresolved edges keep the callee name B, the
  caller lookup for B returns both, tagged unresolved, and the row count of call edges
  counts both. The hot-spot query joins the call edges to the functions by
  \<open>fc.callee_id = f.id\<close> alone, so it counts neither: B, called twice by two callers, is
  not among the hot spots, while it is when the same two edges are resolved.
\<close>

theorem unresolved_edges_missing_from_hot_spots:
  "snd (handleBuildGraphIndex unresolved_env ''sample'' empty_store) = unresolved_calls_store
   \<and> map fc_callee_id (t_function_calls unresolved_calls_store) = [None, None]
   \<and> map fc_callee_name (t_function_calls unresolved_calls_store) = [Some ''B'', Some ''B'']
   \<and> handleFindCallers ''sample'' ''B'' unresolved_calls_store =
        [\<lparr>caller_name = ''A'', caller_file = ''f.js'', call_line = 2, call_resolved = False\<rparr>,
         \<lparr>caller_name = ''C'', caller_file = ''f.js'', call_line = 10, call_resolved = False\<rparr>]
   \<and> handleQueryGraphStats ''sample'' unresolved_calls_store =
        (\<lparr>n_functions = 3, n_classes = 0, n_calls = 2, n_methods = 0, n_variables = 0\<rparr>, [])
   \<and> hot_spots ''sample'' resolved_calls_store =
        [\<lparr>hs_name = ''B'', hs_file = ''f.js'', call_count = 2, unique_callers = 2\<rparr>]"
proof -
  have a: "map fc_callee_id (t_function_calls unresolved_calls_store) = [None, None]"
    "map fc_callee_name (t_function_calls unresolved_calls_store) = [Some ''B'', Some ''B'']"
    by (simp_all add: unresolved_calls_store_def call_A_B_def call_C_B_def)
  have b: "handleFindCallers ''sample'' ''B'' unresolved_calls_store =
        [\<lparr>caller_name = ''A'', caller_file = ''f.js'', call_line = 2, call_resolved = False\<rparr>,
         \<lparr>caller_name = ''C'', caller_file = ''f.js'', call_line = 10, call_resolved = False\<rparr>]"
    by code_simp
  have c: "handleQueryGraphStats ''sample'' unresolved_calls_store =
        (\<lparr>n_functions = 3, n_classes = 0, n_calls = 2, n_methods = 0, n_variables = 0\<rparr>, [])"
    by code_simp
  have d: "hot_spots ''sample'' resolved_calls_store =
        [\<lparr>hs_name = ''B'', hs_file = ''f.js'', call_count = 2, unique_callers = 2\<rparr>]"
    by code_simp
  from build_unresolved a b c d show ?thesis by simp
qed

section \<open>Fuzzy function search\<close>

lemma hd_sort_key_least:
  fixes k :: "'a \<Rightarrow> 'b::linorder"
  assumes "x \<in> set xs"
  shows "sort_key k xs \<noteq> [] \<and> hd (sort_key k xs) \<in> set xs \<and> k (hd (sort_key k xs)) \<le> k x"
proof -
  let ?ys = "sort_key k xs"
  have ne: "?ys \<noteq> []" using assms by (cases xs) (auto simp: sort_key_def)
  have srt: "sorted (map k ?ys)" by (rule sorted_sort_key)
  have mem: "x \<in> set ?ys" using assms by simp
  obtain y ys where ys: "?ys = y # ys" using ne by (cases ?ys) auto
  with srt have "\<forall>z \<in> set ys. k y \<le> k z" by simp
  with mem ys have "k y \<le> k x" by auto
  moreover have "y \<in> set xs" using ys by (metis list.set_intros(1) set_sort)
  ultimately show ?thesis using ys by simp
qed








section \<open>The call-chain search\<close>

lemma linked_snoc:
  "fs \<noteq> [] \<Longrightarrow> linked s db (fs @ [g]) = (linked s db fs \<and> call_edge s db (last fs) g)"
  by (induction s db fs rule: linked.induct) auto

lemma linked_snoc_Cons:
  "linked s db (a # list @ [g]) = (linked s db (a # list) \<and> call_edge s db (last (a # list)) g)"
  using linked_snoc [of "a # list" s db g] by simp

lemma is_call_chain_snoc:
  "fs \<noteq> [] \<Longrightarrow>
   is_call_chain s db from (fs @ [g]) =
     (is_call_chain s db from fs \<and> call_edge s db (last fs) g \<and> fn_name g \<notin> set (map fn_name fs))"
  by (cases fs) (auto simp: is_call_chain_def linked_snoc_Cons simp del: linked.simps)

lemma is_call_chain_single:
  "is_call_chain s db from [f] = (f \<in> set (t_functions s) \<and> fn_name f = from \<and> fn_database_name f = db)"
  by (simp add: is_call_chain_def)

lemma is_call_chain_nonempty: "is_call_chain s db from fs \<Longrightarrow> fs \<noteq> []"
  by (auto simp: is_call_chain_def)

lemma set_chain_base:
  "set (chain_base s db from) = {row_of_chain [f] | f. is_call_chain s db from [f]}"
  by (auto simp: chain_base_def row_of_chain_def chain_depth_def is_call_chain_single)

lemma set_chain_extend:
  assumes "fs \<noteq> []"
  shows "set (chain_extend s db maxd (row_of_chain fs)) =
     (\<lambda>g. row_of_chain (fs @ [g])) `
       {g. call_edge s db (last fs) g \<and> fn_name g \<notin> set (map fn_name fs)
             \<and> int (chain_depth fs) < maxd}"
proof -
  have len: "chain_depth (fs @ [g]) = chain_depth fs + 1" for g
    using assms by (cases fs) (auto simp: chain_depth_def)
  have row: "row_of_chain (fs @ [g]) =
      \<lparr>cc_id = fn_id g, cc_name = fn_name g, cc_file = fn_file g,
       cc_path = cc_path (row_of_chain fs) @ [fn_name g], cc_depth = cc_depth (row_of_chain fs) + 1\<rparr>" for g
    by (simp add: row_of_chain_def len)
  have fields: "cc_id (row_of_chain fs) = fn_id (last fs)" "cc_path (row_of_chain fs) = map fn_name fs"
    "cc_depth (row_of_chain fs) = chain_depth fs"
    by (simp_all add: row_of_chain_def)
  show ?thesis
  proof (intro equalityI subsetI)
    fix r assume "r \<in> set (chain_extend s db maxd (row_of_chain fs))"
    then obtain fc g where fc: "fc \<in> set (t_function_calls s)" "fc_caller_id fc = Some (fn_id (last fs))"
      and g: "g \<in> set (t_functions s)"
        "Some (fn_id g) = fc_callee_id fc \<or> Some (fn_name g) = fc_callee_name fc"
        "fn_database_name g = db" "int (chain_depth fs) < maxd" "fn_name g \<notin> set (map fn_name fs)"
      and r: "r = \<lparr>cc_id = fn_id g, cc_name = fn_name g, cc_file = fn_file g,
               cc_path = cc_path (row_of_chain fs) @ [fn_name g],
               cc_depth = cc_depth (row_of_chain fs) + 1\<rparr>"
      unfolding chain_extend_def fields by auto
    have "call_edge s db (last fs) g"
      unfolding call_edge_def list_ex_iff using fc g by (auto intro!: bexI [of _ fc])
    with g r show "r \<in> (\<lambda>g. row_of_chain (fs @ [g])) `
       {g. call_edge s db (last fs) g \<and> fn_name g \<notin> set (map fn_name fs)
             \<and> int (chain_depth fs) < maxd}"
      by (auto simp: row)
  next
    fix r assume "r \<in> (\<lambda>g. row_of_chain (fs @ [g])) `
       {g. call_edge s db (last fs) g \<and> fn_name g \<notin> set (map fn_name fs)
             \<and> int (chain_depth fs) < maxd}"
    then obtain g where e: "call_edge s db (last fs) g" and fresh: "fn_name g \<notin> set (map fn_name fs)"
      and d: "int (chain_depth fs) < maxd" and r: "r = row_of_chain (fs @ [g])"
      by auto
    from e obtain fc where fc: "fc \<in> set (t_function_calls s)" "fc_caller_id fc = Some (fn_id (last fs))"
      "fc_callee_id fc = Some (fn_id g) \<or> fc_callee_name fc = Some (fn_name g)"
      and g: "g \<in> set (t_functions s)" "fn_database_name g = db"
      by (auto simp: call_edge_def list_ex_iff)
    show "r \<in> set (chain_extend s db maxd (row_of_chain fs))"
      unfolding chain_extend_def fields r row
      using fc g fresh d by (auto intro!: bexI [of _ fc] bexI [of _ g])
  qed
qed

lemma chain_step_Nil: "chain_step s db maxd [] = []"
  by (simp add: chain_step_def)

lemma set_chain_step:
  "set (chain_step s db maxd w) = (\<Union>cc \<in> set w. set (chain_extend s db maxd cc))"
  by (simp add: chain_step_def)

lemma level_rows:
  "set (((chain_step s db maxd) ^^ n) (chain_base s db from)) =
     row_of_chain ` chains_of_depth s db from maxd n"
proof (induction n)
  case 0
  have "chains_of_depth s db from maxd 0 = {[f] | f. is_call_chain s db from [f]}"
  proof (intro equalityI subsetI)
    fix fs assume "fs \<in> chains_of_depth s db from maxd 0"
    then have c: "is_call_chain s db from fs" and "chain_depth fs = 0"
      by (auto simp: chains_of_depth_def)
    then obtain f where "fs = [f]"
      by (cases fs) (auto simp: chain_depth_def is_call_chain_def)
    with c show "fs \<in> {[f] | f. is_call_chain s db from [f]}" by auto
  next
    fix fs assume "fs \<in> {[f] | f. is_call_chain s db from [f]}"
    then show "fs \<in> chains_of_depth s db from maxd 0"
      by (auto simp: chains_of_depth_def chain_depth_def)
  qed
  then show ?case
    by (auto simp: set_chain_base)
next
  case (Suc n)
  let ?W = "((chain_step s db maxd) ^^ n) (chain_base s db from)"
  have "set (((chain_step s db maxd) ^^ Suc n) (chain_base s db from)) =
        (\<Union>cc \<in> set ?W. set (chain_extend s db maxd cc))"
    by (simp add: set_chain_step)
  also have "\<dots> = (\<Union>fs \<in> chains_of_depth s db from maxd n. set (chain_extend s db maxd (row_of_chain fs)))"
    by (simp add: Suc.IH)
  also have "\<dots> = row_of_chain ` chains_of_depth s db from maxd (Suc n)"
  proof (intro equalityI subsetI)
    fix r assume "r \<in> (\<Union>fs \<in> chains_of_depth s db from maxd n. set (chain_extend s db maxd (row_of_chain fs)))"
    then obtain fs where fs: "fs \<in> chains_of_depth s db from maxd n"
      and r: "r \<in> set (chain_extend s db maxd (row_of_chain fs))" by blast
    from fs have c: "is_call_chain s db from fs" and d: "chain_depth fs = n"
      by (auto simp: chains_of_depth_def)
    have ne: "fs \<noteq> []" using c by (rule is_call_chain_nonempty)
    from r obtain g where g: "call_edge s db (last fs) g" "fn_name g \<notin> set (map fn_name fs)"
      "int (chain_depth fs) < maxd" and rg: "r = row_of_chain (fs @ [g])"
      unfolding set_chain_extend [OF ne] by auto
    have "is_call_chain s db from (fs @ [g])"
      using c g by (simp add: is_call_chain_snoc [OF ne])
    moreover have "chain_depth (fs @ [g]) = Suc n"
      using ne d by (cases fs) (auto simp: chain_depth_def)
    moreover have "int (Suc n) \<le> max 0 maxd" using g(3) d by simp
    ultimately have "fs @ [g] \<in> chains_of_depth s db from maxd (Suc n)"
      by (simp add: chains_of_depth_def)
    with rg show "r \<in> row_of_chain ` chains_of_depth s db from maxd (Suc n)" by blast
  next
    fix r assume "r \<in> row_of_chain ` chains_of_depth s db from maxd (Suc n)"
    then obtain hs where hs: "is_call_chain s db from hs" "chain_depth hs = Suc n"
      "int (Suc n) \<le> max 0 maxd" and r: "r = row_of_chain hs"
      by (auto simp: chains_of_depth_def)
    from hs(2) have len: "length hs = Suc (Suc n)" by (simp add: chain_depth_def)
    define fs where "fs = butlast hs"
    define g where "g = last hs"
    have hne: "hs \<noteq> []" using len by auto
    have split: "hs = fs @ [g]" using hne by (simp add: fs_def g_def)
    have "length fs = Suc n" using len by (simp add: fs_def)
    then have ne: "fs \<noteq> []" by auto
    have d: "chain_depth fs = n" using len by (simp add: fs_def chain_depth_def)
    from hs(1) have c: "is_call_chain s db from fs" and e: "call_edge s db (last fs) g"
      and fresh: "fn_name g \<notin> set (map fn_name fs)"
      unfolding split by (simp_all add: is_call_chain_snoc [OF ne])
    have lt: "int (chain_depth fs) < maxd" using hs(3) d by simp
    then have "int n \<le> max 0 maxd" using d by simp
    with c d have "fs \<in> chains_of_depth s db from maxd n" by (simp add: chains_of_depth_def)
    moreover have "r \<in> set (chain_extend s db maxd (row_of_chain fs))"
      unfolding set_chain_extend [OF ne] using e fresh lt r split by blast
    ultimately show "r \<in> (\<Union>fs \<in> chains_of_depth s db from maxd n. set (chain_extend s db maxd (row_of_chain fs)))"
      by blast
  qed
  finally show ?case .
qed

lemma UN_split_first:
  fixes F :: "nat \<Rightarrow> 'a set"
  shows "(\<Union>n. F n) = F 0 \<union> (\<Union>n. F (Suc n))"
proof (intro equalityI subsetI)
  fix x assume "x \<in> (\<Union>n. F n)"
  then obtain n where "x \<in> F n" by blast
  then show "x \<in> F 0 \<union> (\<Union>n. F (Suc n))" by (cases n) auto
next
  fix x assume "x \<in> F 0 \<union> (\<Union>n. F (Suc n))"
  then show "x \<in> (\<Union>n. F n)" by blast
qed

lemma funpow_step_Nil: "((chain_step s db maxd) ^^ n) [] = []"
  by (induction n) (simp_all add: chain_step_Nil)

lemma set_call_chain:
  "set (call_chain s db maxd w) = (\<Union>n. set (((chain_step s db maxd) ^^ n) w))"
proof (induction s db maxd w rule: call_chain.induct)
  case (1 s db maxd w)
  show ?case
  proof (cases "w = []")
    case True
    then show ?thesis by (subst call_chain.simps) (simp add: funpow_step_Nil)
  next
    case False
    have "set (call_chain s db maxd w) = set w \<union> set (call_chain s db maxd (chain_step s db maxd w))"
      using False by (subst call_chain.simps) simp
    also have "\<dots> = set w \<union> (\<Union>n. set (((chain_step s db maxd) ^^ n) (chain_step s db maxd w)))"
      using "1.IH" [OF False] by simp
    also have "\<dots> = set w \<union> (\<Union>n. set (((chain_step s db maxd) ^^ Suc n) w))"
      by (simp only: funpow_Suc_right o_apply)
    also have "\<dots> = (\<Union>n. set (((chain_step s db maxd) ^^ n) w))"
      using UN_split_first [of "\<lambda>n. set (((chain_step s db maxd) ^^ n) w)"] by simp
    finally show ?thesis .
  qed
qed

lemma set_all_chain_rows:
  "set (call_chain s db maxd (chain_base s db from)) =
     row_of_chain ` {fs. is_call_chain s db from fs \<and> int (chain_depth fs) \<le> max 0 maxd}"
proof -
  have "set (call_chain s db maxd (chain_base s db from)) =
        (\<Union>n. row_of_chain ` chains_of_depth s db from maxd n)"
    by (simp only: set_call_chain level_rows)
  also have "\<dots> = row_of_chain ` (\<Union>n. chains_of_depth s db from maxd n)"
    by (simp only: image_UN)
  also have "(\<Union>n. chains_of_depth s db from maxd n) =
        {fs. is_call_chain s db from fs \<and> int (chain_depth fs) \<le> max 0 maxd}"
    unfolding chains_of_depth_def by blast
  finally show ?thesis .
qed

lemma row_of_chain_fields:
  "cc_name (row_of_chain fs) = fn_name (last fs)" "cc_path (row_of_chain fs) = map fn_name fs"
  "cc_depth (row_of_chain fs) = chain_depth fs"
  by (simp_all add: row_of_chain_def)

lemma ingest_chain_calls:
  "vals (ingest_csv True ''sample'' chain_calls_csv) =
     [[Some ''sample'', Some ''A@f.js:1'', Some ''B@f.js:5'', Some ''f.js'', Some ''2'', Some ''B''],
      [Some ''sample'', Some ''B@f.js:5'', Some ''C@f.js:9'', Some ''f.js'', Some ''6'', Some ''C'']]"
  by code_simp

lemma parse_six: "parse_int4 ''6'' = Some 6"
  by code_simp

lemma build_chain:
  "snd (handleBuildGraphIndex chain_env ''sample'' empty_store) = chain_store"
proof -
  have out: "query_output chain_env ''javascript'' =
      (\<lambda>q. if q = ''extract-functions.ql'' then Some sample_functions_csv
           else if q = ''extract-calls.ql'' then Some chain_calls_csv else None)"
    by (simp add: chain_env_def cong: if_cong)
  let ?s2 = "functions_only_store\<lparr>t_function_calls :=
        [call_A_to_B\<lparr>fc_caller_id := None, fc_callee_id := None\<rparr>,
         call_B_to_C\<lparr>fc_caller_id := None, fc_callee_id := None\<rparr>],
        function_calls_seq := 3\<rparr>"
  have f: "insert_statement Functions 7
      [[Some ''sample'', Some ''A@f.js:1'', Some ''A'', Some ''f.js'', Some ''1'', Some ''0'', Some ''function A''],
       [Some ''sample'', Some ''B@f.js:5'', Some ''B'', Some ''f.js'', Some ''5'', Some ''1'', Some ''function B''],
       [Some ''sample'', Some ''C@f.js:9'', Some ''C'', Some ''f.js'', Some ''9'', Some ''2'', Some ''function C'']]
      empty_store = Inr functions_only_store"
    by (simp add: insert_sample_functions functions_only_store_def)
  have c: "insert_statement Function_calls 6
     [[Some ''sample'', Some ''A@f.js:1'', Some ''B@f.js:5'', Some ''f.js'', Some ''2'', Some ''B''],
      [Some ''sample'', Some ''B@f.js:5'', Some ''C@f.js:9'', Some ''f.js'', Some ''6'', Some ''C'']]
      functions_only_store = Inr ?s2"
    by (simp add: insert_statement_def binds_def integer_parameters_def part_at_def insert_row_def mk_call_def int_param_def parse_small parse_six
        functions_only_store_def empty_store_def call_A_to_B_def call_B_to_C_def eval_nat_numeral)
  have run: "run_extractions (query_output chain_env ''javascript'') ''sample'' extractions
          (\<lambda>t. None) empty_store =
        (None, (\<lambda>t. None)(Functions := Some 3, Function_calls := Some 2, Classes := Some 0,
             Class_methods := Some 0), ?s2)"
    by (simp add: out extractions_def extraction_simps ingest_sample_functions ingest_chain_calls
        insert_batches_single f c numeral_3_eq_3 numeral_2_eq_2)
  have fk: "updateForeignKeys ''sample'' ?s2 = (None, chain_store)"
    by (simp add: updateForeignKeys_def update_parent_ids_def update_callee_ids_def
        update_caller_ids_def update_method_class_ids_def update_method_function_ids_def
        cm_unique_ok_def functions_only_store_def empty_store_def chain_store_def
        resolve_caller_def resolve_callee_def function_id_of_def call_A_to_B_def call_B_to_C_def)
  have db: "databases chain_env ''sample'' = Some ''javascript''"
    by (simp add: chain_env_def)
  show ?thesis
    by (simp add: handleBuildGraphIndex_def db languageDir_of_def clearDatabase_empty run fk)
qed

lemma call_chain_query_shortest:
  "(call_chain_query db from_function to_function max_depth s = None \<longleftrightarrow>
      \<not> (\<exists>fs. is_call_chain s db from_function fs \<and> fn_name (last fs) = to_function
                 \<and> int (chain_depth fs) \<le> max 0 max_depth))
   \<and> (\<forall>p d. call_chain_query db from_function to_function max_depth s = Some (p, d) \<longrightarrow>
          (\<exists>fs. is_call_chain s db from_function fs \<and> fn_name (last fs) = to_function \<and> p = map fn_name fs
                \<and> d = chain_depth fs \<and> int d \<le> max 0 max_depth)
          \<and> (\<forall>gs. is_call_chain s db from_function gs \<and> fn_name (last gs) = to_function \<longrightarrow> d \<le> chain_depth gs))"
proof -
  let ?all = "call_chain s db max_depth (chain_base s db from_function)"
  let ?R = "filter (\<lambda>r. cc_name r = to_function) ?all"
  let ?B = "{fs. is_call_chain s db from_function fs \<and> int (chain_depth fs) \<le> max 0 max_depth}"
  have setR: "set ?R = row_of_chain ` {fs \<in> ?B. fn_name (last fs) = to_function}"
  proof (intro equalityI subsetI)
    fix r assume "r \<in> set ?R"
    then have "r \<in> set ?all" and n: "cc_name r = to_function" by simp_all
    then obtain fs where "fs \<in> ?B" and r: "r = row_of_chain fs"
      unfolding set_all_chain_rows by blast
    moreover have "fn_name (last fs) = to_function" using n r by (simp add: row_of_chain_fields)
    ultimately show "r \<in> row_of_chain ` {fs \<in> ?B. fn_name (last fs) = to_function}" by blast
  next
    fix r assume "r \<in> row_of_chain ` {fs \<in> ?B. fn_name (last fs) = to_function}"
    then obtain fs where fs: "fs \<in> ?B" "fn_name (last fs) = to_function" and r: "r = row_of_chain fs"
      by blast
    from fs(1) have "row_of_chain fs \<in> set ?all"
      unfolding set_all_chain_rows by (rule imageI)
    with fs(2) r show "r \<in> set ?R" by (simp add: row_of_chain_fields)
  qed
  have res: "call_chain_query db from_function to_function max_depth s =
      (case sort_key cc_depth ?R of [] \<Rightarrow> None | row # _ \<Rightarrow> Some (cc_path row, cc_depth row))"
    by (simp add: call_chain_query_def)
  have none: "call_chain_query db from_function to_function max_depth s = None \<longleftrightarrow>
      \<not> (\<exists>fs. is_call_chain s db from_function fs \<and> fn_name (last fs) = to_function
                 \<and> int (chain_depth fs) \<le> max 0 max_depth)"
  proof -
    have "call_chain_query db from_function to_function max_depth s = None \<longleftrightarrow> sort_key cc_depth ?R = []"
      unfolding res by (cases "sort_key cc_depth ?R") auto
    also have "\<dots> \<longleftrightarrow> set ?R = {}"
      by (metis set_empty set_sort)
    also have "\<dots> \<longleftrightarrow> {fs \<in> ?B. fn_name (last fs) = to_function} = {}"
      unfolding setR by simp
    finally show ?thesis by blast
  qed
  have some: "(\<exists>fs. is_call_chain s db from_function fs \<and> fn_name (last fs) = to_function \<and> p = map fn_name fs
                \<and> d = chain_depth fs \<and> int d \<le> max 0 max_depth)
          \<and> (\<forall>gs. is_call_chain s db from_function gs \<and> fn_name (last gs) = to_function \<longrightarrow> d \<le> chain_depth gs)"
    if found: "call_chain_query db from_function to_function max_depth s = Some (p, d)" for p d
  proof -
    from found obtain row rest where srt: "sort_key cc_depth ?R = row # rest"
      and p: "p = cc_path row" and d: "d = cc_depth row"
      unfolding res by (cases "sort_key cc_depth ?R") auto
    have "row \<in> set (sort_key cc_depth ?R)" using srt by simp
    then have rowR: "row \<in> set ?R" by (simp only: set_sort)
    then obtain fs where fs: "is_call_chain s db from_function fs" "int (chain_depth fs) \<le> max 0 max_depth"
      "fn_name (last fs) = to_function" and row: "row = row_of_chain fs"
      unfolding setR by auto
    have first: "\<exists>fs. is_call_chain s db from_function fs \<and> fn_name (last fs) = to_function \<and> p = map fn_name fs
                \<and> d = chain_depth fs \<and> int d \<le> max 0 max_depth"
      using fs p d row by (auto simp: row_of_chain_fields)
    have least: "d \<le> chain_depth gs" if gs: "is_call_chain s db from_function gs" "fn_name (last gs) = to_function" for gs
    proof (cases "int (chain_depth gs) \<le> max 0 max_depth")
      case True
      with gs have "row_of_chain gs \<in> set ?R" unfolding setR by blast
      from hd_sort_key_least [OF this, of cc_depth]
      have "cc_depth (hd (sort_key cc_depth ?R)) \<le> cc_depth (row_of_chain gs)" by blast
      then show ?thesis using srt d by (simp add: row_of_chain_fields)
    next
      case False
      then have "max 0 max_depth < int (chain_depth gs)" by linarith
      moreover have "int d \<le> max 0 max_depth" using fs(2) d row by (simp add: row_of_chain_fields)
      ultimately show ?thesis by linarith
    qed
    from first least show ?thesis by blast
  qed
  from none some show ?thesis by blast
qed

lemma is_int4_small: "is_int4 5" "is_int4 1" "is_int4 (- 1)" "\<not> is_int4 2147483648" "\<not> is_int4 (3 / 2)"
  by code_simp+

lemma floor_minus_one: "\<lfloor>- 1 :: rat\<rfloor> = - 1"
  using floor_of_int [of "- 1", where ?'a = rat] by simp

lemma is_int4_bound:
  assumes "is_int4 x"
  shows "rat_of_nat n \<le> max 0 x \<longleftrightarrow> int n \<le> max 0 \<lfloor>x\<rfloor>"
proof -
  from assms have "rat_of_int \<lfloor>x\<rfloor> = x" unfolding is_int4_def by (rule conjunct1)
  then have x: "x = of_int \<lfloor>x\<rfloor>" by (rule sym)
  have "rat_of_nat n \<le> max 0 (rat_of_int \<lfloor>x\<rfloor>) \<longleftrightarrow>
        rat_of_int (int n) \<le> rat_of_int (max 0 \<lfloor>x\<rfloor>)"
    by (simp only: of_int_of_nat_eq of_int_max of_int_0)
  also have "\<dots> \<longleftrightarrow> int n \<le> max 0 \<lfloor>x\<rfloor>"
    by (rule of_int_le_iff)
  finally have "rat_of_nat n \<le> max 0 (rat_of_int \<lfloor>x\<rfloor>) \<longleftrightarrow> int n \<le> max 0 \<lfloor>x\<rfloor>" .
  then show ?thesis by (subst x)
qed

text \<open>
  Claim C2, as stated, fails for a negative bound: the start function is a row of depth
  0 whatever the bound is, so a search from A to A with the bound -1 finds the path of
  depth 0, which exceeds the bound.
\<close>

theorem negative_bound_still_finds_start:
  "handleFindCallChain ''sample'' ''A'' ''A'' (- 1) chain_store = Inr (Some ([''A''], 0))"
proof -
  have "call_chain_query ''sample'' ''A'' ''A'' (- 1) chain_store = Some ([''A''], 0)"
    by code_simp
  then show ?thesis
    by (simp add: handleFindCallChain_def is_int4_small floor_minus_one)
qed

text \<open>
  Claim C2, amended. The search is run for a bound that is a 32-bit integer; any other
  number is rejected with an error. The start function itself, at depth 0, is always
  examined; beyond it the search follows call edges while the depth does not exceed the
  bound. So with the effective bound, the larger of 0 and \<open>max_depth\<close>: the search
  reports not-found exactly when no call chain from a function named \<open>from_function\<close> to
  a function named \<open>to_function\<close> has a depth within the bound, even when a longer one
  exists; otherwise it returns the names and the depth of such a chain within the bound,
  and no call chain between the two names is shorter. In the corpus \<open>sample\<close> with the
  edges from A to B and from B to C, the bound 5 yields the path A, B, C at depth 2 and
  the bound 1 yields not-found.
\<close>

theorem call_chain_shortest_within_bound:
  "(\<not> is_int4 max_depth \<longrightarrow>
      handleFindCallChain db from_function to_function max_depth s = Inl InvalidInteger)
   \<and> (is_int4 max_depth \<longrightarrow>
        (\<exists>r. handleFindCallChain db from_function to_function max_depth s = Inr r)
        \<and> (handleFindCallChain db from_function to_function max_depth s = Inr None \<longleftrightarrow>
             \<not> (\<exists>fs. is_call_chain s db from_function fs \<and> fn_name (last fs) = to_function
                      \<and> rat_of_nat (chain_depth fs) \<le> max 0 max_depth))
        \<and> (\<forall>p d. handleFindCallChain db from_function to_function max_depth s = Inr (Some (p, d)) \<longrightarrow>
               (\<exists>fs. is_call_chain s db from_function fs \<and> fn_name (last fs) = to_function
                     \<and> p = map fn_name fs \<and> d = chain_depth fs
                     \<and> rat_of_nat d \<le> max 0 max_depth)
               \<and> (\<forall>gs. is_call_chain s db from_function gs \<and> fn_name (last gs) = to_function \<longrightarrow>
                      d \<le> chain_depth gs)))
   \<and> handleFindCallChain ''sample'' ''A'' ''C'' 5 chain_store = Inr (Some ([''A'', ''B'', ''C''], 2))
   \<and> handleFindCallChain ''sample'' ''A'' ''C'' 1 chain_store = Inr None"
proof -
  note q = call_chain_query_shortest [of db from_function to_function "\<lfloor>max_depth\<rfloor>" s]
  have bad: "handleFindCallChain db from_function to_function max_depth s = Inl InvalidInteger"
    if "\<not> is_int4 max_depth"
    using that by (simp add: handleFindCallChain_def)
  have good: "(\<exists>r. handleFindCallChain db from_function to_function max_depth s = Inr r)
        \<and> (handleFindCallChain db from_function to_function max_depth s = Inr None \<longleftrightarrow>
             \<not> (\<exists>fs. is_call_chain s db from_function fs \<and> fn_name (last fs) = to_function
                      \<and> rat_of_nat (chain_depth fs) \<le> max 0 max_depth))
        \<and> (\<forall>p d. handleFindCallChain db from_function to_function max_depth s = Inr (Some (p, d)) \<longrightarrow>
               (\<exists>fs. is_call_chain s db from_function fs \<and> fn_name (last fs) = to_function
                     \<and> p = map fn_name fs \<and> d = chain_depth fs
                     \<and> rat_of_nat d \<le> max 0 max_depth)
               \<and> (\<forall>gs. is_call_chain s db from_function gs \<and> fn_name (last gs) = to_function \<longrightarrow>
                      d \<le> chain_depth gs))"
    if ok: "is_int4 max_depth"
  proof -
    have h: "handleFindCallChain db from_function to_function max_depth s =
        Inr (call_chain_query db from_function to_function \<lfloor>max_depth\<rfloor> s)"
      using ok by (simp add: handleFindCallChain_def)
    show ?thesis
      unfolding h using q by (simp add: is_int4_bound [OF ok])
  qed
  have ex1: "handleFindCallChain ''sample'' ''A'' ''C'' 5 chain_store = Inr (Some ([''A'', ''B'', ''C''], 2))"
  proof -
    have "call_chain_query ''sample'' ''A'' ''C'' 5 chain_store = Some ([''A'', ''B'', ''C''], 2)"
      by code_simp
    then show ?thesis by (simp add: handleFindCallChain_def is_int4_small)
  qed
  have ex2: "handleFindCallChain ''sample'' ''A'' ''C'' 1 chain_store = Inr None"
  proof -
    have "call_chain_query ''sample'' ''A'' ''C'' 1 chain_store = None"
      by code_simp
    then show ?thesis by (simp add: handleFindCallChain_def is_int4_small)
  qed
  have bad': "\<not> is_int4 max_depth \<longrightarrow>
      handleFindCallChain db from_function to_function max_depth s = Inl InvalidInteger"
    using bad by blast
  from good have good': "is_int4 max_depth \<longrightarrow>
        (\<exists>r. handleFindCallChain db from_function to_function max_depth s = Inr r)
        \<and> (handleFindCallChain db from_function to_function max_depth s = Inr None \<longleftrightarrow>
             \<not> (\<exists>fs. is_call_chain s db from_function fs \<and> fn_name (last fs) = to_function
                      \<and> rat_of_nat (chain_depth fs) \<le> max 0 max_depth))
        \<and> (\<forall>p d. handleFindCallChain db from_function to_function max_depth s = Inr (Some (p, d)) \<longrightarrow>
               (\<exists>fs. is_call_chain s db from_function fs \<and> fn_name (last fs) = to_function
                     \<and> p = map fn_name fs \<and> d = chain_depth fs
                     \<and> rat_of_nat d \<le> max 0 max_depth)
               \<and> (\<forall>gs. is_call_chain s db from_function gs \<and> fn_name (last gs) = to_function \<longrightarrow>
                      d \<le> chain_depth gs))"
    by (rule impI)
  show ?thesis
    by (intro conjI bad' good' ex1 ex2)
qed

text \<open>The corpus is the one that the build leaves; the bounds 5 and 1 are 32-bit
  integers, the bounds 2147483648 and 3/2 are not.\<close>

theorem call_chain_shortest_within_bound_witness:
  "snd (handleBuildGraphIndex chain_env ''sample'' empty_store) = chain_store
   \<and> is_int4 5 \<and> is_int4 1
   \<and> handleFindCallChain ''sample'' ''A'' ''C'' 5 chain_store = Inr (Some ([''A'', ''B'', ''C''], 2))
   \<and> (\<exists>fs. is_call_chain chain_store ''sample'' ''A'' fs \<and> fn_name (last fs) = ''C''
            \<and> [''A'', ''B'', ''C''] = map fn_name fs \<and> 2 = chain_depth fs
            \<and> rat_of_nat 2 \<le> max 0 5)
   \<and> handleFindCallChain ''sample'' ''A'' ''C'' 1 chain_store = Inr None
   \<and> \<not> (\<exists>fs. is_call_chain chain_store ''sample'' ''A'' fs \<and> fn_name (last fs) = ''C''
              \<and> rat_of_nat (chain_depth fs) \<le> max 0 1)
   \<and> handleFindCallChain ''sample'' ''A'' ''C'' 2147483648 chain_store = Inl InvalidInteger
   \<and> handleFindCallChain ''sample'' ''A'' ''C'' (3 / 2) chain_store = Inl InvalidInteger"
proof -
  note five = call_chain_shortest_within_bound [of 5 "''sample''" "''A''" "''C''" chain_store]
  note one = call_chain_shortest_within_bound [of 1 "''sample''" "''A''" "''C''" chain_store]
  note big = call_chain_shortest_within_bound [of 2147483648 "''sample''" "''A''" "''C''" chain_store]
  note half = call_chain_shortest_within_bound [of "3 / 2" "''sample''" "''A''" "''C''" chain_store]
  note five_ok = five [THEN conjunct2, THEN conjunct1, rule_format, OF is_int4_small(1)]
  note one_ok = one [THEN conjunct2, THEN conjunct1, rule_format, OF is_int4_small(2)]
  have found: "handleFindCallChain ''sample'' ''A'' ''C'' 5 chain_store = Inr (Some ([''A'', ''B'', ''C''], 2))"
    by (rule five [THEN conjunct2, THEN conjunct2, THEN conjunct1])
  have ex: "\<exists>fs. is_call_chain chain_store ''sample'' ''A'' fs \<and> fn_name (last fs) = ''C''
            \<and> [''A'', ''B'', ''C''] = map fn_name fs \<and> 2 = chain_depth fs
            \<and> rat_of_nat 2 \<le> max 0 5"
    by (rule five_ok [THEN conjunct2, THEN conjunct2, rule_format, OF found, THEN conjunct1])
  have none: "handleFindCallChain ''sample'' ''A'' ''C'' 1 chain_store = Inr None"
    by (rule one [THEN conjunct2, THEN conjunct2, THEN conjunct2])
  have no_chain: "\<not> (\<exists>fs. is_call_chain chain_store ''sample'' ''A'' fs \<and> fn_name (last fs) = ''C''
              \<and> rat_of_nat (chain_depth fs) \<le> max 0 1)"
    by (rule iffD1 [OF one_ok [THEN conjunct2, THEN conjunct1] none])
  have too_big: "handleFindCallChain ''sample'' ''A'' ''C'' 2147483648 chain_store = Inl InvalidInteger"
    by (rule big [THEN conjunct1, rule_format, OF is_int4_small(4)])
  have fraction: "handleFindCallChain ''sample'' ''A'' ''C'' (3 / 2) chain_store = Inl InvalidInteger"
    by (rule half [THEN conjunct1, rule_format, OF is_int4_small(5)])
  show ?thesis
    by (intro conjI build_chain is_int4_small(1,2) found ex none no_chain too_big fraction)
qed

end
